(* ===== verification/Prelude.thy ===== *)
theory Prelude
  imports Main "HOL-Library.Word" "HOL-Library.List_Lexorder" "HOL-Library.Char_ord"
begin

text \<open>
  Vocabulary shared by every component: Rust's \<^verbatim>\<open>Result\<close> as a sum type with the \<^verbatim>\<open>?\<close> operator
  as \<open>res_bind\<close>, machine integers with the checked and saturating operations of the standard
  library, and byte strings. A Rust \<^verbatim>\<open>String\<close> is the list of its UTF-8 bytes, so that \<^const>\<open>length\<close>
  is \<^verbatim>\<open>str::len\<close> and the list order is the order of \<^verbatim>\<open>Ord for str\<close>. Collection sizes
  (\<^verbatim>\<open>usize\<close>) are natural numbers; every conversion to a machine width is written out.

  Two collections of facts carry the component proofs: \<open>res_simps\<close> decides when a chain of
  fallible steps succeeds, and \<open>num_simps\<close> turns checked arithmetic into equations on
  natural numbers.
\<close>

named_theorems res_simps "when a chain of fallible steps succeeds"
named_theorems num_simps "checked arithmetic as equations over the natural numbers"

type_synonym u8 = "8 word"
type_synonym u32 = "32 word"
type_synonym u64 = "64 word"
type_synonym ('e, 'a) result = "'e + 'a"

subsection \<open>Results\<close>

definition res_bind :: "('e, 'a) result \<Rightarrow> ('a \<Rightarrow> ('e, 'b) result) \<Rightarrow> ('e, 'b) result" where
  "res_bind m f = (case m of Inl e \<Rightarrow> Inl e | Inr x \<Rightarrow> f x)"

definition ok_or :: "'a option \<Rightarrow> 'e \<Rightarrow> ('e, 'a) result" where
  "ok_or x e = (case x of None \<Rightarrow> Inl e | Some v \<Rightarrow> Inr v)"

text \<open>\<^verbatim>\<open>if c { return Err(e) }\<close> as a step, and a block of \<^verbatim>\<open>?\<close> statements ending in \<^verbatim>\<open>Ok(())\<close>.\<close>

definition fail_if :: "bool \<Rightarrow> 'e \<Rightarrow> ('e, unit) result" where
  "fail_if c e = (if c then Inl e else Inr ())"

fun seq_checks :: "('e, unit) result list \<Rightarrow> ('e, unit) result" where
  "seq_checks [] = Inr ()"
| "seq_checks (c # cs) = (case c of Inl e \<Rightarrow> Inl e | Inr _ \<Rightarrow> seq_checks cs)"

text \<open>
  A disjunction whose operands may fail, evaluated from the left and cut short at the first true
  one, as \<^verbatim>\<open>a()? || b()?\<close> is.
\<close>

fun any_of :: "('e, bool) result list \<Rightarrow> ('e, bool) result" where
  "any_of [] = Inr False"
| "any_of (r # rs) = (case r of Inl e \<Rightarrow> Inl e | Inr b \<Rightarrow> if b then Inr True else any_of rs)"

definition fail_when :: "('e, bool) result \<Rightarrow> 'e \<Rightarrow> ('e, unit) result" where
  "fail_when r e = res_bind r (\<lambda>b. fail_if b e)"

definition map_err :: "('d \<Rightarrow> 'e) \<Rightarrow> ('d, 'a) result \<Rightarrow> ('e, 'a) result" where
  "map_err f m = (case m of Inl e \<Rightarrow> Inl (f e) | Inr x \<Rightarrow> Inr x)"

definition is_ok :: "('e, 'a) result \<Rightarrow> bool" where
  "is_ok m = (case m of Inl _ \<Rightarrow> False | Inr _ \<Rightarrow> True)"

lemma res_bind_simps [simp]:
  "res_bind (Inl e) f = Inl e"
  "res_bind (Inr x) f = f x"
  by (simp_all add: res_bind_def)

lemma res_bind_ok [res_simps]:
  "res_bind m f = Inr y \<longleftrightarrow> (\<exists>x. m = Inr x \<and> f x = Inr y)"
  by (cases m) auto

lemma ok_or_simps [simp]:
  "ok_or None e = Inl e"
  "ok_or (Some v) e = Inr v"
  by (simp_all add: ok_or_def)

lemma ok_or_ok [res_simps]: "ok_or x e = Inr v \<longleftrightarrow> x = Some v"
  by (cases x) auto

lemma ok_or_err [res_simps]: "ok_or x e = Inl e' \<longleftrightarrow> x = None \<and> e' = e"
  by (cases x) auto

lemma fail_if_simps [simp]:
  "fail_if True e = Inl e"
  "fail_if False e = Inr ()"
  by (simp_all add: fail_if_def)

lemma any_of_False [res_simps]: "any_of rs = Inr False \<longleftrightarrow> list_all (\<lambda>r. r = Inr False) rs"
  by (induction rs) (auto split: sum.splits)

lemma any_of_step [simp]:
  "any_of (Inl e # rs) = Inl e"
  "any_of (Inr True # rs) = Inr True"
  "any_of (Inr False # rs) = any_of rs"
  by simp_all

declare any_of.simps(2) [simp del]

lemma fail_when_ok [res_simps]: "fail_when r e = Inr u \<longleftrightarrow> r = Inr False"
  by (auto simp: fail_when_def fail_if_def res_bind_def split: sum.splits)

lemma map_err_simps [simp]:
  "map_err f (Inl e) = Inl (f e)"
  "map_err f (Inr x) = Inr x"
  by (simp_all add: map_err_def)

lemma map_err_ok [res_simps]: "map_err f m = Inr x \<longleftrightarrow> m = Inr x"
  by (cases m) auto

lemma fail_if_ok [res_simps]: "fail_if c e = Inr u \<longleftrightarrow> \<not> c"
  by (simp add: fail_if_def)

lemma fail_if_err [res_simps]: "fail_if c e = Inl e' \<longleftrightarrow> c \<and> e' = e"
  by (auto simp: fail_if_def)

lemma seq_checks_step [simp]:
  "seq_checks (Inl e # cs) = Inl e"
  "seq_checks (Inr u # cs) = seq_checks cs"
  by simp_all

declare seq_checks.simps(2) [simp del]

lemma seq_checks_ok [res_simps]:
  "seq_checks cs = Inr u \<longleftrightarrow> list_all (\<lambda>c. c = Inr ()) cs"
  by (induction cs) (auto simp: seq_checks.simps(2) split: sum.splits)

lemma seq_checks_err:
  "seq_checks cs = Inl e \<Longrightarrow> Inl e \<in> set cs"
  by (induction cs) (auto simp: seq_checks.simps(2) split: sum.splits)

lemma seq_checks_map_ok:
  "seq_checks (map f xs) = Inr u \<longleftrightarrow> (\<forall>x\<in>set xs. f x = Inr ())"
  by (simp add: seq_checks_ok list_all_iff)

lemma is_ok_simps [simp]:
  "is_ok (Inl e) \<longleftrightarrow> False"
  "is_ok (Inr x) \<longleftrightarrow> True"
  by (simp_all add: is_ok_def)

lemma is_ok_iff [res_simps]: "is_ok m \<longleftrightarrow> (\<exists>x. m = Inr x)"
  by (cases m) auto

lemma result_unit_cases:
  fixes m :: "('e, unit) result"
  obtains (ok) "m = Inr ()" | (err) e where "m = Inl e"
  by (cases m) auto

subsection \<open>Machine integers\<close>

definition checked_add :: "'a::len word \<Rightarrow> 'a word \<Rightarrow> 'a word option" where
  "checked_add a b = (if unat a + unat b < 2 ^ LENGTH('a) then Some (a + b) else None)"

definition checked_sub :: "'a::len word \<Rightarrow> 'a word \<Rightarrow> 'a word option" where
  "checked_sub a b = (if b \<le> a then Some (a - b) else None)"

definition checked_mul :: "'a::len word \<Rightarrow> 'a word \<Rightarrow> 'a word option" where
  "checked_mul a b = (if unat a * unat b < 2 ^ LENGTH('a) then Some (a * b) else None)"

definition saturating_add :: "'a::len word \<Rightarrow> 'a word \<Rightarrow> 'a word" where
  "saturating_add a b = (if unat a + unat b < 2 ^ LENGTH('a) then a + b else - 1)"

definition saturating_sub :: "'a::len word \<Rightarrow> 'a word \<Rightarrow> 'a word" where
  "saturating_sub a b = (if b \<le> a then a - b else 0)"

definition saturating_mul :: "'a::len word \<Rightarrow> 'a word \<Rightarrow> 'a word" where
  "saturating_mul a b = (if unat a * unat b < 2 ^ LENGTH('a) then a * b else - 1)"

text \<open>\<^verbatim>\<open>try_from\<close> on a collection size, and the widening \<^verbatim>\<open>u64::from(u32)\<close>.\<close>

definition try_from_size :: "nat \<Rightarrow> 'a::len word option" where
  "try_from_size n = (if n < 2 ^ LENGTH('a) then Some (of_nat n) else None)"

text \<open>\<^verbatim>\<open>try_from(n).unwrap_or(MAX)\<close>\<close>

definition try_from_size_or_max :: "nat \<Rightarrow> 'a::len word" where
  "try_from_size_or_max n = (case try_from_size n of Some w \<Rightarrow> w | None \<Rightarrow> - 1)"

definition u64_from_u32 :: "u32 \<Rightarrow> u64" where
  "u64_from_u32 w = ucast w"

lemma unat_less_size: "unat (w :: 'a::len word) < 2 ^ LENGTH('a)"
  by (rule unsigned_less)

lemma unat_plus_if_fits:
  "unat a + unat b < 2 ^ LENGTH('a) \<Longrightarrow> unat (a + b) = unat a + unat (b :: 'a::len word)"
  by (simp add: unat_word_ariths)

lemma unat_times_if_fits:
  "unat a * unat b < 2 ^ LENGTH('a) \<Longrightarrow> unat (a * b) = unat a * unat (b :: 'a::len word)"
  by (simp add: unat_word_ariths)

lemma checked_add_Some [num_simps]:
  "checked_add a b = Some c \<longleftrightarrow> unat (c :: 'a::len word) = unat a + unat b"
proof
  assume "checked_add a b = Some c"
  then show "unat c = unat a + unat b"
    by (auto simp: checked_add_def unat_plus_if_fits split: if_splits)
next
  assume *: "unat c = unat a + unat b"
  have fits: "unat a + unat b < 2 ^ LENGTH('a)"
    using unat_less_size [of c] * by simp
  then have "c = a + b"
    using * by (intro word_unat_eq_iff [THEN iffD2]) (simp add: unat_plus_if_fits)
  with fits show "checked_add a b = Some c"
    by (simp add: checked_add_def)
qed

lemma checked_add_None [num_simps]:
  "checked_add a b = None \<longleftrightarrow> 2 ^ LENGTH('a) \<le> unat (a :: 'a::len word) + unat b"
  by (simp add: checked_add_def not_less)

lemma checked_sub_Some [num_simps]:
  "checked_sub a b = Some c \<longleftrightarrow> unat (a :: 'a::len word) = unat b + unat c"
proof
  assume "checked_sub a b = Some c"
  then have "b \<le> a" "c = a - b"
    by (auto simp: checked_sub_def split: if_splits)
  then show "unat a = unat b + unat c"
    by (simp add: unat_sub word_le_nat_alt)
next
  assume *: "unat a = unat b + unat c"
  then have le: "b \<le> a"
    by (simp add: word_le_nat_alt)
  then have "c = a - b"
    using * by (intro word_unat_eq_iff [THEN iffD2]) (simp add: unat_sub)
  with le show "checked_sub a b = Some c"
    by (simp add: checked_sub_def)
qed

lemma checked_sub_None [num_simps]:
  "checked_sub a b = None \<longleftrightarrow> unat (a :: 'a::len word) < unat b"
  by (simp add: checked_sub_def word_le_nat_alt not_le)

lemma checked_mul_Some [num_simps]:
  "checked_mul a b = Some c \<longleftrightarrow> unat (c :: 'a::len word) = unat a * unat b"
proof
  assume "checked_mul a b = Some c"
  then show "unat c = unat a * unat b"
    by (auto simp: checked_mul_def unat_times_if_fits split: if_splits)
next
  assume *: "unat c = unat a * unat b"
  have fits: "unat a * unat b < 2 ^ LENGTH('a)"
    using unat_less_size [of c] * by simp
  then have "c = a * b"
    using * by (intro word_unat_eq_iff [THEN iffD2]) (simp add: unat_times_if_fits)
  with fits show "checked_mul a b = Some c"
    by (simp add: checked_mul_def)
qed

lemma unat_minus_one_max: "unat (- 1 :: 'a::len word) = 2 ^ LENGTH('a) - 1"
  by (simp add: unsigned_minus_1_eq_mask mask_eq_exp_minus_1)

lemma unat_saturating_add:
  "unat (saturating_add a b :: 'a::len word) = min (unat a + unat b) (2 ^ LENGTH('a) - 1)"
  by (auto simp: saturating_add_def unat_plus_if_fits unat_minus_one_max min_def)

lemma unat_saturating_sub:
  "unat (saturating_sub a b :: 'a::len word) = unat a - unat b"
  by (auto simp: saturating_sub_def unat_sub word_le_nat_alt)

lemma unat_saturating_mul:
  "unat (saturating_mul a b :: 'a::len word) = min (unat a * unat b) (2 ^ LENGTH('a) - 1)"
proof (cases "unat a * unat b < 2 ^ LENGTH('a)")
  case True
  then have "min (unat a * unat b) (2 ^ LENGTH('a) - 1) = unat a * unat b"
    by linarith
  with True show ?thesis
    by (simp add: saturating_mul_def unat_times_if_fits)
next
  case False
  then have "min (unat a * unat b) (2 ^ LENGTH('a) - 1) = 2 ^ LENGTH('a) - 1"
    by linarith
  with False show ?thesis
    by (simp add: saturating_mul_def unat_minus_one_max)
qed

lemma try_from_size_Some [num_simps]:
  "try_from_size n = Some (w :: 'a::len word) \<longleftrightarrow> unat w = n"
proof
  assume "try_from_size n = Some w"
  then show "unat w = n"
    by (auto simp: try_from_size_def unat_of_nat take_bit_eq_mod split: if_splits)
next
  assume "unat w = n"
  then show "try_from_size n = Some w"
    using unat_less_size [of w] by (auto simp: try_from_size_def)
qed

lemma try_from_size_None [num_simps]:
  "try_from_size n = (None :: 'a::len word option) \<longleftrightarrow> 2 ^ LENGTH('a) \<le> n"
  by (simp add: try_from_size_def not_less)

lemma unat_try_from_size_or_max:
  "unat (try_from_size_or_max n :: 'a::len word) = min n (2 ^ LENGTH('a) - 1)"
proof (cases "try_from_size n :: 'a word option")
  case None
  then have "2 ^ LENGTH('a) \<le> n"
    by (simp add: try_from_size_None)
  then have "min n (2 ^ LENGTH('a) - 1) = 2 ^ LENGTH('a) - 1"
    by simp
  with None show ?thesis
    by (simp add: try_from_size_or_max_def unsigned_minus_1_eq_mask mask_eq_exp_minus_1)
next
  case (Some w)
  then have "unat w = n" "n < 2 ^ LENGTH('a)"
    using unat_less_size [of w] by (auto simp: try_from_size_Some)
  with Some show ?thesis
    by (simp add: try_from_size_or_max_def)
qed

lemma unat_u64_from_u32 [simp]: "unat (u64_from_u32 w) = unat w"
  using unat_less_size [of w]
  by (simp add: u64_from_u32_def unsigned_ucast_eq take_bit_nat_eq_self)

lemma word_le_unat: "a \<le> b \<longleftrightarrow> unat (a :: 'a::len word) \<le> unat b"
  by (rule word_le_nat_alt)

lemma word_less_unat: "a < b \<longleftrightarrow> unat (a :: 'a::len word) < unat b"
  by (rule word_less_nat_alt)

lemma word_eq_unat: "a = b \<longleftrightarrow> unat (a :: 'a::len word) = unat b"
  by (rule word_unat_eq_iff)

lemma unat_eq_0_iff: "unat (a :: 'a::len word) = 0 \<longleftrightarrow> a = 0"
  by (rule unat_eq_zero)

lemmas word_unat = word_le_unat word_less_unat word_eq_unat

subsection \<open>Strings\<close>

definition strip_prefix :: "'a list \<Rightarrow> 'a list \<Rightarrow> 'a list option" where
  "strip_prefix p s = (if take (length p) s = p then Some (drop (length p) s) else None)"

definition strip_suffix :: "'a list \<Rightarrow> 'a list \<Rightarrow> 'a list option" where
  "strip_suffix p s =
     (if length p \<le> length s \<and> drop (length s - length p) s = p
      then Some (take (length s - length p) s) else None)"

lemma strip_prefix_Some: "strip_prefix p s = Some r \<longleftrightarrow> s = p @ r"
  by (auto simp: strip_prefix_def) (metis append_take_drop_id)

lemma strip_suffix_Some: "strip_suffix p s = Some r \<longleftrightarrow> s = r @ p"
proof
  assume "strip_suffix p s = Some r"
  then have "drop (length s - length p) s = p" "r = take (length s - length p) s"
    by (auto simp: strip_suffix_def split: if_splits)
  then show "s = r @ p"
    by (metis append_take_drop_id)
next
  assume "s = r @ p"
  then show "strip_suffix p s = Some r"
    by (simp add: strip_suffix_def)
qed

end
