(* ===== verification/BTree.thy ===== *)
theory BTree
  imports Prelude
begin

text \<open>
  \<^verbatim>\<open>std::collections::BTreeMap\<close> and \<^verbatim>\<open>BTreeSet\<close>: finite maps whose iteration order is the order
  of the keys. A map is an association list with strictly increasing keys, behind an abstract type,
  so two maps are equal exactly when they hold the same entries (Rust's \<^verbatim>\<open>PartialEq\<close>) and the
  entry list is what \<^verbatim>\<open>iter()\<close> yields. A set is a map to \<^typ>\<open>unit\<close>, as in the standard library.

  The locale \<open>keyed_store\<close> is the interface the ledgers and the scheduler rely on, with the one
  argument they share: a secondary index that holds an entry for every record it must cover, and
  has no more entries than there are such records, holds nothing else.
\<close>

subsection \<open>Association lists with increasing keys\<close>

fun al_insert :: "'k::linorder \<Rightarrow> 'v \<Rightarrow> ('k \<times> 'v) list \<Rightarrow> ('k \<times> 'v) list" where
  "al_insert k v [] = [(k, v)]"
| "al_insert k v ((j, w) # xs) =
     (if k = j then (k, v) # xs
      else if k < j then (k, v) # (j, w) # xs
      else (j, w) # al_insert k v xs)"

definition al_remove :: "'k \<Rightarrow> ('k \<times> 'v) list \<Rightarrow> ('k \<times> 'v) list" where
  "al_remove k xs = filter (\<lambda>e. fst e \<noteq> k) xs"

lemma set_keys_al_insert: "fst ` set (al_insert k v xs) = insert k (fst ` set xs)"
  by (induction k v xs rule: al_insert.induct) auto

lemma sorted_al_insert:
  "sorted_wrt (<) (map fst xs) \<Longrightarrow> sorted_wrt (<) (map fst (al_insert k v xs))"
proof (induction k v xs rule: al_insert.induct)
  case (2 k v j w xs)
  then show ?case
    using set_keys_al_insert [of k v xs] by (auto simp: less_trans)
qed simp

lemma map_of_al_insert: "map_of (al_insert k v xs) = (map_of xs)(k \<mapsto> v)"
  by (induction k v xs rule: al_insert.induct) auto

lemma map_of_al_remove: "map_of (al_remove k xs) = (map_of xs)(k := None)"
  by (induction xs) (auto simp: al_remove_def)

lemma sorted_al_remove:
  "sorted_wrt (<) (map fst xs) \<Longrightarrow> sorted_wrt (<) (map fst (al_remove k xs))"
  by (induction xs) (auto simp: al_remove_def)

lemma sorted_keys_distinct:
  "sorted_wrt (<) (map fst xs) \<Longrightarrow> distinct (map fst (xs :: ('k::linorder \<times> 'v) list))"
  by (simp add: strict_sorted_iff)

lemma sorted_map_of_inject:
  fixes xs ys :: "('k::linorder \<times> 'v) list"
  assumes "sorted_wrt (<) (map fst xs)" "sorted_wrt (<) (map fst ys)" "map_of xs = map_of ys"
  shows "xs = ys"
proof -
  have "set xs = set ys"
    using assms by (metis map_of_inject_set sorted_keys_distinct)
  moreover from this have "map fst xs = map fst ys"
    using assms(1,2) by (intro strict_sorted_equal) auto
  ultimately show ?thesis
    using assms(1) by (metis distinct_map inj_on_Un_image_eq_iff map_inj_on sorted_keys_distinct
        sup.idem)
qed

subsection \<open>Ordered maps\<close>

typedef (overloaded) ('k, 'v) btree =
  "{xs :: ('k::linorder \<times> 'v) list. sorted_wrt (<) (map fst xs)}"
  morphisms bt_entries Btree
proof
  show "[] \<in> {xs :: ('k \<times> 'v) list. sorted_wrt (<) (map fst xs)}"
    by simp
qed

setup_lifting type_definition_btree

lift_definition bt_empty :: "('k::linorder, 'v) btree" is "[]"
  by simp

lift_definition bt_get :: "('k::linorder, 'v) btree \<Rightarrow> 'k \<Rightarrow> 'v option" is map_of .

lift_definition bt_insert :: "'k::linorder \<Rightarrow> 'v \<Rightarrow> ('k, 'v) btree \<Rightarrow> ('k, 'v) btree"
  is al_insert
  by (rule sorted_al_insert)

lift_definition bt_remove :: "'k::linorder \<Rightarrow> ('k, 'v) btree \<Rightarrow> ('k, 'v) btree"
  is al_remove
  by (rule sorted_al_remove)

text \<open>\<^verbatim>\<open>values_mut\<close>: every value rewritten in place.\<close>

lift_definition bt_map_values :: "('v \<Rightarrow> 'w) \<Rightarrow> ('k::linorder, 'v) btree \<Rightarrow> ('k, 'w) btree"
  is "\<lambda>f. map (\<lambda>(k, v). (k, f v))"
  by (simp add: comp_def split_beta)

definition bt_len :: "('k::linorder, 'v) btree \<Rightarrow> nat" where
  "bt_len m = length (bt_entries m)"

definition bt_keys :: "('k::linorder, 'v) btree \<Rightarrow> 'k list" where
  "bt_keys m = map fst (bt_entries m)"

definition bt_values :: "('k::linorder, 'v) btree \<Rightarrow> 'v list" where
  "bt_values m = map snd (bt_entries m)"

definition bt_contains_key :: "('k::linorder, 'v) btree \<Rightarrow> 'k \<Rightarrow> bool" where
  "bt_contains_key m k = (case bt_get m k of None \<Rightarrow> False | Some _ \<Rightarrow> True)"

instantiation btree :: (linorder, equal) equal
begin

definition equal_btree :: "('a, 'b) btree \<Rightarrow> ('a, 'b) btree \<Rightarrow> bool" where
  "equal_btree m n \<longleftrightarrow> bt_entries m = bt_entries n"

instance
  by standard (simp add: equal_btree_def bt_entries_inject)

end

subsection \<open>Laws\<close>

lemma bt_entries_empty [simp]: "bt_entries bt_empty = []"
  by transfer simp

lemma bt_entries_insert [simp]: "bt_entries (bt_insert k v m) = al_insert k v (bt_entries m)"
  by transfer simp

lemma bt_entries_remove: "bt_entries (bt_remove k m) = al_remove k (bt_entries m)"
  by transfer simp

lemma bt_get_empty [simp]: "bt_get bt_empty k = None"
  by transfer simp

lemma bt_get_insert [simp]: "bt_get (bt_insert k v m) j = (if j = k then Some v else bt_get m j)"
  by transfer (simp add: map_of_al_insert)

lemma bt_get_remove [simp]: "bt_get (bt_remove k m) j = (if j = k then None else bt_get m j)"
  by transfer (simp add: map_of_al_remove)

lemma bt_get_map_values [simp]: "bt_get (bt_map_values f m) k = map_option f (bt_get m k)"
  by transfer (simp add: map_of_map)

lemma bt_contains_key_iff [simp]: "bt_contains_key m k \<longleftrightarrow> bt_get m k \<noteq> None"
  by (simp add: bt_contains_key_def split: option.split)

lemma bt_entries_sorted: "sorted_wrt (<) (map fst (bt_entries m))"
  using bt_entries [of m] by simp

lemma bt_entries_distinct: "distinct (map fst (bt_entries m))"
  by (rule sorted_keys_distinct) (rule bt_entries_sorted)

lemma bt_get_entries: "bt_get m k = Some v \<longleftrightarrow> (k, v) \<in> set (bt_entries m)"
  by (simp add: bt_get.rep_eq bt_entries_distinct)

lemma btree_eqI:
  assumes "\<And>k. bt_get m k = bt_get n k"
  shows "m = n"
proof -
  have "map_of (bt_entries m) = map_of (bt_entries n)"
    using assms by (auto simp: bt_get.rep_eq)
  then show ?thesis
    by (metis bt_entries_inject bt_entries_sorted sorted_map_of_inject)
qed

definition bt_dom :: "('k::linorder, 'v) btree \<Rightarrow> 'k set" where
  "bt_dom m = fst ` set (bt_entries m)"

lemma bt_dom_iff: "k \<in> bt_dom m \<longleftrightarrow> bt_get m k \<noteq> None"
  by (force simp: bt_dom_def bt_get_entries)

lemma bt_dom_finite [simp]: "finite (bt_dom m)"
  by (simp add: bt_dom_def)

lemma bt_dom_insert [simp]: "bt_dom (bt_insert k v m) = insert k (bt_dom m)"
  by (auto simp: bt_dom_iff split: if_splits)

lemma bt_dom_remove [simp]: "bt_dom (bt_remove k m) = bt_dom m - {k}"
  by (auto simp: bt_dom_iff split: if_splits)

lemma bt_dom_empty [simp]: "bt_dom bt_empty = {}"
  by (simp add: bt_dom_def)

lemma bt_keys_set: "set (bt_keys m) = bt_dom m"
  by (simp add: bt_keys_def bt_dom_def)

lemma bt_keys_distinct: "distinct (bt_keys m)"
  by (simp add: bt_keys_def bt_entries_distinct)

lemma bt_values_set: "v \<in> set (bt_values m) \<longleftrightarrow> (\<exists>k. bt_get m k = Some v)"
  by (force simp: bt_values_def bt_get_entries)

lemma bt_len_card: "bt_len m = card (bt_dom m)"
  by (metis bt_keys_def bt_keys_distinct bt_keys_set bt_len_def distinct_card length_map)

lemma bt_len_empty [simp]: "bt_len bt_empty = 0"
  by (simp add: bt_len_def)

lemma bt_len_insert:
  "bt_len (bt_insert k v m) = (if bt_get m k = None then Suc (bt_len m) else bt_len m)"
  by (simp add: bt_len_card card_insert_if bt_dom_iff)

lemma bt_len_0_iff: "bt_len m = 0 \<longleftrightarrow> m = bt_empty"
  by (metis bt_entries_empty bt_entries_inject bt_len_def length_0_conv)

text \<open>Sums and counts over the entries, as they change under \<^const>\<open>bt_insert\<close>.\<close>

definition bt_sum :: "('v \<Rightarrow> nat) \<Rightarrow> ('k::linorder, 'v) btree \<Rightarrow> nat" where
  "bt_sum f m = sum_list (map f (bt_values m))"

lemma bt_sum_dom: "bt_sum f m = (\<Sum>k\<in>bt_dom m. f (the (bt_get m k)))"
proof -
  have "map f (bt_values m) = map (\<lambda>k. f (the (bt_get m k))) (bt_keys m)"
    by (auto simp: bt_values_def bt_keys_def bt_get.rep_eq bt_entries_distinct)
  then have "bt_sum f m = sum_list (map (\<lambda>k. f (the (bt_get m k))) (bt_keys m))"
    by (simp add: bt_sum_def)
  also have "\<dots> = (\<Sum>k\<in>set (bt_keys m). f (the (bt_get m k)))"
    by (rule sum_list_distinct_conv_sum_set) (rule bt_keys_distinct)
  finally show ?thesis
    by (simp add: bt_keys_set)
qed

lemma bt_sum_empty [simp]: "bt_sum f bt_empty = 0"
  by (simp add: bt_sum_def bt_values_def)

lemma bt_sum_insert_split:
  "bt_sum f (bt_insert k v m) = f v + (\<Sum>j\<in>bt_dom m - {k}. f (the (bt_get m j)))"
proof -
  have "bt_sum f (bt_insert k v m) =
      f v + (\<Sum>j\<in>bt_dom m - {k}. f (the (bt_get (bt_insert k v m) j)))"
    by (simp add: bt_sum_dom sum.insert_remove)
  also have "(\<Sum>j\<in>bt_dom m - {k}. f (the (bt_get (bt_insert k v m) j))) =
      (\<Sum>j\<in>bt_dom m - {k}. f (the (bt_get m j)))"
    by (intro sum.cong) auto
  finally show ?thesis .
qed

lemma bt_sum_insert_fresh:
  "bt_get m k = None \<Longrightarrow> bt_sum f (bt_insert k v m) = f v + bt_sum f m"
  by (simp add: bt_sum_insert_split) (simp add: bt_sum_dom bt_dom_iff)

lemma bt_sum_update:
  assumes "bt_get m k = Some u"
  shows "bt_sum f (bt_insert k v m) + f u = bt_sum f m + f v"
proof -
  have "k \<in> bt_dom m"
    using assms by (simp add: bt_dom_iff)
  then have "bt_sum f m = f u + (\<Sum>j\<in>bt_dom m - {k}. f (the (bt_get m j)))"
    using assms by (simp add: bt_sum_dom sum.remove)
  then show ?thesis
    by (simp add: bt_sum_insert_split)
qed

lemma bt_sum_member: "bt_get m k = Some v \<Longrightarrow> f v \<le> bt_sum f m"
  using bt_sum_update [of m k v f v] bt_sum_insert_split [of f k v m] by simp

lemma bt_sum_mono:
  "(\<And>v. v \<in> set (bt_values m) \<Longrightarrow> f v \<le> g v) \<Longrightarrow> bt_sum f m \<le> bt_sum g m"
  by (simp add: bt_sum_def sum_list_mono)

lemma bt_len_sum: "bt_len m = bt_sum (\<lambda>_. 1) m"
  by (simp add: bt_len_card bt_sum_dom)

subsection \<open>Ordered sets\<close>

type_synonym 'a bset = "('a, unit) btree"

definition bs_mem :: "'a::linorder \<Rightarrow> 'a bset \<Rightarrow> bool" where
  "bs_mem x s = bt_contains_key s x"

definition bs_insert :: "'a::linorder \<Rightarrow> 'a bset \<Rightarrow> 'a bset" where
  "bs_insert x s = bt_insert x () s"

definition bs_of_list :: "'a::linorder list \<Rightarrow> 'a bset" where
  "bs_of_list xs = foldr bs_insert xs bt_empty"

definition bs_subset :: "'a::linorder bset \<Rightarrow> 'a bset \<Rightarrow> bool" where
  "bs_subset s t = list_all (\<lambda>x. bs_mem x t) (bt_keys s)"

lemma bs_mem_iff: "bs_mem x s \<longleftrightarrow> x \<in> bt_dom s"
  by (simp add: bs_mem_def bt_dom_iff)

lemma bs_mem_insert [simp]: "bs_mem x (bs_insert y s) \<longleftrightarrow> x = y \<or> bs_mem x s"
  by (simp add: bs_mem_def bs_insert_def)

lemma bs_mem_empty [simp]: "\<not> bs_mem x bt_empty"
  by (simp add: bs_mem_def)

lemma bs_mem_of_list [simp]: "bs_mem x (bs_of_list xs) \<longleftrightarrow> x \<in> set xs"
  by (induction xs) (simp_all add: bs_of_list_def)

lemma bs_subset_iff: "bs_subset s t \<longleftrightarrow> bt_dom s \<subseteq> bt_dom t"
  by (auto simp: bs_subset_def list_all_iff bt_keys_set bs_mem_iff)

lemma bs_subset_refl [simp]: "bs_subset s s"
  by (simp add: bs_subset_iff)

lemma bs_subset_trans: "bs_subset s t \<Longrightarrow> bs_subset t u \<Longrightarrow> bs_subset s u"
  by (auto simp: bs_subset_iff)

lemma bs_singleton:
  assumes "bt_len s = 1" "bs_mem x s"
  shows "s = bs_of_list [x]"
proof (rule btree_eqI)
  fix k
  have "card (bt_dom s) = 1" "x \<in> bt_dom s"
    using assms by (simp_all add: bt_len_card bs_mem_iff)
  then have "bt_dom s = {x}"
    by (auto simp: card_1_singleton_iff)
  then have "k \<in> bt_dom s \<longleftrightarrow> k = x" by simp
  then show "bt_get s k = bt_get (bs_of_list [x]) k"
    by (cases "bt_get s k") (auto simp: bt_dom_iff bs_of_list_def bs_insert_def)
qed

lemma bs_subsetD: "bs_subset s t \<Longrightarrow> bs_mem x s \<Longrightarrow> bs_mem x t"
  by (auto simp: bs_subset_iff bs_mem_iff)

subsection \<open>The interface and the index argument\<close>

locale keyed_store =
  fixes lookup :: "'m \<Rightarrow> 'k \<Rightarrow> 'v option"
    and store :: "'k \<Rightarrow> 'v \<Rightarrow> 'm \<Rightarrow> 'm"
    and discard :: "'k \<Rightarrow> 'm \<Rightarrow> 'm"
    and cardinality :: "'m \<Rightarrow> nat"
  assumes lookup_store: "lookup (store k v m) j = (if j = k then Some v else lookup m j)"
    and lookup_discard: "lookup (discard k m) j = (if j = k then None else lookup m j)"
    and finite_keys: "finite {k. lookup m k \<noteq> None}"
    and cardinality_keys: "cardinality m = card {k. lookup m k \<noteq> None}"
begin

lemma cardinality_store_fresh:
  assumes "lookup m k = None"
  shows "cardinality (store k v m) = Suc (cardinality m)"
proof -
  have "{j. lookup (store k v m) j \<noteq> None} = insert k {j. lookup m j \<noteq> None}"
    by (auto simp: lookup_store)
  moreover have "k \<notin> {j. lookup m j \<noteq> None}"
    using assms by simp
  ultimately show ?thesis
    using finite_keys [of m] by (simp add: cardinality_keys card_insert_disjoint)
qed

lemma index_exact:
  assumes finite: "finite D"
    and covers: "\<And>x. x \<in> D \<Longrightarrow> lookup ix (key x) = Some (entry x)"
    and faithful: "inj_on entry D"
    and size: "cardinality ix \<le> card D"
    and found: "lookup ix j = Some e"
  shows "\<exists>x\<in>D. key x = j \<and> entry x = e"
proof -
  let ?K = "{k. lookup ix k \<noteq> None}"
  have "inj_on key D"
    using covers faithful by (intro inj_onI) (metis inj_onD option.inject)
  then have "card (key ` D) = card D"
    by (rule card_image)
  moreover have "key ` D \<subseteq> ?K"
    using covers by auto
  ultimately have image: "key ` D = ?K"
    using size finite_keys [of ix] by (simp add: card_seteq cardinality_keys)
  have "j \<in> key ` D"
    unfolding image using found by simp
  then obtain x where "x \<in> D" "key x = j"
    by (rule imageE) simp
  then show ?thesis
    using covers found by force
qed

end

interpretation bt: keyed_store bt_get bt_insert bt_remove bt_len
proof
  show "finite {k. bt_get m k \<noteq> None}" for m :: "('a, 'b) btree"
    using bt_dom_finite [of m] by (simp only: bt_dom_iff [symmetric] Collect_mem_eq)
  show "bt_len m = card {k. bt_get m k \<noteq> None}" for m :: "('a, 'b) btree"
    by (simp only: bt_len_card bt_dom_iff [symmetric] Collect_mem_eq)
qed simp_all

end
