(* ===== verification/Model_Primitives.thy ===== *)
theory Model_Primitives
  imports BTree
begin

text \<open>
  The primitives of \<^verbatim>\<open>crates/model\<close>: algorithm-qualified content digests, durations, byte sizes and
  repository-relative paths. \<^verbatim>\<open>Sha256::digest\<close> and \<^verbatim>\<open>hex::encode\<close> belong to other packages, so
  they are arguments of \<open>sha256\<close>. \<^verbatim>\<open>str::parse::<u64>\<close> and \<^verbatim>\<open>Path::components\<close> are the standard
  library's, modelled as it documents them for Unix paths.
\<close>

datatype ModelError =
    UnsupportedDigestAlgorithm
  | InvalidDigest
  | InvalidDuration string
  | InvalidSize string
  | UnsafePath string

subsection \<open>Content digests\<close>

datatype ContentDigest = ContentDigest (as_str: string)

instantiation ContentDigest :: linorder
begin

definition less_eq_ContentDigest :: "ContentDigest \<Rightarrow> ContentDigest \<Rightarrow> bool" where
  "less_eq_ContentDigest a b \<longleftrightarrow> as_str a \<le> as_str b"

definition less_ContentDigest :: "ContentDigest \<Rightarrow> ContentDigest \<Rightarrow> bool" where
  "less_ContentDigest a b \<longleftrightarrow> as_str a < as_str b"

instance
proof
  fix a b c :: ContentDigest
  show "a < b \<longleftrightarrow> a \<le> b \<and> \<not> b \<le> a"
    unfolding less_eq_ContentDigest_def less_ContentDigest_def by (rule less_le_not_le)
  show "a \<le> a"
    by (simp add: less_eq_ContentDigest_def)
  show "a \<le> b \<Longrightarrow> b \<le> c \<Longrightarrow> a \<le> c"
    unfolding less_eq_ContentDigest_def by (rule order_trans)
  show "a \<le> b \<Longrightarrow> b \<le> a \<Longrightarrow> a = b"
    unfolding less_eq_ContentDigest_def by (intro ContentDigest.expand order.antisym)
  show "a \<le> b \<or> b \<le> a"
    unfolding less_eq_ContentDigest_def by (rule linear)
qed

end

definition is_lower_hex :: "char \<Rightarrow> bool" where
  "is_lower_hex c \<longleftrightarrow>
     (CHR ''0'' \<le> c \<and> c \<le> CHR ''9'') \<or> (CHR ''a'' \<le> c \<and> c \<le> CHR ''f'')"

definition sha256 :: "(u8 list \<Rightarrow> u8 list) \<Rightarrow> (u8 list \<Rightarrow> string) \<Rightarrow> u8 list \<Rightarrow> ContentDigest" where
  "sha256 sha hex_encode bytes = ContentDigest (''sha256:'' @ hex_encode (sha bytes))"

definition digest_parse :: "string \<Rightarrow> (ModelError, ContentDigest) result" where
  "digest_parse s =
     (case strip_prefix ''sha256:'' s of
        None \<Rightarrow> Inl UnsupportedDigestAlgorithm
      | Some encoded \<Rightarrow>
          if length encoded \<noteq> 64 \<or> \<not> list_all is_lower_hex encoded then Inl InvalidDigest
          else Inr (ContentDigest s))"

lemma digest_parse_ok:
  "digest_parse s = Inr d \<longleftrightarrow>
     d = ContentDigest s \<and>
     (\<exists>h. s = ''sha256:'' @ h \<and> length h = 64 \<and> list_all is_lower_hex h)"
  by (auto simp: digest_parse_def strip_prefix_Some split: option.splits if_splits)
    (auto simp: strip_prefix_def)

subsection \<open>Unsigned decimal numbers\<close>

definition digit_value :: "char \<Rightarrow> u64 option" where
  "digit_value c =
     (if CHR ''0'' \<le> c \<and> c \<le> CHR ''9'' then Some (of_nat (of_char c - 48)) else None)"

fun parse_digits :: "u64 \<Rightarrow> string \<Rightarrow> u64 option" where
  "parse_digits acc [] = Some acc"
| "parse_digits acc (c # cs) =
     (case digit_value c of
        None \<Rightarrow> None
      | Some d \<Rightarrow>
          (case checked_mul acc 10 of
             None \<Rightarrow> None
           | Some shifted \<Rightarrow>
               (case checked_add shifted d of
                  None \<Rightarrow> None
                | Some acc' \<Rightarrow> parse_digits acc' cs)))"

text \<open>\<^verbatim>\<open>str::parse::<u64>\<close>: an optional plus sign, then at least one digit, without overflow.\<close>

definition parse_u64 :: "string \<Rightarrow> u64 option" where
  "parse_u64 s =
     (let body = (case s of [] \<Rightarrow> [] | c # cs \<Rightarrow> if c = CHR ''+'' then cs else c # cs)
      in if body = [] then None else parse_digits 0 body)"

text \<open>What the digits denote, with no bound.\<close>

fun decimal :: "nat \<Rightarrow> string \<Rightarrow> nat" where
  "decimal acc [] = acc"
| "decimal acc (c # cs) = decimal (acc * 10 + (of_char c - 48)) cs"

definition is_decimal :: "string \<Rightarrow> bool" where
  "is_decimal s \<longleftrightarrow> list_all (\<lambda>c. CHR ''0'' \<le> c \<and> c \<le> CHR ''9'') s"

lemma decimal_mono: "acc \<le> decimal acc cs"
proof (induction cs arbitrary: acc)
  case (Cons c cs)
  have "acc \<le> acc * 10 + (of_char c - 48)" by simp
  also have "\<dots> \<le> decimal (acc * 10 + (of_char c - 48)) cs" by (rule Cons.IH)
  finally show ?case by simp
qed simp

lemma digit_value_Some:
  "CHR ''0'' \<le> c \<Longrightarrow> c \<le> CHR ''9'' \<Longrightarrow>
     \<exists>d. digit_value c = Some d \<and> unat d = of_char c - 48"
  by (simp add: digit_value_def less_eq_char_def unat_of_nat take_bit_eq_mod del: of_nat_diff)

lemma digit_value_None: "\<not> (CHR ''0'' \<le> c \<and> c \<le> CHR ''9'') \<Longrightarrow> digit_value c = None"
  by (auto simp: digit_value_def)

lemma parse_digits_Some:
  "parse_digits acc cs = Some n \<longleftrightarrow> is_decimal cs \<and> unat n = decimal (unat acc) cs"
proof (induction acc cs rule: parse_digits.induct)
  case (1 acc)
  then show ?case
    by (auto simp: is_decimal_def word_eq_unat)
next
  case (2 acc c cs)
  show ?case
  proof (cases "CHR ''0'' \<le> c \<and> c \<le> CHR ''9''")
    case False
    then show ?thesis
      by (auto simp: digit_value_None is_decimal_def)
  next
    case True
    then obtain d where d: "digit_value c = Some d" "unat d = of_char c - 48"
      using digit_value_Some by blast
    have fits: "unat n = decimal (unat acc * 10 + unat d) cs \<Longrightarrow> unat acc * 10 + unat d < 2 ^ 64"
      using decimal_mono [of "unat acc * 10 + unat d" cs] unat_less_size [of n] by simp
    show ?thesis
    proof (cases "unat acc * 10 + unat d < 2 ^ 64")
      case True': True
      then obtain s where s: "checked_mul acc 10 = Some s" "unat s = unat acc * 10"
        by (auto simp: checked_mul_def unat_times_if_fits)
      moreover from True' s obtain a where "checked_add s d = Some a" "unat a = unat acc * 10 + unat d"
        by (auto simp: checked_add_def unat_plus_if_fits)
      ultimately show ?thesis
        using 2 d True by (simp add: is_decimal_def)
    next
      case False
      then have "(case checked_mul acc 10 of None \<Rightarrow> None | Some s \<Rightarrow> checked_add s d) = None"
        by (auto simp: num_simps not_less split: option.split)
      with False d fits show ?thesis
        by (auto split: option.splits)
    qed
  qed
qed

lemma parse_u64_Some:
  "parse_u64 s = Some n \<longleftrightarrow>
     (\<exists>ds. (s = ds \<or> s = CHR ''+'' # ds) \<and> ds \<noteq> [] \<and> is_decimal ds \<and> unat n = decimal 0 ds)"
proof -
  have plus: "\<not> is_decimal (CHR ''+'' # cs)" for cs
    by (simp add: is_decimal_def less_eq_char_def)
  show ?thesis
    by (cases s) (auto simp: parse_u64_def parse_digits_Some plus simp del: parse_digits.simps)
qed

text \<open>Printing a number, as \<^verbatim>\<open>format!("{}")\<close> does.\<close>

definition digit_char :: "nat \<Rightarrow> char" where
  "digit_char n = char_of (48 + n)"

fun show_nat :: "nat \<Rightarrow> string" where
  "show_nat n = (if n < 10 then [digit_char n] else show_nat (n div 10) @ [digit_char (n mod 10)])"

declare show_nat.simps [simp del]

definition show_u64 :: "u64 \<Rightarrow> string" where
  "show_u64 n = show_nat (unat n)"

lemma digit_char_value: "n < 10 \<Longrightarrow> of_char (digit_char n) = 48 + n"
  by (simp add: digit_char_def)

lemma decimal_append: "decimal acc (xs @ ys) = decimal (decimal acc xs) ys"
  by (induction xs arbitrary: acc) simp_all

lemma decimal_show: "decimal 0 (show_nat n) = n"
proof (induction n rule: show_nat.induct)
  case (1 n)
  then show ?case
    by (cases "n < 10") (simp_all add: show_nat.simps [of n] decimal_append digit_char_value)
qed

lemma is_decimal_show: "is_decimal (show_nat n)"
proof (induction n rule: show_nat.induct)
  case (1 n)
  have "is_decimal [digit_char m]" if "m < 10" for m
    using that by (simp add: is_decimal_def less_eq_char_def digit_char_value)
  with 1 show ?case
    by (cases "n < 10") (simp_all add: show_nat.simps [of n] is_decimal_def)
qed

lemma show_nat_inject: "show_nat m = show_nat n \<longleftrightarrow> m = n"
  by (metis decimal_show)

lemma show_nat_nonempty: "show_nat n \<noteq> []"
  by (simp add: show_nat.simps [of n])

lemma parse_show_u64: "parse_u64 (show_u64 n) = Some n"
  by (auto simp: parse_u64_Some show_u64_def is_decimal_show decimal_show show_nat_nonempty)

subsection \<open>Durations\<close>

definition duration_unit :: "string \<Rightarrow> (ModelError, string \<times> u64) result" where
  "duration_unit s =
     (case strip_suffix ''ms'' s of
        Some ds \<Rightarrow> Inr (ds, 1)
      | None \<Rightarrow>
          (case strip_suffix ''s'' s of
             Some ds \<Rightarrow> Inr (ds, 1000)
           | None \<Rightarrow>
               (case strip_suffix ''m'' s of
                  Some ds \<Rightarrow> Inr (ds, 60000)
                | None \<Rightarrow>
                    (case strip_suffix ''h'' s of
                       Some ds \<Rightarrow> Inr (ds, 3600000)
                     | None \<Rightarrow> Inl (InvalidDuration s)))))"

definition duration_parse :: "string \<Rightarrow> (ModelError, u64) result" where
  "duration_parse s =
     res_bind (duration_unit s) (\<lambda>(digits, multiplier).
       res_bind (ok_or (parse_u64 digits) (InvalidDuration s)) (\<lambda>amount.
         if amount = 0 then Inl (InvalidDuration s)
         else ok_or (checked_mul amount multiplier) (InvalidDuration s)))"

subsection \<open>Byte sizes\<close>

definition size_suffixes :: "(string \<times> u64) list" where
  "size_suffixes =
     [(''KiB'', 1024), (''MiB'', 1048576), (''GiB'', 1073741824), (''TiB'', 1099511627776),
      (''KB'', 1000), (''MB'', 1000000), (''GB'', 1000000000), (''B'', 1)]"

fun size_parse_with :: "string \<Rightarrow> (string \<times> u64) list \<Rightarrow> (ModelError, u64) result" where
  "size_parse_with s [] = Inl (InvalidSize s)"
| "size_parse_with s ((suffix, multiplier) # rest) =
     (case strip_suffix suffix s of
        Some digits \<Rightarrow>
          res_bind (ok_or (parse_u64 digits) (InvalidSize s)) (\<lambda>amount.
            ok_or (checked_mul amount multiplier) (InvalidSize s))
      | None \<Rightarrow> size_parse_with s rest)"

definition size_parse :: "string \<Rightarrow> (ModelError, u64) result" where
  "size_parse s = size_parse_with s size_suffixes"

subsection \<open>Relative paths\<close>

datatype path_component = RootDir | CurDir | ParentDir | Normal string

fun split_on :: "char \<Rightarrow> string \<Rightarrow> string list" where
  "split_on sep [] = [[]]"
| "split_on sep (c # cs) =
     (if c = sep then [] # split_on sep cs
      else (case split_on sep cs of
              [] \<Rightarrow> [[c]]
            | p # ps \<Rightarrow> (c # p) # ps))"

text \<open>Empty pieces and later \<^verbatim>\<open>.\<close> pieces vanish; a leading \<^verbatim>\<open>.\<close> is kept as \<^const>\<open>CurDir\<close>.\<close>

definition piece_component :: "string \<Rightarrow> path_component list" where
  "piece_component p =
     (if p = [] \<or> p = ''.'' then []
      else if p = ''..'' then [ParentDir]
      else [Normal p])"

definition path_components :: "string \<Rightarrow> path_component list" where
  "path_components s =
     (let pieces = split_on (CHR ''/'') s;
          lead = (if take 1 s = ''/'' then [RootDir]
                  else if hd pieces = ''.'' then [CurDir] else [])
      in lead @ concat (map piece_component pieces))"

fun collect_segments :: "string \<Rightarrow> path_component list \<Rightarrow> (ModelError, string list) result" where
  "collect_segments s [] = Inr []"
| "collect_segments s (Normal p # cs) = res_bind (collect_segments s cs) (\<lambda>ps. Inr (p # ps))"
| "collect_segments s (CurDir # cs) = collect_segments s cs"
| "collect_segments s (ParentDir # cs) = Inl (UnsafePath s)"
| "collect_segments s (RootDir # cs) = Inl (UnsafePath s)"

fun join_with :: "char \<Rightarrow> string list \<Rightarrow> string" where
  "join_with sep [] = []"
| "join_with sep [p] = p"
| "join_with sep (p # q # ps) = p @ sep # join_with sep (q # ps)"

definition normalize_relative_path :: "string \<Rightarrow> (ModelError, string) result" where
  "normalize_relative_path s =
     (if s = [] \<or> CHR 0x00 \<in> set s \<or> CHR 0x5C \<in> set s then Inl (UnsafePath s)
      else res_bind (collect_segments s (path_components s)) (\<lambda>segments.
        if segments = [] then Inl (UnsafePath s) else Inr (join_with (CHR ''/'') segments)))"

subsection \<open>What the parsers guarantee\<close>

lemma split_on_nonempty [simp]: "split_on sep s \<noteq> []"
  by (induction s) (auto split: list.splits)

lemma split_on_clean: "p \<in> set (split_on sep s) \<Longrightarrow> sep \<notin> set p \<and> set p \<subseteq> set s"
proof (induction s arbitrary: p)
  case (Cons c cs)
  then show ?case
    by (cases "split_on sep cs") (fastforce split: if_splits)+
qed simp

lemma split_on_append:
  "sep \<notin> set p \<Longrightarrow> split_on sep (p @ sep # s) = p # split_on sep s"
  by (induction p) auto

lemma split_on_whole: "sep \<notin> set p \<Longrightarrow> split_on sep p = [p]"
  by (induction p) auto

lemma split_join:
  "ps \<noteq> [] \<Longrightarrow> \<forall>p\<in>set ps. sep \<notin> set p \<Longrightarrow> split_on sep (join_with sep ps) = ps"
  by (induction sep ps rule: join_with.induct) (simp_all add: split_on_append split_on_whole)

lemma set_join_with: "set (join_with sep ps) \<subseteq> insert sep (\<Union> (set ` set ps))"
  by (induction sep ps rule: join_with.induct) auto

definition safe_segment :: "string \<Rightarrow> bool" where
  "safe_segment p \<longleftrightarrow>
     p \<noteq> [] \<and> p \<noteq> ''.'' \<and> p \<noteq> ''..'' \<and> CHR ''/'' \<notin> set p \<and> CHR 0x00 \<notin> set p \<and> CHR 0x5C \<notin> set p"

lemma collect_pieces:
  "collect_segments s (concat (map piece_component pieces)) = Inr ps \<Longrightarrow>
     ps = filter (\<lambda>p. p \<noteq> [] \<and> p \<noteq> ''.'') pieces \<and> ''..'' \<notin> set ps"
proof (induction pieces arbitrary: ps)
  case (Cons p pieces)
  then show ?case
    by (auto simp: piece_component_def res_simps split: if_splits)
qed simp

lemma collect_safe_pieces:
  "\<forall>p\<in>set pieces. safe_segment p \<Longrightarrow>
     collect_segments s (concat (map piece_component pieces)) = Inr pieces"
  by (induction pieces) (auto simp: piece_component_def safe_segment_def)

lemma collect_path_components:
  assumes "collect_segments s (path_components s') = Inr ps"
  shows "take 1 s' \<noteq> ''/'' \<and>
     collect_segments s (concat (map piece_component (split_on (CHR ''/'') s'))) = Inr ps"
  using assms by (auto simp: path_components_def Let_def split: if_splits)

lemma normalize_segments:
  assumes "normalize_relative_path s = Inr t"
  obtains ps where "ps \<noteq> []" "t = join_with (CHR ''/'') ps" "\<forall>p\<in>set ps. safe_segment p"
proof -
  from assms obtain ps where ps: "collect_segments s (path_components s) = Inr ps"
      "ps \<noteq> []" "t = join_with (CHR ''/'') ps" "CHR 0x00 \<notin> set s" "CHR 0x5C \<notin> set s"
    by (auto simp: normalize_relative_path_def res_simps split: if_splits)
  from collect_path_components [OF ps(1)]
  have "ps = filter (\<lambda>p. p \<noteq> [] \<and> p \<noteq> ''.'') (split_on (CHR ''/'') s) \<and> ''..'' \<notin> set ps"
    by (intro collect_pieces [of s]) simp
  then have "\<forall>p\<in>set ps. safe_segment p"
    using ps(4,5) split_on_clean [of _ "CHR ''/''" s] by (fastforce simp: safe_segment_def)
  with ps that show thesis by blast
qed

lemma join_safe_segments:
  assumes "ps \<noteq> []" "\<forall>p\<in>set ps. safe_segment p"
  shows "normalize_relative_path (join_with (CHR ''/'') ps) = Inr (join_with (CHR ''/'') ps)"
proof -
  let ?t = "join_with (CHR ''/'') ps"
  have split: "split_on (CHR ''/'') ?t = ps"
    using assms by (intro split_join) (auto simp: safe_segment_def)
  obtain p qs where ps: "ps = p # qs"
    using assms(1) by (cases ps) auto
  have p: "safe_segment p"
    using assms(2) ps by simp
  then obtain c cs where c: "p = c # cs"
    by (cases p) (auto simp: safe_segment_def)
  have lead: "take 1 ?t \<noteq> ''/''" "?t \<noteq> []"
    using p c ps by (cases qs; auto simp: safe_segment_def)+
  have "p \<noteq> ''.''"
    using p by (simp add: safe_segment_def)
  then have "path_components ?t = concat (map piece_component ps)"
    using lead split ps by (simp add: path_components_def Let_def)
  moreover have "CHR 0x00 \<notin> set ?t" "CHR 0x5C \<notin> set ?t"
    using set_join_with [of "CHR ''/''" ps] assms(2) by (auto simp: safe_segment_def)
  ultimately show ?thesis
    using lead assms collect_safe_pieces [OF assms(2)] by (simp add: normalize_relative_path_def)
qed

text \<open>
  C39: a path that \<open>normalize_relative_path\<close> accepts comes back as one or more segments joined by
  slashes, none of them empty, \<^verbatim>\<open>.\<close> or \<^verbatim>\<open>..\<close> and none holding a slash, a backslash or a NUL; so
  the result is relative, cannot climb out of the directory it is resolved in, and is its own normal
  form.
\<close>

theorem normalize_relative_path_safe:
  assumes "normalize_relative_path s = Inr t"
  shows "(\<exists>ps. ps \<noteq> [] \<and> t = join_with (CHR ''/'') ps \<and> list_all safe_segment ps) \<and>
    normalize_relative_path t = Inr t"
  using assms
proof (rule normalize_segments)
  fix ps
  assume "ps \<noteq> []" "t = join_with (CHR ''/'') ps" "\<forall>p\<in>set ps. safe_segment p"
  then show ?thesis
    using join_safe_segments by (auto simp: list_all_iff)
qed

theorem normalize_relative_path_safe_witness:
  "normalize_relative_path ''./target//report.xml'' = Inr ''target/report.xml'' \<and>
   normalize_relative_path ''target/report.xml'' = Inr ''target/report.xml'' \<and>
   normalize_relative_path ''a/../secret'' = Inl (UnsafePath ''a/../secret'')"
proof -
  have h: "normalize_relative_path ''./target//report.xml'' = Inr ''target/report.xml''"
    by code_simp
  moreover have "normalize_relative_path ''a/../secret'' = Inl (UnsafePath ''a/../secret'')"
    by code_simp
  ultimately show ?thesis
    using normalize_relative_path_safe [OF h] by simp
qed

lemma duration_unit_ok:
  assumes "duration_unit s = Inr (ds, w)"
  shows "\<exists>unit. s = ds @ unit \<and>
    (unit, unat w) \<in> {(''ms'', 1), (''s'', 1000), (''m'', 60000), (''h'', 3600000)}"
  using assms by (auto simp: duration_unit_def strip_suffix_Some split: option.splits)

text \<open>
  C40: an accepted duration is a decimal number with one of the four suffixes, and the stored value is
  exactly that number times the suffix's weight in milliseconds: positive, and never wrapped.
\<close>

theorem duration_parse_exact:
  assumes "duration_parse s = Inr ms"
  shows "\<exists>ds unit weight.
    (unit, weight) \<in> {(''ms'', 1), (''s'', 1000), (''m'', 60000), (''h'', 3600000)} \<and>
    (s = ds @ unit \<or> s = CHR ''+'' # ds @ unit) \<and> ds \<noteq> [] \<and> is_decimal ds \<and>
    unat ms = decimal 0 ds * weight \<and> 0 < unat ms"
proof -
  from assms obtain digits w n where u: "duration_unit s = Inr (digits, w)"
    and n: "parse_u64 digits = Some n" "n \<noteq> 0" "unat ms = unat n * unat w"
    by (auto simp: duration_parse_def res_simps num_simps split: if_splits)
  from duration_unit_ok [OF u] obtain unit where unit: "s = digits @ unit"
      "(unit, unat w) \<in> {(''ms'', 1), (''s'', 1000), (''m'', 60000), (''h'', 3600000)}"
    by blast
  from n(1) obtain ds where ds: "digits = ds \<or> digits = CHR ''+'' # ds" "ds \<noteq> []" "is_decimal ds"
      "unat n = decimal 0 ds"
    by (auto simp: parse_u64_Some)
  have "unat n \<noteq> 0" "unat w \<noteq> 0"
    using n(2) unit(2) by (auto simp: unat_eq_0_iff)
  then have "(s = ds @ unit \<or> s = CHR ''+'' # ds @ unit) \<and> ds \<noteq> [] \<and> is_decimal ds \<and>
      unat ms = decimal 0 ds * unat w \<and> 0 < unat ms"
    using ds unit(1) n(3) by auto
  with unit(2) show ?thesis
    by blast
qed

theorem duration_parse_exact_witness:
  "\<exists>ds unit weight.
    (unit, weight) \<in> {(''ms'', 1), (''s'', 1000), (''m'', 60000), (''h'', 3600000)} \<and>
    (''90m'' = ds @ unit \<or> ''90m'' = CHR ''+'' # ds @ unit) \<and> ds \<noteq> [] \<and> is_decimal ds \<and>
    unat (5400000 :: u64) = decimal 0 ds * weight \<and> 0 < unat (5400000 :: u64)"
proof (rule duration_parse_exact)
  show "duration_parse ''90m'' = Inr 5400000"
    by (simp add: duration_parse_def duration_unit_def strip_suffix_def parse_u64_def digit_value_def
        checked_mul_def checked_add_def less_eq_char_def)
qed

text \<open>
  The digest a content hash produces is accepted by the parser that reads it back, unchanged,
  provided the hash has 32 bytes and the hex encoder writes two lower-case digits per byte.
\<close>

theorem digest_roundtrip:
  assumes sha: "\<And>bs. length (sha bs) = 32"
    and hex: "\<And>bs. length (hex_encode bs) = 2 * length bs \<and> list_all is_lower_hex (hex_encode bs)"
  shows "digest_parse (as_str (sha256 sha hex_encode bytes)) = Inr (sha256 sha hex_encode bytes)"
  using assms by (simp add: sha256_def digest_parse_ok)

theorem digest_roundtrip_witness:
  "digest_parse (as_str (sha256 (\<lambda>_. replicate 32 7) (\<lambda>bs. concat (map (\<lambda>_. ''0a'') bs)) [1, 2])) =
     Inr (sha256 (\<lambda>_. replicate 32 7) (\<lambda>bs. concat (map (\<lambda>_. ''0a'') bs)) [1, 2])"
proof (rule digest_roundtrip)
  show "length (concat (map (\<lambda>_. ''0a'') bs)) = 2 * length bs \<and>
      list_all is_lower_hex (concat (map (\<lambda>_. ''0a'') bs))" for bs :: "u8 list"
    by (induction bs) (auto simp: is_lower_hex_def less_eq_char_def)
qed simp

end
