(* ===== verification/Lifecycle.thy ===== *)
theory Lifecycle
  imports BTree
begin

text \<open>
  The lifecycle contracts of \<^verbatim>\<open>crates/lifecycle\<close>: jobs, runs and steps. Each state type has the source's transition table. The locale \<open>lifecycle\<close> states what every table promises
  its clients: terminal states are final, no live state is stuck, and a terminal state is always
  within reach. The locale \<open>ranked_lifecycle\<close> adds a bound on the length of a history where
  the table has no cycle.
\<close>

subsection \<open>Jobs\<close>

datatype JobState =
    Job_Created | Job_BlockedPolicy | Job_AwaitingApproval | Job_Queued | Job_Leased
  | Job_Preparing | Job_Running | Job_Finalizing | Job_Succeeded | Job_Failed | Job_Canceled
  | Job_TimedOut | Job_Lost | Job_Rejected | Job_Skipped

definition job_is_terminal :: "JobState \<Rightarrow> bool" where
  "job_is_terminal s =
     (s \<in> {Job_Succeeded, Job_Failed, Job_Canceled, Job_TimedOut, Job_Lost, Job_Rejected, Job_Skipped})"

fun job_can_transition_to :: "JobState \<Rightarrow> JobState \<Rightarrow> bool" where
  "job_can_transition_to Job_Created t =
     (t \<in> {Job_BlockedPolicy, Job_AwaitingApproval, Job_Queued, Job_Preparing, Job_Rejected,
           Job_Canceled, Job_Skipped})"
| "job_can_transition_to Job_BlockedPolicy t =
     (t \<in> {Job_AwaitingApproval, Job_Queued, Job_Rejected, Job_Canceled})"
| "job_can_transition_to Job_AwaitingApproval t = (t \<in> {Job_Queued, Job_Rejected, Job_Canceled})"
| "job_can_transition_to Job_Queued t =
     (t \<in> {Job_Leased, Job_Preparing, Job_Rejected, Job_Canceled, Job_Lost})"
| "job_can_transition_to Job_Leased t = (t \<in> {Job_Queued, Job_Preparing, Job_Canceled, Job_Lost})"
| "job_can_transition_to Job_Preparing t =
     (t \<in> {Job_Running, Job_Finalizing, Job_Failed, Job_Canceled, Job_TimedOut, Job_Lost})"
| "job_can_transition_to Job_Running t =
     (t \<in> {Job_Finalizing, Job_Failed, Job_Canceled, Job_TimedOut, Job_Lost})"
| "job_can_transition_to Job_Finalizing t =
     (t \<in> {Job_Succeeded, Job_Failed, Job_Canceled, Job_TimedOut, Job_Lost})"
| "job_can_transition_to _ t = False"

subsection \<open>Runs\<close>

datatype RunState = Run_Created | Run_Running | Run_Succeeded | Run_Failed | Run_Canceled

definition run_is_terminal :: "RunState \<Rightarrow> bool" where
  "run_is_terminal s = (s \<in> {Run_Succeeded, Run_Failed, Run_Canceled})"

fun run_can_transition_to :: "RunState \<Rightarrow> RunState \<Rightarrow> bool" where
  "run_can_transition_to Run_Created t = (t \<in> {Run_Running, Run_Failed, Run_Canceled})"
| "run_can_transition_to Run_Running t = (t \<in> {Run_Succeeded, Run_Failed, Run_Canceled})"
| "run_can_transition_to _ t = False"

subsection \<open>Steps\<close>

datatype StepState =
  Step_Created | Step_Running | Step_Succeeded | Step_Failed | Step_Canceled | Step_TimedOut
  | Step_Skipped

definition step_is_terminal :: "StepState \<Rightarrow> bool" where
  "step_is_terminal s = (\<not> (s \<in> {Step_Created, Step_Running}))"

fun step_can_transition_to :: "StepState \<Rightarrow> StepState \<Rightarrow> bool" where
  "step_can_transition_to Step_Created t =
     (t \<in> {Step_Running, Step_Failed, Step_Canceled, Step_TimedOut, Step_Skipped})"
| "step_can_transition_to Step_Running t =
     (t \<in> {Step_Succeeded, Step_Failed, Step_Canceled, Step_TimedOut})"
| "step_can_transition_to _ t = False"

subsection \<open>What every table promises\<close>

locale lifecycle =
  fixes can_move :: "'s \<Rightarrow> 's \<Rightarrow> bool"
    and final :: "'s \<Rightarrow> bool"
    and distance :: "'s \<Rightarrow> nat"
  assumes final_stuck: "final s \<Longrightarrow> \<not> can_move s t"
    and closer: "\<not> final s \<Longrightarrow> \<exists>t. can_move s t \<and> distance t < distance s"
begin

lemma final_forever: "can_move\<^sup>*\<^sup>* s t \<Longrightarrow> final s \<Longrightarrow> t = s"
  by (erule converse_rtranclpE) (auto dest: final_stuck)

lemma final_reachable: "\<exists>t. can_move\<^sup>*\<^sup>* s t \<and> final t"
proof (induction "distance s" arbitrary: s rule: less_induct)
  case less
  show ?case
  proof (cases "final s")
    case False
    then obtain t where "can_move s t" "distance t < distance s"
      using closer by blast
    with less show ?thesis
      by (meson converse_rtranclp_into_rtranclp)
  qed blast
qed

end

locale ranked_lifecycle = lifecycle +
  assumes descends: "can_move s t \<Longrightarrow> distance t < distance s"
begin

lemma history_bounded: "(can_move ^^ n) s t \<Longrightarrow> n + distance t \<le> distance s"
proof (induction n arbitrary: t)
  case (Suc n)
  then obtain u where "(can_move ^^ n) s u" "can_move u t"
    by auto
  with Suc.IH descends show ?case
    by fastforce
qed simp

end

fun job_distance :: "JobState \<Rightarrow> nat" where
  "job_distance s = (if job_is_terminal s then 0 else 1)"

fun run_distance :: "RunState \<Rightarrow> nat" where
  "run_distance Run_Created = 2"
| "run_distance Run_Running = 1"
| "run_distance _ = 0"

fun step_distance :: "StepState \<Rightarrow> nat" where
  "step_distance Step_Created = 2"
| "step_distance Step_Running = 1"
| "step_distance _ = 0"

interpretation job: lifecycle job_can_transition_to job_is_terminal job_distance
proof
  show "job_is_terminal s \<Longrightarrow> \<not> job_can_transition_to s t" for s t
    by (auto simp: job_is_terminal_def)
  show "\<exists>t. job_can_transition_to s t \<and> job_distance t < job_distance s"
    if "\<not> job_is_terminal s" for s
    using that by (intro exI [of _ "if s = Job_Created then Job_Skipped else Job_Canceled"])
      (cases s; simp add: job_is_terminal_def)
qed

interpretation run: ranked_lifecycle run_can_transition_to run_is_terminal run_distance
proof
  show "run_is_terminal s \<Longrightarrow> \<not> run_can_transition_to s t" for s t
    by (auto simp: run_is_terminal_def)
  show "\<exists>t. run_can_transition_to s t \<and> run_distance t < run_distance s"
    if "\<not> run_is_terminal s" for s
    using that by (intro exI [of _ Run_Canceled]) (cases s; simp add: run_is_terminal_def)
  show "run_can_transition_to s t \<Longrightarrow> run_distance t < run_distance s" for s t
    by (cases s; auto)
qed

interpretation step: ranked_lifecycle step_can_transition_to step_is_terminal step_distance
proof
  show "step_is_terminal s \<Longrightarrow> \<not> step_can_transition_to s t" for s t
    by (cases s; simp add: step_is_terminal_def)
  show "\<exists>t. step_can_transition_to s t \<and> step_distance t < step_distance s"
    if "\<not> step_is_terminal s" for s
    using that by (intro exI [of _ Step_Canceled]) (cases s; simp add: step_is_terminal_def)
  show "step_can_transition_to s t \<Longrightarrow> step_distance t < step_distance s" for s t
    by (cases s; auto)
qed

text \<open>
  No job runs without being prepared first. From creation, a history that never enters
  \<^const>\<open>Job_Preparing\<close> never reaches running, finalizing, success, failure or time-out: a job held
  by policy or awaiting approval cannot produce a result by any other route. With preparation
  allowed, success is reachable.
\<close>

theorem job_result_needs_preparation:
  assumes "(\<lambda>s t. job_can_transition_to s t \<and> t \<noteq> Job_Preparing)\<^sup>*\<^sup>* Job_Created s"
  shows "s \<notin> {Job_Running, Job_Finalizing, Job_Succeeded, Job_Failed, Job_TimedOut} \<and>
    job_can_transition_to\<^sup>*\<^sup>* Job_Created Job_Succeeded"
proof
  from assms have "s \<in> {Job_Created, Job_BlockedPolicy, Job_AwaitingApproval, Job_Queued, Job_Leased,
      Job_Canceled, Job_Lost, Job_Rejected, Job_Skipped}"
  proof (induction rule: rtranclp_induct)
    case (step s t)
    then show ?case
      by (cases s) auto
  qed simp
  then show "s \<notin> {Job_Running, Job_Finalizing, Job_Succeeded, Job_Failed, Job_TimedOut}"
    by auto
  have "job_can_transition_to Job_Created Job_Preparing" "job_can_transition_to Job_Preparing Job_Finalizing"
      "job_can_transition_to Job_Finalizing Job_Succeeded"
    by simp_all
  then show "job_can_transition_to\<^sup>*\<^sup>* Job_Created Job_Succeeded"
    by (meson converse_rtranclp_into_rtranclp rtranclp.rtrancl_refl)
qed

theorem job_result_needs_preparation_witness:
  "Job_Queued \<notin> {Job_Running, Job_Finalizing, Job_Succeeded, Job_Failed, Job_TimedOut} \<and>
   job_can_transition_to\<^sup>*\<^sup>* Job_Created Job_Succeeded"
proof (rule job_result_needs_preparation)
  show "(\<lambda>s t. job_can_transition_to s t \<and> t \<noteq> Job_Preparing)\<^sup>*\<^sup>* Job_Created Job_Queued"
    by (rule r_into_rtranclp) simp
qed

end
