(* ===== verification/Exec_Validation.thy ===== *)
theory Exec_Validation
  imports Model_Primitives
begin

text \<open>
  \<^verbatim>\<open>crates/execution/src/error.rs\<close> and \<^verbatim>\<open>validation.rs\<close>: the error type of the execution kernel and the
  checks every canonical type is built from. Field names and reasons are the source's literals,
  so an error value says which check refused the input. \<open>PartialEq\<close> on the errors compares their
  messages, which determine the constructor and its arguments.
\<close>

datatype ExecutionModelError =
    InvalidField string string
  | TooManyEntries string nat
  | ConflictingIdentity string string
  | CapsuleKindMismatch
  | SealSubjectMismatch
  | SealNotYetValid
  | SealExpired
  | SealRevoked u64 u64
  | InvalidSealSignature
  | ContainmentViolation string
  | IdempotencyConflict
  | ReservationCapacityUnavailable
  | ReservationIdentityConflict
  | ReservationNotFound
  | InvalidReservationTransition
  | StaleSessionFence
  | StaleLedgerRevision
  | WorkspaceGenerationConflict
  | WorkspaceReservationInactive
  | AccountingFailure
  | InvalidTransition string string string
  | CanonicalJson string

type_synonym 'a outcome = "(ExecutionModelError, 'a) result"

definition MAX_IDENTIFIER_BYTES :: nat where
  "MAX_IDENTIFIER_BYTES = 512"

definition MAX_TEXT_BYTES :: nat where
  "MAX_TEXT_BYTES = 8 * 1024"

definition MAX_COLLECTION_ENTRIES :: nat where
  "MAX_COLLECTION_ENTRIES = 1024"

definition MAX_ARGUMENTS :: nat where
  "MAX_ARGUMENTS = 4096"

definition is_ascii_control :: "char \<Rightarrow> bool" where
  "is_ascii_control c \<longleftrightarrow> c \<le> CHR 0x1F \<or> c = CHR 0x7F"

definition v_schema :: "string \<Rightarrow> u32 \<Rightarrow> u32 \<Rightarrow> unit outcome" where
  "v_schema field actual expected =
     fail_if (actual \<noteq> expected) (InvalidField field ''unsupported schema version'')"

definition v_identifier :: "string \<Rightarrow> string \<Rightarrow> unit outcome" where
  "v_identifier field s =
     fail_if (s = [] \<or> length s > MAX_IDENTIFIER_BYTES \<or> list_ex is_ascii_control s \<or> s = ''*'')
       (InvalidField field ''must be non-empty, bounded, control-free, and exact'')"

definition v_text :: "string \<Rightarrow> string \<Rightarrow> unit outcome" where
  "v_text field s =
     fail_if (s = [] \<or> length s > MAX_TEXT_BYTES \<or> list_ex is_ascii_control s)
       (InvalidField field ''must be non-empty, bounded, and control-free'')"

definition v_argument :: "string \<Rightarrow> string \<Rightarrow> unit outcome" where
  "v_argument field s =
     fail_if (length s > MAX_TEXT_BYTES \<or> CHR 0x00 \<in> set s)
       (InvalidField field ''must be bounded UTF-8 without a NUL byte'')"

definition v_bounded :: "string \<Rightarrow> nat \<Rightarrow> nat \<Rightarrow> unit outcome" where
  "v_bounded field actual maximum = fail_if (actual > maximum) (TooManyEntries field maximum)"

definition v_identifiers :: "string \<Rightarrow> string bset \<Rightarrow> bool \<Rightarrow> unit outcome" where
  "v_identifiers field values require_nonempty =
     seq_checks
       ([v_bounded field (bt_len values) MAX_COLLECTION_ENTRIES,
         fail_if (require_nonempty \<and> bt_len values = 0)
           (InvalidField field ''must contain at least one exact member'')]
        @ map (v_identifier field) (bt_keys values))"

definition v_relative_path :: "string \<Rightarrow> string \<Rightarrow> unit outcome" where
  "v_relative_path field s =
     (case normalize_relative_path s of
        Inl _ \<Rightarrow> Inl (InvalidField field ''must be a normalized relative path'')
      | Inr normalized \<Rightarrow>
          fail_if (normalized \<noteq> s) (InvalidField field ''must already be normalized''))"

lemma v_relative_path_ok: "v_relative_path field s = Inr u \<longleftrightarrow> normalize_relative_path s = Inr s"
  by (auto simp: v_relative_path_def fail_if_def split: sum.splits)

lemma v_identifiers_ok:
  "v_identifiers field s ne = Inr u \<longleftrightarrow>
     bt_len s \<le> MAX_COLLECTION_ENTRIES \<and> (ne \<longrightarrow> bt_len s \<noteq> 0) \<and>
     (\<forall>x. bs_mem x s \<longrightarrow> v_identifier field x = Inr ())"
  by (auto simp: v_identifiers_def v_bounded_def res_simps list_all_iff bt_keys_set bs_mem_iff not_less)

lemma v_identifier_nonempty: "v_identifier field s = Inr u \<Longrightarrow> s \<noteq> []"
  by (simp add: v_identifier_def res_simps)

end
