(* ===== verification/Exec_Lifecycle.thy ===== *)
theory Exec_Lifecycle
  imports Exec_Validation Lifecycle
begin

text \<open>
  \<^verbatim>\<open>crates/execution/src/lifecycle.rs\<close>: the transition tables of executions and sessions, the method
  that moves a state or reports an invalid move, and the terminal decision, which keeps the first
  observed cause unless one of the two safety failures arrives. The tables satisfy the contract of
  \<open>lifecycle\<close>; the decision refines \<open>decided\<close>.
\<close>

subsection \<open>Executions\<close>

datatype ExecutionState =
  Exec_Proposed | Exec_Admitted | Exec_Queued | Exec_Leased | Exec_Running | Exec_Finalizing
  | Exec_Terminal

definition exec_is_terminal :: "ExecutionState \<Rightarrow> bool" where
  "exec_is_terminal s = (s = Exec_Terminal)"

fun exec_can_transition_to :: "ExecutionState \<Rightarrow> ExecutionState \<Rightarrow> bool" where
  "exec_can_transition_to Exec_Proposed t = (t \<in> {Exec_Admitted, Exec_Terminal})"
| "exec_can_transition_to Exec_Admitted t = (t \<in> {Exec_Queued, Exec_Terminal})"
| "exec_can_transition_to Exec_Queued t = (t \<in> {Exec_Leased, Exec_Terminal})"
| "exec_can_transition_to Exec_Leased t = (t \<in> {Exec_Running, Exec_Finalizing})"
| "exec_can_transition_to Exec_Running t = (t = Exec_Finalizing)"
| "exec_can_transition_to Exec_Finalizing t = (t = Exec_Terminal)"
| "exec_can_transition_to Exec_Terminal t = False"

definition exec_name :: "ExecutionState \<Rightarrow> string" where
  "exec_name s =
     (case s of
        Exec_Proposed \<Rightarrow> ''proposed'' | Exec_Admitted \<Rightarrow> ''admitted'' | Exec_Queued \<Rightarrow> ''queued''
      | Exec_Leased \<Rightarrow> ''leased'' | Exec_Running \<Rightarrow> ''running'' | Exec_Finalizing \<Rightarrow> ''finalizing''
      | Exec_Terminal \<Rightarrow> ''terminal'')"

text \<open>The method updates its receiver; the model returns the state that is left behind.\<close>

definition exec_transition :: "ExecutionState \<Rightarrow> ExecutionState \<Rightarrow> unit outcome \<times> ExecutionState" where
  "exec_transition s next_state =
     (if \<not> exec_can_transition_to s next_state
      then (Inl (InvalidTransition ''Execution'' (exec_name s) (exec_name next_state)), s)
      else (Inr (), next_state))"

subsection \<open>Sessions\<close>

datatype SessionState =
  Session_Proposed | Session_Admitted | Session_Provisioning | Session_Active | Session_Suspending
  | Session_Suspended | Session_Restoring | Session_Destroying | Session_Terminal

definition session_is_terminal :: "SessionState \<Rightarrow> bool" where
  "session_is_terminal s = (s = Session_Terminal)"

fun session_can_transition_to :: "SessionState \<Rightarrow> SessionState \<Rightarrow> bool" where
  "session_can_transition_to Session_Proposed t = (t \<in> {Session_Admitted, Session_Terminal})"
| "session_can_transition_to Session_Admitted t = (t \<in> {Session_Provisioning, Session_Destroying})"
| "session_can_transition_to Session_Provisioning t = (t \<in> {Session_Active, Session_Destroying})"
| "session_can_transition_to Session_Active t = (t \<in> {Session_Suspending, Session_Destroying})"
| "session_can_transition_to Session_Suspending t =
     (t \<in> {Session_Suspended, Session_Active, Session_Destroying})"
| "session_can_transition_to Session_Suspended t = (t \<in> {Session_Restoring, Session_Destroying})"
| "session_can_transition_to Session_Restoring t =
     (t \<in> {Session_Active, Session_Suspended, Session_Destroying})"
| "session_can_transition_to Session_Destroying t = (t = Session_Terminal)"
| "session_can_transition_to Session_Terminal t = False"

definition session_name :: "SessionState \<Rightarrow> string" where
  "session_name s =
     (case s of
        Session_Proposed \<Rightarrow> ''proposed'' | Session_Admitted \<Rightarrow> ''admitted''
      | Session_Provisioning \<Rightarrow> ''provisioning'' | Session_Active \<Rightarrow> ''active''
      | Session_Suspending \<Rightarrow> ''suspending'' | Session_Suspended \<Rightarrow> ''suspended''
      | Session_Restoring \<Rightarrow> ''restoring'' | Session_Destroying \<Rightarrow> ''destroying''
      | Session_Terminal \<Rightarrow> ''terminal'')"

definition session_transition :: "SessionState \<Rightarrow> SessionState \<Rightarrow> unit outcome \<times> SessionState" where
  "session_transition s next_state =
     (if \<not> session_can_transition_to s next_state
      then (Inl (InvalidTransition ''Session'' (session_name s) (session_name next_state)), s)
      else (Inr (), next_state))"

subsection \<open>The terminal decision\<close>

datatype FailureClass =
    AdmissionRejected | PolicyDenied | CapacityUnavailable | RuntimeFailure | ProgramFailure
  | TimedOut | Canceled | ResourceExhausted | ExternalEffectIndeterminate | RunnerIntegrityFailure

text \<open>\<^verbatim>\<open>derive(Ord)\<close> orders an enum by the position of its variants.\<close>

fun failure_rank :: "FailureClass \<Rightarrow> nat" where
  "failure_rank AdmissionRejected = 0"
| "failure_rank PolicyDenied = 1"
| "failure_rank CapacityUnavailable = 2"
| "failure_rank RuntimeFailure = 3"
| "failure_rank ProgramFailure = 4"
| "failure_rank TimedOut = 5"
| "failure_rank Canceled = 6"
| "failure_rank ResourceExhausted = 7"
| "failure_rank ExternalEffectIndeterminate = 8"
| "failure_rank RunnerIntegrityFailure = 9"

lemma failure_rank_inject: "failure_rank a = failure_rank b \<Longrightarrow> a = b"
  by (cases a; cases b) simp_all

instantiation FailureClass :: linorder
begin

definition less_eq_FailureClass :: "FailureClass \<Rightarrow> FailureClass \<Rightarrow> bool" where
  "less_eq_FailureClass a b \<longleftrightarrow> failure_rank a \<le> failure_rank b"

definition less_FailureClass :: "FailureClass \<Rightarrow> FailureClass \<Rightarrow> bool" where
  "less_FailureClass a b \<longleftrightarrow> failure_rank a < failure_rank b"

instance
  by standard
    (auto simp: less_eq_FailureClass_def less_FailureClass_def intro: failure_rank_inject)

end

definition is_safety_override :: "FailureClass \<Rightarrow> bool" where
  "is_safety_override f = (f \<in> {ExternalEffectIndeterminate, RunnerIntegrityFailure})"

datatype TerminalCause = Cause_Succeeded | Cause_Failed FailureClass

record TerminalDecision =
  td_primary :: "TerminalCause option"
  td_observed_failures :: "FailureClass bset"
  td_success_observed :: bool

definition decision_default :: TerminalDecision where
  "decision_default =
     \<lparr>td_primary = None, td_observed_failures = bt_empty, td_success_observed = False\<rparr>"

definition is_committed :: "TerminalDecision \<Rightarrow> bool" where
  "is_committed d = (case td_primary d of None \<Rightarrow> False | Some _ \<Rightarrow> True)"

definition observe :: "TerminalDecision \<Rightarrow> TerminalCause \<Rightarrow> TerminalDecision" where
  "observe d cause =
     (case cause of
        Cause_Succeeded \<Rightarrow> d\<lparr>td_success_observed := True\<rparr>
      | Cause_Failed f \<Rightarrow> d\<lparr>td_observed_failures := bs_insert f (td_observed_failures d)\<rparr>)"

text \<open>The cause that becomes primary, or \<^const>\<open>None\<close> where the method returns early.\<close>

definition next_primary :: "TerminalCause option \<Rightarrow> TerminalCause \<Rightarrow> TerminalCause option" where
  "next_primary primary cause =
     (case primary of
        None \<Rightarrow> Some cause
      | Some p \<Rightarrow>
          if p = Cause_Failed RunnerIntegrityFailure then None
          else if cause = Cause_Failed RunnerIntegrityFailure then Some cause
          else if p = Cause_Failed ExternalEffectIndeterminate then None
          else if cause = Cause_Failed ExternalEffectIndeterminate then Some cause
          else None)"

definition commit :: "TerminalDecision \<Rightarrow> TerminalCause \<Rightarrow> bool \<times> TerminalDecision" where
  "commit d cause =
     (let d' = observe d cause
      in case next_primary (td_primary d') cause of
           None \<Rightarrow> (False, d')
         | Some c \<Rightarrow> (td_primary d' \<noteq> Some c, d'\<lparr>td_primary := Some c\<rparr>))"

fun commit_all :: "TerminalDecision \<Rightarrow> TerminalCause list \<Rightarrow> TerminalDecision" where
  "commit_all d [] = d"
| "commit_all d (c # cs) = commit_all (snd (commit d c)) cs"

text \<open>
  The contract of the decision: a runner integrity failure wins over everything, then an external
  effect whose outcome is unknown, then whatever was observed first.
\<close>

definition decided :: "TerminalCause list \<Rightarrow> TerminalCause option" where
  "decided cs =
     (if Cause_Failed RunnerIntegrityFailure \<in> set cs then Some (Cause_Failed RunnerIntegrityFailure)
      else if Cause_Failed ExternalEffectIndeterminate \<in> set cs
        then Some (Cause_Failed ExternalEffectIndeterminate)
      else (case cs of [] \<Rightarrow> None | c # _ \<Rightarrow> Some c))"

subsection \<open>The lifecycle contract\<close>

fun exec_distance :: "ExecutionState \<Rightarrow> nat" where
  "exec_distance Exec_Proposed = 6"
| "exec_distance Exec_Admitted = 5"
| "exec_distance Exec_Queued = 4"
| "exec_distance Exec_Leased = 3"
| "exec_distance Exec_Running = 2"
| "exec_distance Exec_Finalizing = 1"
| "exec_distance Exec_Terminal = 0"

fun session_distance :: "SessionState \<Rightarrow> nat" where
  "session_distance Session_Terminal = 0"
| "session_distance Session_Destroying = 1"
| "session_distance _ = 2"

interpretation exec: ranked_lifecycle exec_can_transition_to exec_is_terminal exec_distance
proof
  show "exec_is_terminal s \<Longrightarrow> \<not> exec_can_transition_to s t" for s t
    by (simp add: exec_is_terminal_def)
  show "\<exists>t. exec_can_transition_to s t \<and> exec_distance t < exec_distance s"
    if "\<not> exec_is_terminal s" for s
    using that
    by (intro exI [of _ "if s \<in> {Exec_Leased, Exec_Running} then Exec_Finalizing else Exec_Terminal"])
      (cases s; simp add: exec_is_terminal_def)
  show "exec_can_transition_to s t \<Longrightarrow> exec_distance t < exec_distance s" for s t
    by (cases s; auto)
qed

interpretation session: lifecycle session_can_transition_to session_is_terminal session_distance
proof
  show "session_is_terminal s \<Longrightarrow> \<not> session_can_transition_to s t" for s t
    by (simp add: session_is_terminal_def)
  show "\<exists>t. session_can_transition_to s t \<and> session_distance t < session_distance s"
    if "\<not> session_is_terminal s" for s
    using that
    by (intro exI [of _ "if s \<in> {Session_Proposed, Session_Destroying} then Session_Terminal
          else Session_Destroying"])
      (cases s; simp add: session_is_terminal_def)
qed

subsection \<open>The decision refines its contract\<close>

lemma decided_snoc: "decided (cs @ [c]) =
    (case next_primary (decided cs) c of None \<Rightarrow> decided cs | Some p \<Rightarrow> Some p)"
  by (cases cs) (auto simp: decided_def next_primary_def)

lemma commit_fields:
  "td_primary (snd (commit d c)) =
     (case next_primary (td_primary d) c of None \<Rightarrow> td_primary d | Some p \<Rightarrow> Some p)"
  "bs_mem f (td_observed_failures (snd (commit d c))) \<longleftrightarrow>
     c = Cause_Failed f \<or> bs_mem f (td_observed_failures d)"
  "td_success_observed (snd (commit d c)) \<longleftrightarrow> c = Cause_Succeeded \<or> td_success_observed d"
  by (cases c; auto simp: commit_def observe_def Let_def split: option.split)+

lemma commit_all_snoc: "commit_all d (cs @ [c]) = snd (commit (commit_all d cs) c)"
  by (induction cs arbitrary: d) simp_all

text \<open>
  C30: whatever causes are observed and in whatever order, the committed result is the one the contract
  names: a runner integrity failure if one was ever observed, else an indeterminate external effect,
  else the first cause. Every failure and every success observed is retained.
\<close>

theorem terminal_decision_refines:
  "td_primary (commit_all decision_default cs) = decided cs \<and>
   {f. bs_mem f (td_observed_failures (commit_all decision_default cs))} = {f. Cause_Failed f \<in> set cs} \<and>
   td_success_observed (commit_all decision_default cs) = (Cause_Succeeded \<in> set cs)"
proof (induction cs rule: rev_induct)
  case Nil
  then show ?case
    by (simp add: decision_default_def decided_def)
next
  case (snoc c cs)
  then show ?case
    by (auto simp: commit_all_snoc commit_fields decided_snoc split: option.split)
qed

text \<open>
  C31: an execution makes at most six moves, every history can be completed to a terminal state, and a
  terminal state is never left: a move requested there leaves it as it is.
\<close>

theorem execution_history_bounded:
  assumes "(exec_can_transition_to ^^ n) s t"
  shows "n \<le> 6 \<and> (\<exists>u. exec_can_transition_to\<^sup>*\<^sup>* t u \<and> exec_is_terminal u) \<and>
    (exec_is_terminal t \<longrightarrow> snd (exec_transition t v) = t)"
proof -
  have "exec_distance s \<le> 6"
    by (cases s) simp_all
  then have "n \<le> 6"
    using exec.history_bounded [OF assms] by simp
  moreover have "snd (exec_transition t v) = t" if "exec_is_terminal t"
    using that exec.final_stuck [of t v] by (simp add: exec_transition_def)
  ultimately show ?thesis
    using exec.final_reachable [of t] by blast
qed

theorem execution_history_bounded_witness:
  "(2::nat) \<le> 6 \<and> (\<exists>u. exec_can_transition_to\<^sup>*\<^sup>* Exec_Terminal u \<and> exec_is_terminal u) \<and>
   snd (exec_transition Exec_Terminal Exec_Running) = Exec_Terminal"
proof -
  have "(exec_can_transition_to ^^ 2) Exec_Proposed Exec_Terminal"
    by (simp add: numeral_2_eq_2 relcompp.simps) (rule exI [of _ Exec_Admitted], simp)
  then show ?thesis
    using execution_history_bounded [of 2 Exec_Proposed Exec_Terminal Exec_Running]
    by (simp add: exec_is_terminal_def)
qed

end
