(* ===== verification/Contracts.thy ===== *)
theory Contracts
  imports Exec_Validation
begin

text \<open>
  \<^verbatim>\<open>crates/execution/src/contracts.rs\<close>: the bounded contracts a Capsule is made of (placement,
  resources, capabilities, nondeterminism, external effects, output, evidence), their validation, and
  the field-specific containment \<^verbatim>\<open>contains\<close> by which a delegated child may only narrow its parent.
  The locale \<open>envelope\<close> states what delegation relies on: containment is a preorder, so a chain
  of narrowings is a narrowing. Every \<^verbatim>\<open>contains\<close> of the file is an interpretation of it.
\<close>

definition MAX_RESOURCE_BYTES :: u64 where
  "MAX_RESOURCE_BYTES = push_bit 60 1"

definition MAX_DURATION_MS :: u64 where
  "MAX_DURATION_MS = 365 * 24 * 60 * 60 * 1000"

subsection \<open>Placement\<close>

record DeviceRequirement =
  dr_class :: string
  dr_compatibility_digest :: ContentDigest
  dr_count :: u32

definition device_validate :: "DeviceRequirement \<Rightarrow> unit outcome" where
  "device_validate d =
     seq_checks
       [v_identifier ''device class'' (dr_class d),
        fail_if (dr_count d = 0) (InvalidField ''device count'' ''must be greater than zero'')]"

record PlacementConstraints =
  pc_allowed_provider_ids :: "string bset"
  pc_allowed_pool_trust_profiles :: "ContentDigest bset"
  pc_administrative_trust_domains :: "string bset"
  pc_allowed_regions :: "string bset"
  pc_allowed_localities :: "string bset"
  pc_data_residency :: "string bset"
  pc_required_devices :: "(string, DeviceRequirement) btree"

definition placement_validate :: "PlacementConstraints \<Rightarrow> unit outcome" where
  "placement_validate p =
     seq_checks
       ([v_identifiers ''allowed Provider identities'' (pc_allowed_provider_ids p) True,
         v_identifiers ''administrative trust domains'' (pc_administrative_trust_domains p) True,
         v_identifiers ''allowed regions'' (pc_allowed_regions p) False,
         v_identifiers ''allowed localities'' (pc_allowed_localities p) False,
         v_identifiers ''data residency'' (pc_data_residency p) False,
         v_bounded ''pool trust profiles'' (bt_len (pc_allowed_pool_trust_profiles p))
           MAX_COLLECTION_ENTRIES,
         fail_if (bt_len (pc_allowed_pool_trust_profiles p) = 0)
           (InvalidField ''pool trust profiles'' ''must contain at least one exact trust profile''),
         v_bounded ''device requirements'' (bt_len (pc_required_devices p)) MAX_COLLECTION_ENTRIES]
        @ map (\<lambda>(identity, device).
            seq_checks [v_identifier ''device requirement identity'' identity, device_validate device])
          (bt_entries (pc_required_devices p)))"

definition placement_contains :: "PlacementConstraints \<Rightarrow> PlacementConstraints \<Rightarrow> bool" where
  "placement_contains p child \<longleftrightarrow>
     bs_subset (pc_allowed_provider_ids child) (pc_allowed_provider_ids p) \<and>
     bs_subset (pc_allowed_pool_trust_profiles child) (pc_allowed_pool_trust_profiles p) \<and>
     bs_subset (pc_administrative_trust_domains child) (pc_administrative_trust_domains p) \<and>
     bs_subset (pc_allowed_regions child) (pc_allowed_regions p) \<and>
     bs_subset (pc_allowed_localities child) (pc_allowed_localities p) \<and>
     bs_subset (pc_data_residency child) (pc_data_residency p) \<and>
     pc_required_devices p = pc_required_devices child"

subsection \<open>Resources\<close>

record ResourceLimits =
  rl_cpu_millis :: u32
  rl_memory_bytes :: u64
  rl_storage_bytes :: u64
  rl_task_count :: u32
  rl_process_count :: u32
  rl_network_egress_bytes :: u64
  rl_maximum_duration_ms :: u64

definition resources_validate :: "ResourceLimits \<Rightarrow> unit outcome" where
  "resources_validate r =
     fail_if
       (rl_cpu_millis r = 0 \<or> rl_memory_bytes r = 0 \<or> rl_storage_bytes r = 0 \<or>
        rl_task_count r = 0 \<or> rl_process_count r = 0 \<or>
        rl_memory_bytes r > MAX_RESOURCE_BYTES \<or> rl_storage_bytes r > MAX_RESOURCE_BYTES \<or>
        rl_network_egress_bytes r > MAX_RESOURCE_BYTES \<or>
        rl_maximum_duration_ms r = 0 \<or> rl_maximum_duration_ms r > MAX_DURATION_MS)
       (InvalidField ''resource limits'' ''must be positive and within canonical bounds'')"

definition resources_contains :: "ResourceLimits \<Rightarrow> ResourceLimits \<Rightarrow> bool" where
  "resources_contains r child \<longleftrightarrow>
     rl_cpu_millis child \<le> rl_cpu_millis r \<and>
     rl_memory_bytes child \<le> rl_memory_bytes r \<and>
     rl_storage_bytes child \<le> rl_storage_bytes r \<and>
     rl_task_count child \<le> rl_task_count r \<and>
     rl_process_count child \<le> rl_process_count r \<and>
     rl_network_egress_bytes child \<le> rl_network_egress_bytes r \<and>
     rl_maximum_duration_ms child \<le> rl_maximum_duration_ms r"

subsection \<open>Capabilities\<close>

record CapabilityBudget =
  cb_maximum_calls :: u64
  cb_maximum_request_bytes :: u64
  cb_maximum_response_bytes :: u64
  cb_maximum_external_effects :: u64

definition budget_validate :: "CapabilityBudget \<Rightarrow> unit outcome" where
  "budget_validate b =
     fail_if
       (cb_maximum_calls b > MAX_RESOURCE_BYTES \<or> cb_maximum_request_bytes b > MAX_RESOURCE_BYTES \<or>
        cb_maximum_response_bytes b > MAX_RESOURCE_BYTES \<or>
        cb_maximum_external_effects b > MAX_RESOURCE_BYTES)
       (InvalidField ''capability budget'' ''exceeds canonical bound'')"

definition budget_contains :: "CapabilityBudget \<Rightarrow> CapabilityBudget \<Rightarrow> bool" where
  "budget_contains b child \<longleftrightarrow>
     cb_maximum_calls child \<le> cb_maximum_calls b \<and>
     cb_maximum_request_bytes child \<le> cb_maximum_request_bytes b \<and>
     cb_maximum_response_bytes child \<le> cb_maximum_response_bytes b \<and>
     cb_maximum_external_effects child \<le> cb_maximum_external_effects b"

record CapabilityGrant =
  cg_class :: string
  cg_resource :: string
  cg_operations :: "string bset"
  cg_destinations :: "string bset"
  cg_external_effect_class :: "string option"
  cg_budget :: CapabilityBudget
  cg_constraints_digest :: ContentDigest

definition capability_grant_validate :: "CapabilityGrant \<Rightarrow> unit outcome" where
  "capability_grant_validate g =
     seq_checks
       [v_identifier ''capability class'' (cg_class g),
        v_text ''capability resource'' (cg_resource g),
        v_identifiers ''capability operations'' (cg_operations g) True,
        v_identifiers ''capability destinations'' (cg_destinations g) False,
        (case cg_external_effect_class g of
           None \<Rightarrow> Inr ()
         | Some effect_class \<Rightarrow> v_identifier ''external-effect class'' effect_class),
        budget_validate (cg_budget g)]"

text \<open>The canonical digest of a grant is computed by \<^verbatim>\<open>canonical.rs\<close>, a parameter here.\<close>

definition capability_grant_digest ::
    "(CapabilityGrant \<Rightarrow> ContentDigest outcome) \<Rightarrow> CapabilityGrant \<Rightarrow> ContentDigest outcome" where
  "capability_grant_digest cd_capability g =
     res_bind (capability_grant_validate g) (\<lambda>_. cd_capability g)"

definition capability_grant_contains :: "CapabilityGrant \<Rightarrow> CapabilityGrant \<Rightarrow> bool" where
  "capability_grant_contains g child \<longleftrightarrow>
     cg_class g = cg_class child \<and>
     cg_resource g = cg_resource child \<and>
     bs_subset (cg_operations child) (cg_operations g) \<and>
     bs_subset (cg_destinations child) (cg_destinations g) \<and>
     cg_external_effect_class g = cg_external_effect_class child \<and>
     budget_contains (cg_budget g) (cg_budget child) \<and>
     cg_constraints_digest g = cg_constraints_digest child"

record CapabilityContract =
  cc_grants :: "(string, CapabilityGrant) btree"
  cc_aggregate_budget :: CapabilityBudget

definition capabilities_validate :: "CapabilityContract \<Rightarrow> unit outcome" where
  "capabilities_validate c =
     seq_checks
       ([v_bounded ''capability grants'' (bt_len (cc_grants c)) MAX_COLLECTION_ENTRIES]
        @ map (\<lambda>(identity, grant).
            seq_checks [v_identifier ''capability identity'' identity, capability_grant_validate grant])
          (bt_entries (cc_grants c))
        @ [budget_validate (cc_aggregate_budget c)])"

definition capabilities_classes :: "CapabilityContract \<Rightarrow> string bset" where
  "capabilities_classes c = bs_of_list (map cg_class (bt_values (cc_grants c)))"

text \<open>Both contracts below compare maps entry by entry: each child entry needs a parent entry.\<close>

definition entries_contained ::
    "('v \<Rightarrow> 'v \<Rightarrow> bool) \<Rightarrow> (string, 'v) btree \<Rightarrow> (string, 'v) btree \<Rightarrow> bool" where
  "entries_contained within parent child =
     list_all (\<lambda>(identity, child_grant).
         (case bt_get parent identity of
            None \<Rightarrow> False
          | Some parent_grant \<Rightarrow> within parent_grant child_grant))
       (bt_entries child)"

definition capabilities_contains :: "CapabilityContract \<Rightarrow> CapabilityContract \<Rightarrow> bool" where
  "capabilities_contains c child \<longleftrightarrow>
     budget_contains (cc_aggregate_budget c) (cc_aggregate_budget child) \<and>
     entries_contained capability_grant_contains (cc_grants c) (cc_grants child)"

subsection \<open>Nondeterminism\<close>

datatype NondeterministicInputClass = LiveClock | LiveRandomness | External

record NondeterministicInputGrant =
  ni_class :: NondeterministicInputClass
  ni_profile_digest :: ContentDigest
  ni_maximum_uses :: u64
  ni_maximum_bytes :: u64

definition input_grant_validate :: "NondeterministicInputGrant \<Rightarrow> unit outcome" where
  "input_grant_validate g =
     fail_if (ni_maximum_uses g = 0 \<or> ni_maximum_bytes g > MAX_RESOURCE_BYTES)
       (InvalidField ''nondeterministic input grant''
          ''uses must be positive and bytes within the canonical bound'')"

definition input_grant_contains ::
    "NondeterministicInputGrant \<Rightarrow> NondeterministicInputGrant \<Rightarrow> bool" where
  "input_grant_contains g child \<longleftrightarrow>
     ni_class g = ni_class child \<and>
     ni_profile_digest g = ni_profile_digest child \<and>
     ni_maximum_uses child \<le> ni_maximum_uses g \<and>
     ni_maximum_bytes child \<le> ni_maximum_bytes g"

record NondeterminismContract =
  nd_inputs :: "(string, NondeterministicInputGrant) btree"

definition nondeterminism_validate :: "NondeterminismContract \<Rightarrow> unit outcome" where
  "nondeterminism_validate n =
     seq_checks
       ([v_bounded ''nondeterministic inputs'' (bt_len (nd_inputs n)) MAX_COLLECTION_ENTRIES]
        @ map (\<lambda>(identity, grant).
            seq_checks [v_identifier ''nondeterministic input identity'' identity,
              input_grant_validate grant])
          (bt_entries (nd_inputs n)))"

definition nondeterminism_contains :: "NondeterminismContract \<Rightarrow> NondeterminismContract \<Rightarrow> bool" where
  "nondeterminism_contains n child =
     entries_contained input_grant_contains (nd_inputs n) (nd_inputs child)"

subsection \<open>External effects\<close>

record ExternalEffectDeclaration =
  ee_operation_id :: string
  ee_idempotency_key :: string
  ee_capability_grant_id :: string
  ee_effect_class :: string
  ee_destination_digest :: ContentDigest
  ee_idempotency_contract_digest :: ContentDigest
  ee_bounded_request_digest :: ContentDigest

definition declaration_validate_against ::
    "ExternalEffectDeclaration \<Rightarrow> string \<Rightarrow> CapabilityContract \<Rightarrow> unit outcome" where
  "declaration_validate_against e operation_id capabilities =
     res_bind
       (seq_checks
         [v_identifier ''external-effect operation identity'' (ee_operation_id e),
          v_identifier ''external-effect idempotency key'' (ee_idempotency_key e),
          v_identifier ''external-effect capability identity'' (ee_capability_grant_id e),
          v_identifier ''external-effect class'' (ee_effect_class e)]) (\<lambda>_.
     res_bind
       (ok_or (bt_get (cc_grants capabilities) (ee_capability_grant_id e))
         (InvalidField ''external-effect capability'' ''must name a capability in the same Capsule''))
       (\<lambda>grant.
         fail_if
           (operation_id \<noteq> ee_operation_id e \<or>
            cg_external_effect_class grant \<noteq> Some (ee_effect_class e))
           (InvalidField ''external-effect declaration''
              ''operation key and admitted effect class must match exactly'')))"

record ExternalEffectContract =
  ec_operations :: "(string, ExternalEffectDeclaration) btree"

fun effects_loop ::
    "CapabilityContract \<Rightarrow> string bset \<Rightarrow> (string \<times> ExternalEffectDeclaration) list \<Rightarrow> unit outcome" where
  "effects_loop capabilities keys [] = Inr ()"
| "effects_loop capabilities keys ((operation_id, declaration) # rest) =
     res_bind (declaration_validate_against declaration operation_id capabilities) (\<lambda>_.
       if bs_mem (ee_idempotency_key declaration) keys
       then Inl (InvalidField ''external-effect idempotency key''
              ''must be unique within one Execution Capsule'')
       else effects_loop capabilities (bs_insert (ee_idempotency_key declaration) keys) rest)"

definition effects_validate_against :: "ExternalEffectContract \<Rightarrow> CapabilityContract \<Rightarrow> unit outcome" where
  "effects_validate_against c capabilities =
     res_bind
       (seq_checks
         [v_bounded ''external-effect declarations'' (bt_len (ec_operations c)) MAX_COLLECTION_ENTRIES,
          fail_if
            (try_from_size_or_max (bt_len (ec_operations c))
               > cb_maximum_external_effects (cc_aggregate_budget capabilities))
            (InvalidField ''external-effect declarations''
               ''exceed the Capsule aggregate external-effect budget'')])
       (\<lambda>_. effects_loop capabilities bt_empty (bt_entries (ec_operations c)))"

subsection \<open>Output and evidence\<close>

record OutputContract =
  oc_stdout_max_bytes :: u64
  oc_stderr_max_bytes :: u64
  oc_structured_output_schema :: "ContentDigest option"
  oc_artifact_classes :: "string bset"
  oc_filesystem_change_roots :: "string bset"

definition output_validate :: "OutputContract \<Rightarrow> unit outcome" where
  "output_validate c =
     seq_checks
       ([fail_if (oc_stdout_max_bytes c > MAX_RESOURCE_BYTES \<or> oc_stderr_max_bytes c > MAX_RESOURCE_BYTES)
           (InvalidField ''output byte limit'' ''exceeds canonical bound''),
         v_identifiers ''artifact classes'' (oc_artifact_classes c) False,
         v_bounded ''filesystem change roots'' (bt_len (oc_filesystem_change_roots c))
           MAX_COLLECTION_ENTRIES]
        @ map (v_relative_path ''filesystem change root'') (bt_keys (oc_filesystem_change_roots c)))"

definition root_within :: "string \<Rightarrow> string \<Rightarrow> bool" where
  "root_within parent_root child_root \<longleftrightarrow>
     child_root = parent_root \<or>
     (case strip_prefix parent_root child_root of
        None \<Rightarrow> False
      | Some suffix \<Rightarrow> take 1 suffix = ''/'')"

definition output_contains :: "OutputContract \<Rightarrow> OutputContract \<Rightarrow> bool" where
  "output_contains c child \<longleftrightarrow>
     oc_stdout_max_bytes child \<le> oc_stdout_max_bytes c \<and>
     oc_stderr_max_bytes child \<le> oc_stderr_max_bytes c \<and>
     (case oc_structured_output_schema child of
        None \<Rightarrow> True
      | Some schema \<Rightarrow> oc_structured_output_schema c = Some schema) \<and>
     bs_subset (oc_artifact_classes child) (oc_artifact_classes c) \<and>
     list_all (\<lambda>child_root.
         list_ex (\<lambda>parent_root. root_within parent_root child_root)
           (bt_keys (oc_filesystem_change_roots c)))
       (bt_keys (oc_filesystem_change_roots child))"

datatype EvidenceProfile = Baseline | Enhanced

record EvidenceContract =
  ev_profile :: EvidenceProfile
  ev_maximum_events :: u64
  ev_maximum_log_bytes :: u64
  ev_retention_ms :: u64

definition evidence_validate :: "EvidenceContract \<Rightarrow> unit outcome" where
  "evidence_validate e =
     fail_if
       (ev_maximum_events e = 0 \<or> ev_maximum_log_bytes e > MAX_RESOURCE_BYTES \<or>
        ev_retention_ms e = 0 \<or> ev_retention_ms e > MAX_DURATION_MS)
       (InvalidField ''Evidence contract'' ''must be positive and within canonical bounds'')"

subsection \<open>Containment is a preorder\<close>

lemma entries_contained_iff:
  "entries_contained within parent child \<longleftrightarrow>
     (\<forall>k v. bt_get child k = Some v \<longrightarrow> (\<exists>u. bt_get parent k = Some u \<and> within u v))"
proof -
  have "(case bt_get parent k of None \<Rightarrow> False | Some u \<Rightarrow> within u v) \<longleftrightarrow>
      (\<exists>u. bt_get parent k = Some u \<and> within u v)" for k v
    by (simp split: option.split)
  then show ?thesis
    by (auto simp: entries_contained_def list_all_iff bt_get_entries [of child])
qed

locale envelope =
  fixes contains :: "'c \<Rightarrow> 'c \<Rightarrow> bool"
  assumes contains_refl: "contains c c"
    and contains_trans: "contains a b \<Longrightarrow> contains b c \<Longrightarrow> contains a c"
begin

lemma chain: "contains a b \<Longrightarrow> contains b c \<Longrightarrow> contains c d \<Longrightarrow> contains a d"
  by (blast intro: contains_trans)

text \<open>Entry-by-entry comparison of maps inherits the preorder.\<close>

lemma entries_refl: "entries_contained contains m m"
  by (simp add: entries_contained_iff contains_refl)

lemma entries_trans:
  assumes "entries_contained contains a b" "entries_contained contains b c"
  shows "entries_contained contains a c"
  unfolding entries_contained_iff
proof (intro allI impI)
  fix k w
  assume "bt_get c k = Some w"
  then obtain v where v: "bt_get b k = Some v" "contains v w"
    using assms(2) unfolding entries_contained_iff by blast
  then obtain u where "bt_get a k = Some u" "contains u v"
    using assms(1) unfolding entries_contained_iff by blast
  with v(2) show "\<exists>u. bt_get a k = Some u \<and> contains u w"
    by (blast intro: contains_trans)
qed

end

interpretation placement_env: envelope placement_contains
  by unfold_locales (auto simp: placement_contains_def intro: bs_subset_trans)

interpretation resources_env: envelope resources_contains
  by unfold_locales (auto simp: resources_contains_def)

interpretation budget_env: envelope budget_contains
  by unfold_locales (auto simp: budget_contains_def)

interpretation grant_env: envelope capability_grant_contains
  by unfold_locales
    (auto simp: capability_grant_contains_def budget_env.contains_refl
      intro: bs_subset_trans budget_env.contains_trans)

interpretation capabilities_env: envelope capabilities_contains
  by unfold_locales
    (auto simp: capabilities_contains_def budget_env.contains_refl grant_env.entries_refl
      intro: budget_env.contains_trans grant_env.entries_trans)

interpretation input_env: envelope input_grant_contains
  by unfold_locales (auto simp: input_grant_contains_def)

interpretation nondeterminism_env: envelope nondeterminism_contains
  by unfold_locales
    (auto simp: nondeterminism_contains_def input_env.entries_refl intro: input_env.entries_trans)

text \<open>A filesystem root contains another when it is equal to it or a path prefix of it.\<close>

lemma root_within_iff: "root_within p c \<longleftrightarrow> c = p \<or> (\<exists>rest. c = p @ ''/'' @ rest)"
proof -
  have "(\<exists>s. strip_prefix p c = Some s \<and> take 1 s = ''/'') \<longleftrightarrow> (\<exists>rest. c = p @ ''/'' @ rest)"
  proof
    assume "\<exists>s. strip_prefix p c = Some s \<and> take 1 s = ''/''"
    then obtain s where s: "c = p @ s" "take 1 s = ''/''" by (auto simp: strip_prefix_Some)
    then have "s = ''/'' @ drop 1 s" using append_take_drop_id [of 1 s] by metis
    with s(1) show "\<exists>rest. c = p @ ''/'' @ rest" by metis
  next
    assume "\<exists>rest. c = p @ ''/'' @ rest"
    then show "\<exists>s. strip_prefix p c = Some s \<and> take 1 s = ''/''"
      by (auto simp: strip_prefix_Some)
  qed
  then show ?thesis by (auto simp: root_within_def split: option.splits)
qed

interpretation root_env: envelope root_within
proof unfold_locales
  fix a b c :: string
  show "root_within c c" by (simp add: root_within_def)
  assume "root_within a b" "root_within b c"
  then show "root_within a c" by (auto simp: root_within_iff)
qed

lemma output_contains_iff:
  "output_contains c child \<longleftrightarrow>
     oc_stdout_max_bytes child \<le> oc_stdout_max_bytes c \<and>
     oc_stderr_max_bytes child \<le> oc_stderr_max_bytes c \<and>
     (\<forall>s. oc_structured_output_schema child = Some s \<longrightarrow> oc_structured_output_schema c = Some s) \<and>
     bs_subset (oc_artifact_classes child) (oc_artifact_classes c) \<and>
     (\<forall>r \<in> bt_dom (oc_filesystem_change_roots child).
        \<exists>q \<in> bt_dom (oc_filesystem_change_roots c). root_within q r)"
  by (simp add: output_contains_def list_all_iff list_ex_iff bt_keys_set split: option.split)

interpretation output_env: envelope output_contains
proof unfold_locales
  fix a b c :: OutputContract
  show "output_contains c c"
    by (auto simp: output_contains_iff intro: root_env.contains_refl)
  assume ab: "output_contains a b" and bc: "output_contains b c"
  have roots: "\<exists>q \<in> bt_dom (oc_filesystem_change_roots a). root_within q r"
    if r: "r \<in> bt_dom (oc_filesystem_change_roots c)" for r
  proof -
    obtain q where q: "q \<in> bt_dom (oc_filesystem_change_roots b)" "root_within q r"
      using bc r unfolding output_contains_iff by blast
    then obtain p where "p \<in> bt_dom (oc_filesystem_change_roots a)" "root_within p q"
      using ab unfolding output_contains_iff by blast
    with q(2) show ?thesis by (blast intro: root_env.contains_trans)
  qed
  have "bs_subset (oc_artifact_classes c) (oc_artifact_classes a)"
    using ab bc bs_subset_trans unfolding output_contains_iff by blast
  with ab bc roots show "output_contains a c"
    unfolding output_contains_iff by (meson order_trans)
qed

subsection \<open>What containment and validation mean\<close>

lemma split_on_join_append:
  "split_on sep (a @ sep # b) = split_on sep a @ split_on sep b"
proof (induction a)
  case (Cons c cs)
  then show ?case
    by (cases "split_on sep cs") auto
qed simp

lemma join_with_split: "join_with sep (split_on sep s) = s"
proof (induction s)
  case (Cons c cs)
  then show ?case
    by (cases "split_on sep cs"; cases "tl (split_on sep cs)") auto
qed simp

lemma join_with_append:
  "as \<noteq> [] \<Longrightarrow> bs \<noteq> [] \<Longrightarrow> join_with sep (as @ bs) = join_with sep as @ sep # join_with sep bs"
proof (induction sep as rule: join_with.induct)
  case (2 sep p)
  then show ?case by (cases bs) auto
qed auto

text \<open>
  C36: the string test by which \<^verbatim>\<open>OutputContract::contains\<close> compares filesystem roots is exactly
  component-wise containment: the components of the parent root are a prefix of the components of
  the child root. In particular \<^verbatim>\<open>out2\<close> is not inside \<^verbatim>\<open>out\<close>.
\<close>

theorem root_within_components:
  "root_within parent_root child_root \<longleftrightarrow>
     (\<exists>below. split_on (CHR ''/'') child_root = split_on (CHR ''/'') parent_root @ below)"
proof
  assume "root_within parent_root child_root"
  then consider "child_root = parent_root"
    | rest where "child_root = parent_root @ CHR ''/'' # rest"
    by (auto simp: root_within_iff)
  then show "\<exists>below. split_on (CHR ''/'') child_root = split_on (CHR ''/'') parent_root @ below"
    by cases (simp_all add: split_on_join_append)
next
  assume "\<exists>below. split_on (CHR ''/'') child_root = split_on (CHR ''/'') parent_root @ below"
  then obtain below where
    below: "split_on (CHR ''/'') child_root = split_on (CHR ''/'') parent_root @ below" ..
  then have "child_root = join_with (CHR ''/'') (split_on (CHR ''/'') parent_root @ below)"
    by (metis join_with_split)
  then show "root_within parent_root child_root"
    by (cases "below = []") (simp_all add: join_with_split join_with_append root_within_iff)
qed

lemma effects_loop_ok:
  "effects_loop capabilities keys ops = Inr () \<longleftrightarrow>
     (\<forall>i d. (i, d) \<in> set ops \<longrightarrow> declaration_validate_against d i capabilities = Inr ()) \<and>
     distinct (map (ee_idempotency_key \<circ> snd) ops) \<and>
     (\<forall>d \<in> snd ` set ops. \<not> bs_mem (ee_idempotency_key d) keys)"
proof (induction capabilities keys ops rule: effects_loop.induct)
  case (2 capabilities keys i d rest)
  show ?case
  proof (cases "declaration_validate_against d i capabilities = Inr () \<and>
      \<not> bs_mem (ee_idempotency_key d) keys")
    case True
    then show ?thesis
      using 2 by (auto simp: image_iff)
  next
    case False
    then show ?thesis by (auto simp: res_simps)
  qed
qed simp

lemma declaration_ok:
  "declaration_validate_against d i capabilities = Inr () \<Longrightarrow>
     i = ee_operation_id d \<and>
     (\<exists>g. bt_get (cc_grants capabilities) (ee_capability_grant_id d) = Some g \<and>
          cg_external_effect_class g = Some (ee_effect_class d))"
  by (auto simp: declaration_validate_against_def res_simps)

text \<open>
  C37: an accepted external-effect contract declares only effects the same Capsule was granted:
  each declaration sits under its own operation identity and names a capability grant of the
  Capsule whose effect class is exactly the declared one, no two declarations share an idempotency
  key, and there are at most as many declarations as the aggregate budget allows.
\<close>

theorem external_effects_admitted:
  assumes "effects_validate_against contract capabilities = Inr ()"
  shows
    "(\<forall>i d. bt_get (ec_operations contract) i = Some d \<longrightarrow>
        i = ee_operation_id d \<and>
        (\<exists>g. bt_get (cc_grants capabilities) (ee_capability_grant_id d) = Some g \<and>
             cg_external_effect_class g = Some (ee_effect_class d))) \<and>
     (\<forall>i d j e. bt_get (ec_operations contract) i = Some d \<and>
        bt_get (ec_operations contract) j = Some e \<and>
        ee_idempotency_key d = ee_idempotency_key e \<longrightarrow> i = j) \<and>
     bt_len (ec_operations contract)
       \<le> unat (cb_maximum_external_effects (cc_aggregate_budget capabilities))"
proof -
  let ?ops = "bt_entries (ec_operations contract)"
  from assms have bound: "bt_len (ec_operations contract) \<le> 1024"
    and size: "try_from_size_or_max (bt_len (ec_operations contract))
       \<le> cb_maximum_external_effects (cc_aggregate_budget capabilities)"
    and valid: "effects_loop capabilities bt_empty ?ops = Inr ()"
    by (auto simp: effects_validate_against_def v_bounded_def MAX_COLLECTION_ENTRIES_def res_simps not_less)
  from size bound have "bt_len (ec_operations contract)
       \<le> unat (cb_maximum_external_effects (cc_aggregate_budget capabilities))"
    by (simp add: word_le_nat_alt unat_try_from_size_or_max)
  moreover have "distinct (map (ee_idempotency_key \<circ> snd) ?ops)"
    and each: "\<And>i d. (i, d) \<in> set ?ops \<Longrightarrow> declaration_validate_against d i capabilities = Inr ()"
    using valid by (auto simp: effects_loop_ok)
  then have "i = j" if "(i, d) \<in> set ?ops" "(j, e) \<in> set ?ops"
      "ee_idempotency_key d = ee_idempotency_key e" for i d j e
    using that by (fastforce simp: distinct_map inj_on_def)
  moreover have "i = ee_operation_id d \<and>
        (\<exists>g. bt_get (cc_grants capabilities) (ee_capability_grant_id d) = Some g \<and>
             cg_external_effect_class g = Some (ee_effect_class d))" if "(i, d) \<in> set ?ops" for i d
    using each [OF that] by (rule declaration_ok)
  ultimately show ?thesis
    by (simp add: bt_get_entries [of "ec_operations contract"]) blast
qed

definition example_digest :: "char \<Rightarrow> ContentDigest" where
  "example_digest c = ContentDigest (''sha256:'' @ replicate 64 c)"

definition example_grant :: CapabilityGrant where
  "example_grant =
     \<lparr>cg_class = ''http'', cg_resource = ''api'', cg_operations = bs_of_list [''post''],
      cg_destinations = bs_of_list [''eu''], cg_external_effect_class = Some ''deploy'',
      cg_budget = \<lparr>cb_maximum_calls = 4, cb_maximum_request_bytes = 64,
        cb_maximum_response_bytes = 64, cb_maximum_external_effects = 2\<rparr>,
      cg_constraints_digest = example_digest CHR ''a''\<rparr>"

definition example_capabilities :: CapabilityContract where
  "example_capabilities =
     \<lparr>cc_grants = bt_insert ''cap'' example_grant bt_empty, cc_aggregate_budget = cg_budget example_grant\<rparr>"

definition example_effects :: ExternalEffectContract where
  "example_effects =
     \<lparr>ec_operations = bt_insert ''op''
        \<lparr>ee_operation_id = ''op'', ee_idempotency_key = ''k'', ee_capability_grant_id = ''cap'',
         ee_effect_class = ''deploy'', ee_destination_digest = example_digest CHR ''b'',
         ee_idempotency_contract_digest = example_digest CHR ''c'',
         ee_bounded_request_digest = example_digest CHR ''d''\<rparr> bt_empty\<rparr>"

lemmas example_contracts =
  example_grant_def example_capabilities_def example_effects_def

theorem external_effects_admitted_witness:
  "effects_validate_against example_effects example_capabilities = Inr () \<and>
   bt_get (ec_operations example_effects) ''op'' \<noteq> None \<and> bt_len (ec_operations example_effects) \<le> 2"
proof -
  have ok: "effects_validate_against example_effects example_capabilities = Inr ()"
    by (simp add: example_contracts effects_validate_against_def declaration_validate_against_def
        v_identifier_def v_bounded_def is_ascii_control_def MAX_IDENTIFIER_BYTES_def
        MAX_COLLECTION_ENTRIES_def try_from_size_or_max_def try_from_size_def res_simps
        bt_len_def less_eq_char_def)
  show ?thesis
    using ok external_effects_admitted [OF ok] by (simp add: example_contracts)
qed

end
