(* ===== verification/Canonical.thy ===== *)
theory Canonical
  imports Exec_Validation "HOL-Library.Multiset"
begin

text \<open>
  \<^verbatim>\<open>crates/execution/src/canonical.rs\<close>: canonical JSON and the digests taken over it. A JSON object is the
  list of its members in the order the encoder gives them; \<open>canonicalize\<close> rebuilds every object in
  key order. The serializers of \<^verbatim>\<open>serde\<close> (one per type), the byte encoder of \<^verbatim>\<open>serde_json\<close>, SHA-256
  and the hexadecimal encoder are other packages: they are fields of the record \<open>canon\<close>, which the
  components extend with the serializers of their own types.
\<close>

datatype json =
    JNull
  | JBool bool
  | JNumber int
  | JString string
  | JArray "json list"
  | JObject "(string \<times> json) list"

text \<open>Collecting members into a \<^verbatim>\<open>BTreeMap\<close> and listing the map again.\<close>

definition sort_members :: "(string \<times> 'v) list \<Rightarrow> (string \<times> 'v) list" where
  "sort_members kvs = foldl (\<lambda>acc (k, v). al_insert k v acc) [] kvs"

function canonicalize :: "json \<Rightarrow> json" where
  "canonicalize (JArray vs) = JArray (map canonicalize vs)"
| "canonicalize (JObject kvs) = JObject (sort_members (map (\<lambda>kv. (fst kv, canonicalize (snd kv))) kvs))"
| "canonicalize JNull = JNull"
| "canonicalize (JBool b) = JBool b"
| "canonicalize (JNumber n) = JNumber n"
| "canonicalize (JString s) = JString s"
  by pat_completeness auto

lemma member_size: "kv \<in> set kvs \<Longrightarrow> size (snd kv) < Suc (size_list (size_prod (\<lambda>_. 0) size) kvs)"
  by (induction kvs) auto

termination canonicalize
  by (relation "measure size") (auto simp: less_Suc_eq_le size_list_estimation' dest: member_size)

record canon =
  cn_to_vec :: "json \<Rightarrow> (string, u8 list) result"
  cn_sha :: "u8 list \<Rightarrow> u8 list"
  cn_hex_encode :: "u8 list \<Rightarrow> string"

definition canonical_bytes ::
    "('z) canon_scheme \<Rightarrow> ('a \<Rightarrow> (string, json) result) \<Rightarrow> 'a \<Rightarrow> u8 list outcome" where
  "canonical_bytes C to_value x =
     res_bind (map_err CanonicalJson (to_value x)) (\<lambda>j.
       map_err CanonicalJson (cn_to_vec C (canonicalize j)))"

definition canonical_digest ::
    "('z) canon_scheme \<Rightarrow> ('a \<Rightarrow> (string, json) result) \<Rightarrow> 'a \<Rightarrow> ContentDigest outcome" where
  "canonical_digest C to_value x =
     res_bind (canonical_bytes C to_value x) (\<lambda>bytes. Inr (sha256 (cn_sha C) (cn_hex_encode C) bytes))"

subsection \<open>The canonical form identifies documents up to member order\<close>

text \<open>
  Two documents are the same when one is reached from the other by reordering the members of
  objects, at any depth.
\<close>

inductive same_json :: "json \<Rightarrow> json \<Rightarrow> bool" where
  same_refl: "same_json j j"
| same_sym: "same_json a b \<Longrightarrow> same_json b a"
| same_trans: "same_json a b \<Longrightarrow> same_json b c \<Longrightarrow> same_json a c"
| same_array: "list_all2 same_json vs ws \<Longrightarrow> same_json (JArray vs) (JArray ws)"
| same_members:
    "list_all2 (\<lambda>kv lw. fst kv = fst lw \<and> same_json (snd kv) (snd lw)) kvs lws
     \<Longrightarrow> same_json (JObject kvs) (JObject lws)"
| same_reorder:
    "distinct (map fst kvs) \<Longrightarrow> mset kvs = mset lws \<Longrightarrow> same_json (JObject kvs) (JObject lws)"

fun members_distinct :: "json \<Rightarrow> bool" where
  "members_distinct (JArray vs) = (\<forall>v\<in>set vs. members_distinct v)"
| "members_distinct (JObject kvs) =
     (distinct (map fst kvs) \<and> (\<forall>kv\<in>set kvs. members_distinct (snd kv)))"
| "members_distinct _ = True"

lemma sort_members_fold:
  "sorted_wrt (<) (map fst acc) \<Longrightarrow>
     sorted_wrt (<) (map fst (foldl (\<lambda>acc (k, v). al_insert k v acc) acc kvs)) \<and>
     map_of (foldl (\<lambda>acc (k, v). al_insert k v acc) acc kvs) = map_of acc ++ map_of (rev kvs)"
proof (induction kvs arbitrary: acc)
  case (Cons kv kvs)
  obtain k v where kv: "kv = (k, v)" by force
  have "sorted_wrt (<) (map fst (al_insert k v acc))"
    using Cons.prems by (rule sorted_al_insert)
  from Cons.IH [OF this] show ?case
    by (simp add: kv map_of_al_insert map_add_def fun_eq_iff split: option.split)
qed simp

lemma sort_members_sorted: "sorted_wrt (<) (map fst (sort_members kvs))"
  using sort_members_fold [of "[]" kvs] by (simp add: sort_members_def)

lemma map_of_sort_members:
  "distinct (map fst kvs) \<Longrightarrow> map_of (sort_members kvs) = map_of kvs"
proof -
  assume d: "distinct (map fst kvs)"
  then have "map_of (rev kvs) = map_of kvs"
    using map_of_inject_set [of "rev kvs" kvs] by (simp add: rev_map [symmetric])
  then show ?thesis
    using sort_members_fold [of "[]" kvs] by (simp add: sort_members_def)
qed

lemma mset_sort_members:
  assumes "distinct (map fst kvs)"
  shows "mset (sort_members kvs) = mset kvs"
proof -
  have d: "distinct (map fst (sort_members kvs))"
    by (rule sorted_keys_distinct [OF sort_members_sorted])
  have "set (sort_members kvs) = set kvs"
    using map_of_inject_set [OF d assms] map_of_sort_members [OF assms] by simp
  then show ?thesis
    using d assms by (simp add: set_eq_iff_mset_eq_distinct distinct_map)
qed

lemma sort_members_reorder:
  assumes "distinct (map fst kvs)" "mset kvs = mset lws"
  shows "sort_members kvs = sort_members lws"
proof -
  have "mset (map fst kvs) = mset (map fst lws)"
    using assms(2) by simp
  then have d: "distinct (map fst lws)"
    using assms(1) by (metis mset_eq_imp_distinct_iff)
  have "map_of kvs = map_of lws"
    using map_of_inject_set [OF assms(1) d] mset_eq_setD [OF assms(2)] by simp
  then show ?thesis
    using assms(1) d
    by (intro sorted_map_of_inject sort_members_sorted) (simp add: map_of_sort_members)
qed

lemma same_json_canonicalize: "same_json a b \<Longrightarrow> canonicalize a = canonicalize b"
proof (induction rule: same_json.induct)
  case (same_array vs ws)
  then have "map canonicalize vs = map canonicalize ws"
    by (induction rule: list_all2_induct) auto
  then show ?case by simp
next
  case (same_members kvs lws)
  then have "map (\<lambda>kv. (fst kv, canonicalize (snd kv))) kvs =
      map (\<lambda>kv. (fst kv, canonicalize (snd kv))) lws"
    by (induction rule: list_all2_induct) auto
  then show ?case by simp
next
  case (same_reorder kvs lws)
  let ?f = "\<lambda>kv :: string \<times> json. (fst kv, canonicalize (snd kv))"
  have "sort_members (map ?f kvs) = sort_members (map ?f lws)"
    using same_reorder by (intro sort_members_reorder) (simp_all add: comp_def)
  then show ?case by simp
qed simp_all

lemma canonicalize_same: "members_distinct a \<Longrightarrow> same_json a (canonicalize a)"
proof (induction a rule: canonicalize.induct)
  case (1 vs)
  then show ?case
    by (auto intro!: same_array simp: list_all2_conv_all_nth)
next
  case (2 kvs)
  let ?f = "\<lambda>kv :: string \<times> json. (fst kv, canonicalize (snd kv))"
  have "same_json (JObject kvs) (JObject (map ?f kvs))"
    using 2 by (intro same_members) (simp add: list_all2_conv_all_nth)
  moreover have "same_json (JObject (map ?f kvs)) (JObject (sort_members (map ?f kvs)))"
    using 2 by (intro same_reorder) (simp_all add: comp_def mset_sort_members)
  ultimately show ?case by (auto intro: same_trans)
qed (auto intro: same_refl)

text \<open>
  C38: canonical JSON identifies documents exactly up to the order of object members: documents
  whose members have distinct names get the same canonical form just when one is a reordering of
  the other, and canonicalizing twice changes nothing.
\<close>

theorem canonical_form_exact:
  assumes "members_distinct a" "members_distinct b"
  shows "(canonicalize a = canonicalize b \<longleftrightarrow> same_json a b) \<and>
    canonicalize (canonicalize a) = canonicalize a"
proof -
  have "same_json a b" if "canonicalize a = canonicalize b"
    using canonicalize_same [OF assms(1)] canonicalize_same [OF assms(2)] that
    by (metis same_sym same_trans)
  moreover have "canonicalize (canonicalize a) = canonicalize a"
    using canonicalize_same [OF assms(1)] by (metis same_json_canonicalize)
  ultimately show ?thesis
    by (auto dest: same_json_canonicalize)
qed

theorem canonical_form_exact_witness:
  "same_json (JObject [(''b'', JNull), (''a'', JObject [(''y'', JBool True), (''x'', JNull)])])
     (JObject [(''a'', JObject [(''x'', JNull), (''y'', JBool True)]), (''b'', JNull)])"
proof -
  let ?a = "JObject [(''b'', JNull), (''a'', JObject [(''y'', JBool True), (''x'', JNull)])]"
  let ?b = "JObject [(''a'', JObject [(''x'', JNull), (''y'', JBool True)]), (''b'', JNull)]"
  have "canonicalize ?a = canonicalize ?b" by code_simp
  then show ?thesis
    using canonical_form_exact [of ?a ?b] by simp
qed

end
