(* ===== verification/Program_Runtime.thy ===== *)
theory Program_Runtime
  imports Canonical
begin

text \<open>
  \<^verbatim>\<open>crates/execution/src/program.rs\<close> and \<^verbatim>\<open>runtime.rs\<close>: the identity of the executable input and the
  exact runtime compatibility tuple, with the rules that close the optional parts by kind and
  family. Their digests are those of \<open>Canonical\<close> over the serializers of the two types.
\<close>

subsection \<open>Runtime profiles\<close>

datatype RuntimeFamily = WasmtimeComponent | FirecrackerMicrovm | RootlessOci | OciInMicrovm | Native

datatype OperatingSystem = Linux | Windows | Macos

datatype Architecture = Amd64 | Arm64

record RuntimePlatform =
  rp_operating_system :: OperatingSystem
  rp_architecture :: Architecture
  rp_cpu_feature_floor :: "string bset"

record RuntimeComponents =
  rc_engine :: "ContentDigest option"
  rc_vmm :: "ContentDigest option"
  rc_container_runtime :: "ContentDigest option"
  rc_kernel :: "ContentDigest option"
  rc_rootfs :: "ContentDigest option"
  rc_guest :: "ContentDigest option"
  rc_compiler :: "ContentDigest option"

record RuntimeCompatibilityProfile =
  rt_schema_version :: u32
  rt_family :: RuntimeFamily
  rt_implementation_generation :: string
  rt_platform :: RuntimePlatform
  rt_components :: RuntimeComponents
  rt_program_abi :: string
  rt_wit_world :: "string option"
  rt_syscall_contract :: string
  rt_memory_model :: string
  rt_task_model :: string
  rt_filesystem_model :: string
  rt_network_model :: string
  rt_device_model :: string
  rt_aot_compatibility :: "ContentDigest option"
  rt_snapshot_compatibility :: "ContentDigest option"
  rt_mitigation_profile :: string
  rt_capability_adapter_generation :: string
  rt_guest_protocol_generation :: string
  rt_security_patch_generation :: u64
  rt_revocation_generation :: u64

definition RUNTIME_PROFILE_SCHEMA_VERSION :: u32 where
  "RUNTIME_PROFILE_SCHEMA_VERSION = 1"

definition is_some :: "'a option \<Rightarrow> bool" where
  "is_some x = (case x of None \<Rightarrow> False | Some _ \<Rightarrow> True)"

definition is_none :: "'a option \<Rightarrow> bool" where
  "is_none x = (case x of None \<Rightarrow> True | Some _ \<Rightarrow> False)"

definition family_components_valid :: "RuntimeCompatibilityProfile \<Rightarrow> bool" where
  "family_components_valid p =
     (let c = rt_components p in
      case rt_family p of
        WasmtimeComponent \<Rightarrow>
          is_some (rc_engine c) \<and> is_none (rc_vmm c) \<and> is_none (rc_container_runtime c) \<and>
          is_none (rc_kernel c) \<and> is_none (rc_rootfs c) \<and> is_none (rc_guest c) \<and>
          is_some (rt_wit_world p)
      | FirecrackerMicrovm \<Rightarrow>
          is_none (rc_engine c) \<and> is_some (rc_vmm c) \<and> is_none (rc_container_runtime c) \<and>
          is_some (rc_kernel c) \<and> is_some (rc_rootfs c) \<and> is_some (rc_guest c) \<and>
          is_none (rt_wit_world p)
      | RootlessOci \<Rightarrow>
          is_none (rc_engine c) \<and> is_none (rc_vmm c) \<and> is_some (rc_container_runtime c) \<and>
          is_some (rc_kernel c) \<and> is_some (rc_rootfs c) \<and> is_none (rc_guest c) \<and>
          is_none (rt_wit_world p)
      | OciInMicrovm \<Rightarrow>
          is_none (rc_engine c) \<and> is_some (rc_vmm c) \<and> is_some (rc_container_runtime c) \<and>
          is_some (rc_kernel c) \<and> is_some (rc_rootfs c) \<and> is_some (rc_guest c) \<and>
          is_none (rt_wit_world p)
      | Native \<Rightarrow>
          is_none (rc_engine c) \<and> is_none (rc_vmm c) \<and> is_none (rc_container_runtime c) \<and>
          is_some (rc_kernel c) \<and> is_none (rc_guest c) \<and> is_none (rt_wit_world p))"

definition validate_family_components :: "RuntimeCompatibilityProfile \<Rightarrow> unit outcome" where
  "validate_family_components p =
     seq_checks
       [fail_if (\<not> family_components_valid p)
          (InvalidField ''runtime components''
             ''required or inapplicable components do not match the runtime family''),
        (case rt_wit_world p of
           None \<Rightarrow> Inr ()
         | Some wit_world \<Rightarrow> v_identifier ''WIT world'' wit_world)]"

definition runtime_validate :: "RuntimeCompatibilityProfile \<Rightarrow> unit outcome" where
  "runtime_validate p =
     seq_checks
       ([v_schema ''runtime profile schema version'' (rt_schema_version p) RUNTIME_PROFILE_SCHEMA_VERSION]
        @ map (v_identifier ''runtime compatibility field'')
          [rt_implementation_generation p, rt_program_abi p, rt_syscall_contract p, rt_memory_model p,
           rt_task_model p, rt_filesystem_model p, rt_network_model p, rt_device_model p,
           rt_mitigation_profile p, rt_capability_adapter_generation p, rt_guest_protocol_generation p]
        @ [v_identifiers ''CPU feature floor'' (rp_cpu_feature_floor (rt_platform p)) False,
           fail_if (rt_security_patch_generation p = 0 \<or> rt_revocation_generation p = 0)
             (InvalidField ''runtime security generation'' ''must be greater than zero''),
           validate_family_components p])"

subsection \<open>Programs\<close>

datatype ProgramKind =
    SourceTree | Script | Command | WasmComponent | OciImage | NativeExecutable | FilesystemTree

fun kind_rank :: "ProgramKind \<Rightarrow> nat" where
  "kind_rank SourceTree = 0" | "kind_rank Script = 1" | "kind_rank Command = 2"
| "kind_rank WasmComponent = 3" | "kind_rank OciImage = 4" | "kind_rank NativeExecutable = 5"
| "kind_rank FilesystemTree = 6"

lemma kind_rank_inject: "kind_rank a = kind_rank b \<Longrightarrow> a = b"
  by (cases a; cases b) simp_all

instantiation ProgramKind :: linorder
begin

definition less_eq_ProgramKind :: "ProgramKind \<Rightarrow> ProgramKind \<Rightarrow> bool" where
  "less_eq_ProgramKind a b \<longleftrightarrow> kind_rank a \<le> kind_rank b"

definition less_ProgramKind :: "ProgramKind \<Rightarrow> ProgramKind \<Rightarrow> bool" where
  "less_ProgramKind a b \<longleftrightarrow> kind_rank a < kind_rank b"

instance
  by intro_classes
    (auto simp: less_eq_ProgramKind_def less_ProgramKind_def intro: kind_rank_inject)

end

record ProgramSignatureIdentity =
  ps_signer_identity :: string
  ps_signature_algorithm :: string
  ps_signing_key_id :: ContentDigest
  ps_signature_digest :: ContentDigest
  ps_provenance_digest :: ContentDigest

definition signature_validate :: "ProgramSignatureIdentity \<Rightarrow> unit outcome" where
  "signature_validate s =
     seq_checks
       [v_identifier ''Program signer identity'' (ps_signer_identity s),
        v_identifier ''Program signature algorithm'' (ps_signature_algorithm s)]"

record ProgramPlatform =
  pp_operating_system :: OperatingSystem
  pp_architecture :: Architecture

record ProgramIdentity =
  pi_schema_version :: u32
  pi_kind :: ProgramKind
  pi_content_digest :: ContentDigest
  pi_resolver_digest :: ContentDigest
  pi_media_type :: string
  pi_entrypoint :: "string list"
  pi_signature :: "ProgramSignatureIdentity option"
  pi_platform :: "ProgramPlatform option"
  pi_compatibility_metadata :: "(string, ContentDigest) btree"

definition PROGRAM_IDENTITY_SCHEMA_VERSION :: u32 where
  "PROGRAM_IDENTITY_SCHEMA_VERSION = 1"

definition signed_executable :: "ProgramKind \<Rightarrow> bool" where
  "signed_executable kind = (kind \<in> {WasmComponent, OciImage, NativeExecutable})"

definition platform_required :: "ProgramKind \<Rightarrow> bool" where
  "platform_required kind = (kind \<in> {OciImage, NativeExecutable})"

definition program_validate :: "ProgramIdentity \<Rightarrow> unit outcome" where
  "program_validate p =
     seq_checks
       ([v_schema ''Program schema version'' (pi_schema_version p) PROGRAM_IDENTITY_SCHEMA_VERSION,
         v_text ''Program media type'' (pi_media_type p),
         fail_if
           (CHR ''/'' \<notin> set (pi_media_type p) \<or>
            CHR '' '' \<in> set (pi_media_type p) \<or> CHR ''*'' \<in> set (pi_media_type p))
           (InvalidField ''Program media type'' ''must be an exact media type''),
         v_bounded ''Program entrypoint'' (length (pi_entrypoint p)) MAX_ARGUMENTS,
         fail_if (case pi_entrypoint p of [] \<Rightarrow> False | first # _ \<Rightarrow> first = [])
           (InvalidField ''Program entrypoint'' ''the executable entry must not be empty'')]
        @ map (v_argument ''Program entrypoint value'') (pi_entrypoint p)
        @ [v_bounded ''Program compatibility metadata'' (bt_len (pi_compatibility_metadata p))
             MAX_COLLECTION_ENTRIES]
        @ map (v_identifier ''Program compatibility metadata key'') (bt_keys (pi_compatibility_metadata p))
        @ [(case pi_signature p of None \<Rightarrow> Inr () | Some signature \<Rightarrow> signature_validate signature),
           fail_if
             ((signed_executable (pi_kind p) \<and>
               (is_none (pi_signature p) \<or> bt_len (pi_compatibility_metadata p) = 0)) \<or>
              platform_required (pi_kind p) \<noteq> is_some (pi_platform p) \<or>
              (pi_kind p = WasmComponent \<and> is_some (pi_platform p)))
             (InvalidField ''Program signature, platform, or compatibility metadata''
                ''must match the exact resolved Program kind'')])"

subsection \<open>Digests\<close>

record canon_program = canon +
  ser_program :: "ProgramIdentity \<Rightarrow> (string, json) result"
  ser_runtime :: "RuntimeCompatibilityProfile \<Rightarrow> (string, json) result"

definition program_canonical_bytes ::
    "('z) canon_program_scheme \<Rightarrow> ProgramIdentity \<Rightarrow> u8 list outcome" where
  "program_canonical_bytes C p =
     res_bind (program_validate p) (\<lambda>_. canonical_bytes C (ser_program C) p)"

definition program_digest ::
    "('z) canon_program_scheme \<Rightarrow> ProgramIdentity \<Rightarrow> ContentDigest outcome" where
  "program_digest C p = res_bind (program_validate p) (\<lambda>_. canonical_digest C (ser_program C) p)"

definition runtime_canonical_bytes ::
    "('z) canon_program_scheme \<Rightarrow> RuntimeCompatibilityProfile \<Rightarrow> u8 list outcome" where
  "runtime_canonical_bytes C p =
     res_bind (runtime_validate p) (\<lambda>_. canonical_bytes C (ser_runtime C) p)"

definition runtime_digest ::
    "('z) canon_program_scheme \<Rightarrow> RuntimeCompatibilityProfile \<Rightarrow> ContentDigest outcome" where
  "runtime_digest C p = res_bind (runtime_validate p) (\<lambda>_. canonical_digest C (ser_runtime C) p)"

subsection \<open>Optional parts are closed by kind and family\<close>

lemma is_none_iff [simp]: "is_none x \<longleftrightarrow> x = None"
  by (simp add: is_none_def split: option.split)

lemma is_some_iff [simp]: "is_some x \<longleftrightarrow> x \<noteq> None"
  by (simp add: is_some_def split: option.split)

lemma runtime_validate_family: "runtime_validate p = Inr () \<Longrightarrow> family_components_valid p"
  by (auto simp: runtime_validate_def validate_family_components_def res_simps)

definition component_shape :: "RuntimeCompatibilityProfile \<Rightarrow> bool list" where
  "component_shape p =
     (let c = rt_components p in
      [is_some (rc_engine c), is_some (rc_vmm c), is_some (rc_container_runtime c),
       is_some (rc_kernel c), is_some (rc_guest c), is_some (rt_wit_world p)])"

lemma family_shape:
  assumes "family_components_valid p"
  shows "component_shape p =
     (case rt_family p of
        WasmtimeComponent \<Rightarrow> [True, False, False, False, False, True]
      | FirecrackerMicrovm \<Rightarrow> [False, True, False, True, True, False]
      | RootlessOci \<Rightarrow> [False, False, True, True, False, False]
      | OciInMicrovm \<Rightarrow> [False, True, True, True, True, False]
      | Native \<Rightarrow> [False, False, False, True, False, False])"
  using assms
  by (cases "rt_family p") (simp_all add: family_components_valid_def component_shape_def Let_def)

text \<open>
  The components of an accepted runtime profile determine its family. No profile can be
  presented under another family (a bare OCI container as one inside a microVM, a native process
  as a container) without changing which component digests it carries.
\<close>

theorem runtime_family_determined:
  assumes "runtime_validate p = Inr ()" "runtime_validate q = Inr ()"
    and "component_shape p = component_shape q"
  shows "rt_family p = rt_family q"
  using assms(3) family_shape [OF runtime_validate_family [OF assms(1)]]
    family_shape [OF runtime_validate_family [OF assms(2)]]
  by (cases "rt_family p"; cases "rt_family q") simp_all

definition example_runtime :: RuntimeCompatibilityProfile where
  "example_runtime =
     \<lparr>rt_schema_version = 1, rt_family = Native, rt_implementation_generation = ''g1'',
      rt_platform = \<lparr>rp_operating_system = Linux, rp_architecture = Amd64, rp_cpu_feature_floor = bt_empty\<rparr>,
      rt_components = \<lparr>rc_engine = None, rc_vmm = None, rc_container_runtime = None,
        rc_kernel = Some (ContentDigest ''k''), rc_rootfs = None, rc_guest = None, rc_compiler = None\<rparr>,
      rt_program_abi = ''elf'', rt_wit_world = None, rt_syscall_contract = ''s'', rt_memory_model = ''m'',
      rt_task_model = ''t'', rt_filesystem_model = ''f'', rt_network_model = ''n'', rt_device_model = ''d'',
      rt_aot_compatibility = None, rt_snapshot_compatibility = None, rt_mitigation_profile = ''p'',
      rt_capability_adapter_generation = ''a'', rt_guest_protocol_generation = ''q'',
      rt_security_patch_generation = 1, rt_revocation_generation = 1\<rparr>"

lemma example_runtime_valid: "runtime_validate example_runtime = Inr ()"
  by (simp add: example_runtime_def runtime_validate_def validate_family_components_def
      family_components_valid_def v_schema_def v_identifier_def v_identifiers_def v_bounded_def
      is_ascii_control_def less_eq_char_def MAX_IDENTIFIER_BYTES_def MAX_COLLECTION_ENTRIES_def
      RUNTIME_PROFILE_SCHEMA_VERSION_def bt_len_def bt_keys_def res_simps)

theorem runtime_family_determined_witness:
  "rt_family example_runtime = rt_family (example_runtime\<lparr>rt_security_patch_generation := 2\<rparr>)"
proof (rule runtime_family_determined)
  show "runtime_validate (example_runtime\<lparr>rt_security_patch_generation := 2\<rparr>) = Inr ()"
    using example_runtime_valid
    by (simp add: example_runtime_def runtime_validate_def validate_family_components_def
        family_components_valid_def res_simps)
qed (simp_all add: example_runtime_valid component_shape_def Let_def)

definition example_program :: ProgramIdentity where
  "example_program =
     \<lparr>pi_schema_version = 1, pi_kind = OciImage, pi_content_digest = ContentDigest ''c'',
      pi_resolver_digest = ContentDigest ''r'', pi_media_type = ''a/b'', pi_entrypoint = [''sh''],
      pi_signature = Some \<lparr>ps_signer_identity = ''s'', ps_signature_algorithm = ''ed25519'',
        ps_signing_key_id = ContentDigest ''k'', ps_signature_digest = ContentDigest ''d'',
        ps_provenance_digest = ContentDigest ''p''\<rparr>,
      pi_platform = Some \<lparr>pp_operating_system = Linux, pp_architecture = Arm64\<rparr>,
      pi_compatibility_metadata = bt_insert ''abi'' (ContentDigest ''m'') bt_empty\<rparr>"

lemma example_program_valid: "program_validate example_program = Inr ()"
  by (simp add: example_program_def program_validate_def signature_validate_def signed_executable_def
      platform_required_def v_schema_def v_identifier_def v_text_def v_argument_def v_bounded_def
      is_ascii_control_def less_eq_char_def MAX_IDENTIFIER_BYTES_def MAX_COLLECTION_ENTRIES_def
      MAX_ARGUMENTS_def MAX_TEXT_BYTES_def PROGRAM_IDENTITY_SCHEMA_VERSION_def bt_len_def
      bt_keys_def res_simps)

end
