(* ===== verification/Seals.thy ===== *)
theory Seals
  imports Program_Runtime
begin

text \<open>
  \<^verbatim>\<open>crates/execution/src/seal.rs\<close> and the approval subject of \<^verbatim>\<open>capsule.rs\<close>: the signed authorization
  artifact over one exact subject. The algorithm-specific verifier
  (\<^verbatim>\<open>trait SealSignatureVerifier\<close>) is supplied by the trust boundary and is an argument here.
\<close>

datatype CapsuleKind = Kind_Execution | Kind_Session

definition EXECUTION_CAPSULE_SCHEMA_VERSION :: u32 where
  "EXECUTION_CAPSULE_SCHEMA_VERSION = 1"

record ApprovalSubject =
  as_schema_version :: u32
  as_capsule_kind :: CapsuleKind
  as_capsule_digest :: ContentDigest
  as_policy_digest :: ContentDigest
  as_authority_context_digest :: ContentDigest

record Seal =
  sl_schema_version :: u32
  sl_approval_subject_digest :: ContentDigest
  sl_capsule_kind :: CapsuleKind
  sl_capsule_digest :: ContentDigest
  sl_signer_identity :: string
  sl_authority_identity :: string
  sl_issued_unix_ms :: u64
  sl_expires_unix_ms :: u64
  sl_revocation_generation :: u64
  sl_signature_algorithm :: string
  sl_signing_key_id :: ContentDigest
  sl_signature :: "u8 list"

record SealSigningPayload =
  sp_schema_version :: u32
  sp_approval_subject_digest :: ContentDigest
  sp_capsule_kind :: CapsuleKind
  sp_capsule_digest :: ContentDigest
  sp_signer_identity :: string
  sp_authority_identity :: string
  sp_issued_unix_ms :: u64
  sp_expires_unix_ms :: u64
  sp_revocation_generation :: u64
  sp_signature_algorithm :: string
  sp_signing_key_id :: ContentDigest

definition payload_from :: "Seal \<Rightarrow> SealSigningPayload" where
  "payload_from seal =
     \<lparr>sp_schema_version = sl_schema_version seal,
      sp_approval_subject_digest = sl_approval_subject_digest seal,
      sp_capsule_kind = sl_capsule_kind seal,
      sp_capsule_digest = sl_capsule_digest seal,
      sp_signer_identity = sl_signer_identity seal,
      sp_authority_identity = sl_authority_identity seal,
      sp_issued_unix_ms = sl_issued_unix_ms seal,
      sp_expires_unix_ms = sl_expires_unix_ms seal,
      sp_revocation_generation = sl_revocation_generation seal,
      sp_signature_algorithm = sl_signature_algorithm seal,
      sp_signing_key_id = sl_signing_key_id seal\<rparr>"

record canon_seal = canon_program +
  ser_subject :: "ApprovalSubject \<Rightarrow> (string, json) result"
  ser_seal :: "Seal \<Rightarrow> (string, json) result"
  ser_payload :: "SealSigningPayload \<Rightarrow> (string, json) result"

definition subject_validate :: "ApprovalSubject \<Rightarrow> unit outcome" where
  "subject_validate s =
     v_schema ''approval subject schema version'' (as_schema_version s) EXECUTION_CAPSULE_SCHEMA_VERSION"

definition subject_canonical_bytes ::
    "('z) canon_seal_scheme \<Rightarrow> ApprovalSubject \<Rightarrow> u8 list outcome" where
  "subject_canonical_bytes C s =
     res_bind (subject_validate s) (\<lambda>_. canonical_bytes C (ser_subject C) s)"

definition subject_digest :: "('z) canon_seal_scheme \<Rightarrow> ApprovalSubject \<Rightarrow> ContentDigest outcome" where
  "subject_digest C s = res_bind (subject_validate s) (\<lambda>_. canonical_digest C (ser_subject C) s)"

definition SEAL_SCHEMA_VERSION :: u32 where
  "SEAL_SCHEMA_VERSION = 1"

definition MIN_SEAL_SIGNATURE_BYTES :: nat where
  "MIN_SEAL_SIGNATURE_BYTES = 32"

definition MAX_SEAL_SIGNATURE_BYTES :: nat where
  "MAX_SEAL_SIGNATURE_BYTES = 16 * 1024"

definition MAX_SEAL_LIFETIME_MS :: u64 where
  "MAX_SEAL_LIFETIME_MS = 365 * 24 * 60 * 60 * 1000"

definition seal_validate_unsigned :: "Seal \<Rightarrow> unit outcome" where
  "seal_validate_unsigned s =
     seq_checks
       [v_schema ''Seal schema version'' (sl_schema_version s) SEAL_SCHEMA_VERSION,
        v_identifier ''Seal signer identity'' (sl_signer_identity s),
        v_identifier ''Seal authority identity'' (sl_authority_identity s),
        v_identifier ''Seal signature algorithm'' (sl_signature_algorithm s),
        fail_if
          (sl_issued_unix_ms s \<ge> sl_expires_unix_ms s \<or>
           saturating_sub (sl_expires_unix_ms s) (sl_issued_unix_ms s) > MAX_SEAL_LIFETIME_MS)
          (InvalidField ''Seal validity window''
             ''expiry must follow issuance within the maximum lifetime''),
        fail_if (sl_revocation_generation s = 0)
          (InvalidField ''Seal revocation generation'' ''must be greater than zero'')]"

definition seal_validate :: "Seal \<Rightarrow> unit outcome" where
  "seal_validate s =
     seq_checks
       [seal_validate_unsigned s,
        fail_if
          (\<not> (MIN_SEAL_SIGNATURE_BYTES \<le> length (sl_signature s) \<and>
              length (sl_signature s) \<le> MAX_SEAL_SIGNATURE_BYTES))
          (InvalidField ''Seal signature'' ''must be present and within the canonical byte bound'')]"

definition seal_signing_bytes :: "('z) canon_seal_scheme \<Rightarrow> Seal \<Rightarrow> u8 list outcome" where
  "seal_signing_bytes C s =
     res_bind (seal_validate_unsigned s) (\<lambda>_. canonical_bytes C (ser_payload C) (payload_from s))"

definition seal_canonical_bytes :: "('z) canon_seal_scheme \<Rightarrow> Seal \<Rightarrow> u8 list outcome" where
  "seal_canonical_bytes C s = res_bind (seal_validate s) (\<lambda>_. canonical_bytes C (ser_seal C) s)"

definition seal_digest :: "('z) canon_seal_scheme \<Rightarrow> Seal \<Rightarrow> ContentDigest outcome" where
  "seal_digest C s = res_bind (seal_validate s) (\<lambda>_. canonical_digest C (ser_seal C) s)"

definition seal_validate_for_subject ::
    "('z) canon_seal_scheme \<Rightarrow> (Seal \<Rightarrow> u8 list \<Rightarrow> bool) \<Rightarrow> Seal \<Rightarrow> ApprovalSubject \<Rightarrow> u64 \<Rightarrow> u64
     \<Rightarrow> unit outcome" where
  "seal_validate_for_subject C verify_signature s subject now_unix_ms current_revocation_generation =
     res_bind (seal_validate s) (\<lambda>_.
     res_bind (subject_validate subject) (\<lambda>_.
     res_bind (subject_digest C subject) (\<lambda>digest.
     res_bind
       (seq_checks
         [fail_if
            (sl_approval_subject_digest s \<noteq> digest \<or>
             sl_capsule_kind s \<noteq> as_capsule_kind subject \<or>
             sl_capsule_digest s \<noteq> as_capsule_digest subject) SealSubjectMismatch,
          fail_if (now_unix_ms < sl_issued_unix_ms s) SealNotYetValid,
          fail_if (now_unix_ms \<ge> sl_expires_unix_ms s) SealExpired,
          fail_if (sl_revocation_generation s \<noteq> current_revocation_generation)
            (SealRevoked current_revocation_generation (sl_revocation_generation s))]) (\<lambda>_.
     res_bind (seal_signing_bytes C s) (\<lambda>signing_bytes.
       fail_if (\<not> verify_signature s signing_bytes) InvalidSealSignature)))))"

subsection \<open>What an accepted seal authorizes\<close>

lemma seal_ok_iff:
  "seal_validate_for_subject C verify s subject now gen = Inr () \<longleftrightarrow>
     seal_validate s = Inr () \<and> subject_validate subject = Inr () \<and>
     subject_digest C subject = Inr (sl_approval_subject_digest s) \<and>
     sl_capsule_kind s = as_capsule_kind subject \<and> sl_capsule_digest s = as_capsule_digest subject \<and>
     sl_issued_unix_ms s \<le> now \<and> now < sl_expires_unix_ms s \<and> sl_revocation_generation s = gen \<and>
     (\<exists>bytes. seal_signing_bytes C s = Inr bytes \<and> verify s bytes)"
  by (auto simp: seal_validate_for_subject_def res_simps not_less not_le)

lemma seal_window:
  assumes "seal_validate s = Inr ()"
  shows "unat (sl_issued_unix_ms s) < unat (sl_expires_unix_ms s)"
    and "unat (sl_expires_unix_ms s) \<le> unat (sl_issued_unix_ms s) + unat MAX_SEAL_LIFETIME_MS"
  using assms
  by (auto simp: seal_validate_def seal_validate_unsigned_def res_simps word_less_nat_alt
      word_le_nat_alt not_less unat_saturating_sub)

text \<open>
  C21: what an accepted seal authorizes is what the authority signed. Suppose the verifier accepts
  only bytes of payloads the authority issued, and the canonical bytes of a payload can be read back.
  Then every term that governs the acceptance is a term of one issued payload: the digest, kind and
  capsule of the subject, the validity window, which contains the present and spans at most one year,
  and the current revocation generation; and the seal names its signer, authority, algorithm and key
  as that payload does. So no field of a seal can be altered after signing, its expiry and its
  generation included.
\<close>

theorem seal_terms_signed:
  assumes unforgeable: "\<And>t bytes. verify t bytes \<Longrightarrow> \<exists>p \<in> issued. canonical_bytes C (ser_payload C) p = Inr bytes"
    and readable: "\<And>p bytes. canonical_bytes C (ser_payload C) p = Inr bytes \<Longrightarrow> read_payload bytes = Some p"
    and accepted: "seal_validate_for_subject C verify s subject now gen = Inr ()"
  shows "\<exists>p \<in> issued.
     subject_digest C subject = Inr (sp_approval_subject_digest p) \<and>
     as_capsule_kind subject = sp_capsule_kind p \<and> as_capsule_digest subject = sp_capsule_digest p \<and>
     unat (sp_issued_unix_ms p) \<le> unat now \<and> unat now < unat (sp_expires_unix_ms p) \<and>
     unat (sp_expires_unix_ms p) - unat (sp_issued_unix_ms p) \<le> 365 * 24 * 60 * 60 * 1000 \<and>
     gen = sp_revocation_generation p \<and>
     sl_schema_version s = sp_schema_version p \<and> sl_signer_identity s = sp_signer_identity p \<and>
     sl_authority_identity s = sp_authority_identity p \<and>
     sl_signature_algorithm s = sp_signature_algorithm p \<and> sl_signing_key_id s = sp_signing_key_id p"
proof -
  from accepted have facts: "seal_validate s = Inr ()" "subject_digest C subject = Inr (sl_approval_subject_digest s)"
      "sl_capsule_kind s = as_capsule_kind subject" "sl_capsule_digest s = as_capsule_digest subject"
      "sl_issued_unix_ms s \<le> now" "now < sl_expires_unix_ms s" "sl_revocation_generation s = gen"
    by (auto simp: seal_ok_iff)
  obtain bytes where bytes: "canonical_bytes C (ser_payload C) (payload_from s) = Inr bytes" "verify s bytes"
    using accepted by (auto simp: seal_ok_iff seal_signing_bytes_def res_simps)
  then obtain p where p: "p \<in> issued" "canonical_bytes C (ser_payload C) p = Inr bytes"
    using unforgeable by blast
  have "p = payload_from s"
    using readable [OF p(2)] readable [OF bytes(1)] by simp
  then show ?thesis
    using p(1) facts seal_window [OF facts(1)]
    by (intro bexI [of _ p]) (simp_all add: payload_from_def word_le_nat_alt word_less_nat_alt MAX_SEAL_LIFETIME_MS_def)
qed

text \<open>
  A concrete instance of the parameters, for the examples: a document is a string, its bytes and
  its digest are determined by its length.
\<close>

definition example_document :: "ContentDigest \<Rightarrow> (string, json) result" where
  "example_document d = Inr (JString (as_str d))"

definition example_canon :: "'z \<Rightarrow> ('z) canon_seal_scheme" where
  "example_canon z =
     \<lparr>cn_to_vec = (\<lambda>j. case j of JString s \<Rightarrow> Inr (replicate (length s) 0) | _ \<Rightarrow> Inl ''text''),
      cn_sha = (\<lambda>bytes. bytes),
      cn_hex_encode = (\<lambda>bytes. replicate (length bytes) CHR ''a''),
      ser_program = (\<lambda>p. example_document (pi_content_digest p)),
      ser_runtime = (\<lambda>p. Inr (JString (rt_program_abi p))),
      ser_subject = (\<lambda>s. example_document (as_capsule_digest s)),
      ser_seal = (\<lambda>s. example_document (sl_capsule_digest s)),
      ser_payload = (\<lambda>s. example_document (sp_capsule_digest s)),
      \<dots> = z\<rparr>"

definition example_subject :: "ContentDigest \<Rightarrow> ApprovalSubject" where
  "example_subject d =
     \<lparr>as_schema_version = 1, as_capsule_kind = Kind_Session, as_capsule_digest = d,
      as_policy_digest = ContentDigest ''p'', as_authority_context_digest = ContentDigest ''q''\<rparr>"

definition example_seal :: "ContentDigest \<Rightarrow> ContentDigest \<Rightarrow> Seal" where
  "example_seal subject capsule =
     \<lparr>sl_schema_version = 1, sl_approval_subject_digest = subject, sl_capsule_kind = Kind_Session,
      sl_capsule_digest = capsule, sl_signer_identity = ''s'', sl_authority_identity = ''a'',
      sl_issued_unix_ms = 10, sl_expires_unix_ms = 100, sl_revocation_generation = 3,
      sl_signature_algorithm = ''ed25519'', sl_signing_key_id = ContentDigest ''k'',
      sl_signature = replicate 32 0\<rparr>"

definition example_verifier :: "Seal \<Rightarrow> u8 list \<Rightarrow> bool" where
  "example_verifier s bytes \<longleftrightarrow> bytes = replicate (length (as_str (sl_capsule_digest s))) 0"

lemma example_seal_valid: "seal_validate (example_seal d e) = Inr ()"
  by (simp add: example_seal_def seal_validate_def seal_validate_unsigned_def v_schema_def
      v_identifier_def is_ascii_control_def less_eq_char_def MAX_IDENTIFIER_BYTES_def
      SEAL_SCHEMA_VERSION_def MIN_SEAL_SIGNATURE_BYTES_def MAX_SEAL_SIGNATURE_BYTES_def
      MAX_SEAL_LIFETIME_MS_def saturating_sub_def)

lemma example_subject_digest:
  "subject_digest (example_canon z) (example_subject (ContentDigest s)) =
     Inr (ContentDigest (''sha256:'' @ replicate (length s) CHR ''a''))"
  by (simp add: subject_digest_def subject_validate_def v_schema_def example_subject_def
      EXECUTION_CAPSULE_SCHEMA_VERSION_def canonical_digest_def canonical_bytes_def
      example_canon_def example_document_def sha256_def)

lemma example_seal_accepted:
  "seal_validate_for_subject (example_canon z) example_verifier
     (example_seal (ContentDigest (''sha256:'' @ replicate (length s) CHR ''a'')) (ContentDigest s))
     (example_subject (ContentDigest s)) 50 3 = Inr ()"
proof -
  let ?s = "example_seal (ContentDigest (''sha256:'' @ replicate (length s) CHR ''a'')) (ContentDigest s)"
  have "seal_validate_unsigned ?s = Inr ()"
    using example_seal_valid [of "sl_approval_subject_digest ?s" "ContentDigest s"]
    by (simp add: seal_validate_def res_simps example_seal_def)
  then have "seal_signing_bytes (example_canon z) ?s = Inr (replicate (length s) 0)"
    by (simp add: seal_signing_bytes_def canonical_bytes_def payload_from_def example_canon_def
        example_document_def example_seal_def)
  then show ?thesis
    by (simp add: seal_ok_iff example_seal_valid example_subject_digest)
      (simp add: example_seal_def example_subject_def subject_validate_def v_schema_def
        EXECUTION_CAPSULE_SCHEMA_VERSION_def example_verifier_def)
qed

text \<open>
  Advancing the authority's revocation generation invalidates every seal issued under the
  prior one: a seal accepted at one generation is refused as revoked at any other, with both
  generations named, and once its window has passed it is refused as expired at every generation.
\<close>

theorem seal_revocation:
  assumes "seal_validate_for_subject C verify s subject now gen = Inr ()"
  shows "(gen' \<noteq> gen \<longrightarrow>
       seal_validate_for_subject C verify s subject now gen' = Inl (SealRevoked gen' gen)) \<and>
     (sl_expires_unix_ms s \<le> later \<longrightarrow>
       seal_validate_for_subject C verify s subject later gen' = Inl SealExpired)"
proof -
  from assms have facts: "seal_validate s = Inr ()" "subject_validate subject = Inr ()"
      "subject_digest C subject = Inr (sl_approval_subject_digest s)"
      "sl_capsule_kind s = as_capsule_kind subject" "sl_capsule_digest s = as_capsule_digest subject"
      "sl_issued_unix_ms s \<le> now" "now < sl_expires_unix_ms s" "sl_revocation_generation s = gen"
    by (auto simp: seal_ok_iff)
  have in_window: "\<not> now < sl_issued_unix_ms s" "\<not> sl_expires_unix_ms s \<le> now"
    using facts(6,7) by simp_all
  have "\<not> later < sl_issued_unix_ms s" if "sl_expires_unix_ms s \<le> later"
    using that facts(6,7) by simp
  with facts(1-5,8) in_window show ?thesis
    by (simp add: seal_validate_for_subject_def seq_checks_step)
qed

theorem seal_revocation_witness:
  "seal_validate_for_subject (example_canon ()) example_verifier
     (example_seal (ContentDigest ''sha256:aa'') (ContentDigest ''cc''))
     (example_subject (ContentDigest ''cc'')) 50 4 = Inl (SealRevoked 4 3)"
  using seal_revocation [OF example_seal_accepted [of "()" "''cc''"], of 4] by (simp add: numeral_2_eq_2)

text \<open>
  An authority whose payloads differ in their revocation generation only: its serialiser refuses
  every other payload, and the bytes spell the generation.
\<close>

definition example_payload :: "u64 \<Rightarrow> SealSigningPayload" where
  "example_payload g =
     (payload_from (example_seal (ContentDigest ''sha256:aa'') (ContentDigest ''cc'')))
       \<lparr>sp_revocation_generation := g\<rparr>"

definition example_signing_canon :: "unit canon_seal_scheme" where
  "example_signing_canon =
     (example_canon ())
       \<lparr>ser_payload := (\<lambda>p. if p = example_payload (sp_revocation_generation p)
          then Inr (JString (replicate (unat (sp_revocation_generation p)) CHR ''a''))
          else Inl ''unknown payload'')\<rparr>"

lemma example_signing_bytes:
  "canonical_bytes example_signing_canon (ser_payload example_signing_canon) p = Inr bytes \<longleftrightarrow>
     p = example_payload (sp_revocation_generation p) \<and>
     bytes = replicate (unat (sp_revocation_generation p)) 0"
  by (auto simp: canonical_bytes_def example_signing_canon_def example_canon_def map_err_def)

lemma example_signed_accepted:
  "seal_validate_for_subject example_signing_canon (\<lambda>_ bytes. bytes = replicate 3 0)
     (example_seal (ContentDigest ''sha256:aa'') (ContentDigest ''cc''))
     (example_subject (ContentDigest ''cc'')) 50 3 = Inr ()"
proof -
  let ?s = "example_seal (ContentDigest ''sha256:aa'') (ContentDigest ''cc'')"
  have "seal_validate_unsigned ?s = Inr ()"
    using example_seal_valid by (simp add: seal_validate_def res_simps)
  moreover have "canonical_bytes example_signing_canon (ser_payload example_signing_canon) (payload_from ?s) =
      Inr (replicate 3 0)"
    unfolding example_signing_bytes by (simp add: example_payload_def payload_from_def example_seal_def)
  ultimately have signing: "seal_signing_bytes example_signing_canon ?s = Inr (replicate 3 0)"
    by (simp add: seal_signing_bytes_def)
  have "subject_digest example_signing_canon (example_subject (ContentDigest ''cc'')) =
      subject_digest (example_canon ()) (example_subject (ContentDigest ''cc''))"
    by (simp add: subject_digest_def canonical_digest_def canonical_bytes_def example_signing_canon_def
        example_canon_def)
  then show ?thesis
    using example_subject_digest [of "()" "''cc''"]
    by (simp add: seal_ok_iff example_seal_valid signing)
      (simp add: example_seal_def example_subject_def subject_validate_def v_schema_def
        EXECUTION_CAPSULE_SCHEMA_VERSION_def)
qed

theorem seal_terms_signed_witness:
  "\<exists>p \<in> {example_payload 3}. as_capsule_digest (example_subject (ContentDigest ''cc'')) = sp_capsule_digest p \<and>
     50 < unat (sp_expires_unix_ms p)"
proof -
  have "\<exists>p \<in> {example_payload 3}.
      canonical_bytes example_signing_canon (ser_payload example_signing_canon) p = Inr bytes"
    if "bytes = replicate 3 0" for bytes
    using that by (simp add: example_signing_bytes) (simp add: example_payload_def)
  moreover have "Some (example_payload (of_nat (length bytes))) = Some p"
    if "canonical_bytes example_signing_canon (ser_payload example_signing_canon) p = Inr bytes" for p bytes
    using that unfolding example_signing_bytes by simp
  ultimately show ?thesis
    using seal_terms_signed [where verify = "\<lambda>_ bytes. bytes = replicate 3 0" and issued = "{example_payload 3}"
        and read_payload = "\<lambda>bytes. Some (example_payload (of_nat (length bytes)))",
        OF _ _ example_signed_accepted] by simp
qed

text \<open>
  C23: a seal cannot be moved to another subject: once accepted for one subject, it is refused
  with a subject mismatch for every other subject the canonical digest tells apart from it.
\<close>

theorem seal_not_transferable:
  assumes "seal_validate_for_subject C verify s subject now gen = Inr ()"
    and "subject_digest C other = Inr d"
    and "subject_digest C other \<noteq> subject_digest C subject"
  shows "seal_validate_for_subject C verify s other now' gen' = Inl SealSubjectMismatch"
proof -
  have "subject_validate other = Inr ()"
    using assms(2) by (auto simp: subject_digest_def res_simps)
  moreover have "seal_validate s = Inr ()" "sl_approval_subject_digest s \<noteq> d"
    using assms by (auto simp: seal_ok_iff)
  ultimately show ?thesis
    using assms(2) by (simp add: seal_validate_for_subject_def seq_checks_step)
qed

theorem seal_not_transferable_witness:
  "seal_validate_for_subject (example_canon ()) example_verifier
     (example_seal (ContentDigest ''sha256:aa'') (ContentDigest ''cc''))
     (example_subject (ContentDigest ''ccc'')) 50 3 = Inl SealSubjectMismatch"
  using seal_not_transferable [OF example_seal_accepted [of "()" "''cc''"]
      example_subject_digest [of "()" "''ccc''"], of 50 3]
    example_subject_digest [of "()" "''cc''"] example_subject_digest [of "()" "''ccc''"]
  by simp

end
