(* ===== verification/Capsule.thy ===== *)
theory Capsule
  imports Contracts Seals
begin

text \<open>
  \<^verbatim>\<open>crates/execution/src/capsule.rs\<close>: Session and Execution Capsules, delegation policies and grants, and
  the two checks of delegation: a grant against its sealed parent Session
  (\<open>validate_against_parent\<close>) and a child Capsule against a grant (\<open>contains_child\<close>).
\<close>

record ParentBinding =
  pb_session_capsule_digest :: ContentDigest
  pb_session_seal_digest :: ContentDigest
  pb_delegation_id :: string
  pb_delegation_grant_digest :: ContentDigest
  pb_workspace_generation_digest :: ContentDigest
  pb_containment_proof_digest :: ContentDigest

definition binding_validate :: "ParentBinding \<Rightarrow> unit outcome" where
  "binding_validate b = v_identifier ''delegation identity'' (pb_delegation_id b)"

record DelegationPolicy =
  dp_planner_principal :: string
  dp_planner_implementation_digest :: ContentDigest
  dp_allowed_program_kinds :: "ProgramKind bset"
  dp_allowed_program_resolvers :: "ContentDigest bset"
  dp_allowed_runtime_profiles :: "ContentDigest bset"
  dp_maximum_resources :: ResourceLimits
  dp_placement :: PlacementConstraints
  dp_capabilities :: CapabilityContract
  dp_nondeterminism :: NondeterminismContract
  dp_output :: OutputContract
  dp_maximum_child_count :: u32
  dp_maximum_concurrency :: u32
  dp_maximum_child_duration_ms :: u64
  dp_subdelegation_allowed :: bool
  dp_policy_version_id :: string
  dp_policy_version_digest :: ContentDigest

record SessionCapsule =
  sc_schema_version :: u32
  sc_kind :: CapsuleKind
  sc_tenant_id :: string
  sc_principal_id :: string
  sc_initial_workspace_digest :: ContentDigest
  sc_mutable_workspace_roots :: "string bset"
  sc_runtime :: RuntimeCompatibilityProfile
  sc_placement :: PlacementConstraints
  sc_maximum_resources :: ResourceLimits
  sc_capabilities :: CapabilityContract
  sc_nondeterminism :: NondeterminismContract
  sc_output :: OutputContract
  sc_evidence :: EvidenceContract
  sc_idle_timeout_ms :: u64
  sc_hard_lifetime_ms :: u64
  sc_maximum_child_count :: u32
  sc_maximum_concurrency :: u32
  sc_delegation_policies :: "(string, DelegationPolicy) btree"

record DelegationGrant =
  dg_schema_version :: u32
  dg_delegation_id :: string
  dg_parent_session_capsule_digest :: ContentDigest
  dg_parent_session_seal_digest :: ContentDigest
  dg_policy_id :: string
  dg_policy_digest :: ContentDigest
  dg_planner_principal :: string
  dg_planner_implementation_digest :: ContentDigest
  dg_allowed_program_kinds :: "ProgramKind bset"
  dg_allowed_program_resolvers :: "ContentDigest bset"
  dg_allowed_runtime_profiles :: "ContentDigest bset"
  dg_maximum_resources :: ResourceLimits
  dg_placement :: PlacementConstraints
  dg_capabilities :: CapabilityContract
  dg_nondeterminism :: NondeterminismContract
  dg_output :: OutputContract
  dg_maximum_child_count :: u32
  dg_maximum_concurrency :: u32
  dg_maximum_child_duration_ms :: u64
  dg_subdelegation_allowed :: bool
  dg_policy_version_id :: string
  dg_policy_version_digest :: ContentDigest
  dg_issued_unix_ms :: u64
  dg_expires_unix_ms :: u64
  dg_revocation_generation :: u64

record ExecutionCapsule =
  xc_schema_version :: u32
  xc_kind :: CapsuleKind
  xc_tenant_id :: string
  xc_principal_id :: string
  xc_program :: ProgramIdentity
  xc_arguments :: "string list"
  xc_working_directory :: "string option"
  xc_input_artifacts :: "ContentDigest bset"
  xc_runtime :: RuntimeCompatibilityProfile
  xc_placement :: PlacementConstraints
  xc_resources :: ResourceLimits
  xc_capabilities :: CapabilityContract
  xc_nondeterminism :: NondeterminismContract
  xc_external_effects :: ExternalEffectContract
  xc_output :: OutputContract
  xc_evidence :: EvidenceContract
  xc_parent :: "ParentBinding option"

record canon_capsule = canon_seal +
  ser_policy :: "DelegationPolicy \<Rightarrow> (string, json) result"
  ser_session :: "SessionCapsule \<Rightarrow> (string, json) result"
  ser_grant :: "DelegationGrant \<Rightarrow> (string, json) result"
  ser_execution :: "ExecutionCapsule \<Rightarrow> (string, json) result"

subsection \<open>Policies and Session Capsules\<close>

definition policy_validate ::
    "DelegationPolicy \<Rightarrow> SessionCapsule \<Rightarrow> ContentDigest \<Rightarrow> unit outcome" where
  "policy_validate p session rdigest =
     seq_checks
       [v_identifier ''delegated planner principal'' (dp_planner_principal p),
        v_bounded ''allowed Program kinds'' (bt_len (dp_allowed_program_kinds p)) MAX_COLLECTION_ENTRIES,
        fail_if
          (bt_len (dp_allowed_program_kinds p) = 0 \<or> bt_len (dp_allowed_program_resolvers p) = 0 \<or>
           bt_len (dp_allowed_runtime_profiles p) = 0)
          (InvalidField ''delegation allowed sets'' ''must be finite and non-empty''),
        fail_if
          (bt_len (dp_allowed_runtime_profiles p) \<noteq> 1 \<or>
           \<not> bs_mem rdigest (dp_allowed_runtime_profiles p) \<or>
           \<not> resources_contains (sc_maximum_resources session) (dp_maximum_resources p) \<or>
           \<not> placement_contains (sc_placement session) (dp_placement p) \<or>
           \<not> capabilities_contains (sc_capabilities session) (dp_capabilities p) \<or>
           \<not> nondeterminism_contains (sc_nondeterminism session) (dp_nondeterminism p) \<or>
           \<not> output_contains (sc_output session) (dp_output p) \<or>
           dp_maximum_child_count p = 0 \<or>
           dp_maximum_child_count p > sc_maximum_child_count session \<or>
           dp_maximum_concurrency p = 0 \<or>
           dp_maximum_concurrency p > sc_maximum_concurrency session \<or>
           dp_maximum_concurrency p > dp_maximum_child_count p \<or>
           dp_maximum_child_duration_ms p = 0 \<or>
           dp_maximum_child_duration_ms p > rl_maximum_duration_ms (sc_maximum_resources session))
          (InvalidField ''delegation envelope''
             ''must be a positive finite subset of the Session envelope''),
        v_identifier ''delegation policy version'' (dp_policy_version_id p),
        resources_validate (dp_maximum_resources p),
        placement_validate (dp_placement p),
        capabilities_validate (dp_capabilities p),
        nondeterminism_validate (dp_nondeterminism p),
        output_validate (dp_output p)]"

definition policy_canonical_bytes ::
    "('z) canon_capsule_scheme \<Rightarrow> DelegationPolicy \<Rightarrow> u8 list outcome" where
  "policy_canonical_bytes C p = canonical_bytes C (ser_policy C) p"

definition policy_digest ::
    "('z) canon_capsule_scheme \<Rightarrow> DelegationPolicy \<Rightarrow> ContentDigest outcome" where
  "policy_digest C p = canonical_digest C (ser_policy C) p"

definition session_validate :: "('z) canon_capsule_scheme \<Rightarrow> SessionCapsule \<Rightarrow> unit outcome" where
  "session_validate C s =
     res_bind
       (seq_checks
         ([v_schema ''Session Capsule schema version'' (sc_schema_version s)
             EXECUTION_CAPSULE_SCHEMA_VERSION,
           fail_if (sc_kind s \<noteq> Kind_Session) CapsuleKindMismatch,
           v_identifier ''tenant identity'' (sc_tenant_id s),
           v_identifier ''principal identity'' (sc_principal_id s),
           v_bounded ''mutable workspace roots'' (bt_len (sc_mutable_workspace_roots s))
             MAX_COLLECTION_ENTRIES]
          @ map (v_relative_path ''mutable workspace root'') (bt_keys (sc_mutable_workspace_roots s))
          @ [runtime_validate (sc_runtime s),
             placement_validate (sc_placement s),
             resources_validate (sc_maximum_resources s),
             capabilities_validate (sc_capabilities s),
             nondeterminism_validate (sc_nondeterminism s),
             output_validate (sc_output s),
             evidence_validate (sc_evidence s),
             fail_if
               (sc_idle_timeout_ms s = 0 \<or> sc_hard_lifetime_ms s = 0 \<or>
                sc_idle_timeout_ms s > sc_hard_lifetime_ms s \<or>
                sc_hard_lifetime_ms s > rl_maximum_duration_ms (sc_maximum_resources s) \<or>
                sc_maximum_child_count s = 0 \<or> sc_maximum_concurrency s = 0 \<or>
                sc_maximum_concurrency s > sc_maximum_child_count s)
               (InvalidField ''Session lifetime or concurrency''
                  ''must be positive and within the Session resource envelope''),
             v_bounded ''delegation policies'' (bt_len (sc_delegation_policies s))
               MAX_COLLECTION_ENTRIES])) (\<lambda>_.
     res_bind (runtime_digest C (sc_runtime s)) (\<lambda>rdigest.
       seq_checks
         (map (\<lambda>(identity, policy).
             seq_checks
               [v_identifier ''delegation policy identity'' identity,
                policy_validate policy s rdigest])
           (bt_entries (sc_delegation_policies s)))))"

definition session_canonical_bytes ::
    "('z) canon_capsule_scheme \<Rightarrow> SessionCapsule \<Rightarrow> u8 list outcome" where
  "session_canonical_bytes C s =
     res_bind (session_validate C s) (\<lambda>_. canonical_bytes C (ser_session C) s)"

definition session_digest ::
    "('z) canon_capsule_scheme \<Rightarrow> SessionCapsule \<Rightarrow> ContentDigest outcome" where
  "session_digest C s =
     res_bind (session_validate C s) (\<lambda>_. canonical_digest C (ser_session C) s)"

definition session_approval_subject ::
    "('z) canon_capsule_scheme \<Rightarrow> SessionCapsule \<Rightarrow> ContentDigest \<Rightarrow> ContentDigest
     \<Rightarrow> ApprovalSubject outcome" where
  "session_approval_subject C s pdigest authority_context_digest =
     res_bind (session_digest C s) (\<lambda>digest.
       Inr \<lparr>as_schema_version = EXECUTION_CAPSULE_SCHEMA_VERSION, as_capsule_kind = Kind_Session,
            as_capsule_digest = digest, as_policy_digest = pdigest,
            as_authority_context_digest = authority_context_digest\<rparr>)"

subsection \<open>Execution Capsules\<close>

definition execution_validate :: "ExecutionCapsule \<Rightarrow> unit outcome" where
  "execution_validate x =
     seq_checks
       ([v_schema ''Execution Capsule schema version'' (xc_schema_version x)
           EXECUTION_CAPSULE_SCHEMA_VERSION,
         fail_if (xc_kind x \<noteq> Kind_Execution) CapsuleKindMismatch,
         v_identifier ''tenant identity'' (xc_tenant_id x),
         v_identifier ''principal identity'' (xc_principal_id x),
         program_validate (xc_program x),
         v_bounded ''Execution arguments'' (length (xc_arguments x)) MAX_ARGUMENTS]
        @ map (v_argument ''Execution argument'') (xc_arguments x)
        @ [(case xc_working_directory x of
              None \<Rightarrow> Inr ()
            | Some path \<Rightarrow> v_relative_path ''working directory'' path),
           v_bounded ''input Artifacts'' (bt_len (xc_input_artifacts x)) MAX_COLLECTION_ENTRIES,
           runtime_validate (xc_runtime x),
           placement_validate (xc_placement x),
           resources_validate (xc_resources x),
           capabilities_validate (xc_capabilities x),
           nondeterminism_validate (xc_nondeterminism x),
           effects_validate_against (xc_external_effects x) (xc_capabilities x),
           output_validate (xc_output x),
           evidence_validate (xc_evidence x),
           (case xc_parent x of None \<Rightarrow> Inr () | Some parent \<Rightarrow> binding_validate parent)])"

definition execution_canonical_bytes ::
    "('z) canon_capsule_scheme \<Rightarrow> ExecutionCapsule \<Rightarrow> u8 list outcome" where
  "execution_canonical_bytes C x =
     res_bind (execution_validate x) (\<lambda>_. canonical_bytes C (ser_execution C) x)"

definition execution_digest ::
    "('z) canon_capsule_scheme \<Rightarrow> ExecutionCapsule \<Rightarrow> ContentDigest outcome" where
  "execution_digest C x =
     res_bind (execution_validate x) (\<lambda>_. canonical_digest C (ser_execution C) x)"

definition execution_approval_subject ::
    "('z) canon_capsule_scheme \<Rightarrow> ExecutionCapsule \<Rightarrow> ContentDigest \<Rightarrow> ContentDigest
     \<Rightarrow> ApprovalSubject outcome" where
  "execution_approval_subject C x pdigest authority_context_digest =
     res_bind (execution_digest C x) (\<lambda>digest.
       Inr \<lparr>as_schema_version = EXECUTION_CAPSULE_SCHEMA_VERSION, as_capsule_kind = Kind_Execution,
            as_capsule_digest = digest, as_policy_digest = pdigest,
            as_authority_context_digest = authority_context_digest\<rparr>)"

subsection \<open>Delegation grants\<close>

record DelegationValidationContext =
  dv_session :: SessionCapsule
  dv_subject :: ApprovalSubject
  dv_seal :: Seal
  dv_verifier :: "Seal \<Rightarrow> u8 list \<Rightarrow> bool"
  dv_now_unix_ms :: u64
  dv_current_seal_revocation_generation :: u64
  dv_current_grant_revocation_generation :: u64

definition grant_validate :: "DelegationGrant \<Rightarrow> unit outcome" where
  "grant_validate g =
     seq_checks
       [v_schema ''Delegation Grant schema version'' (dg_schema_version g)
          EXECUTION_CAPSULE_SCHEMA_VERSION,
        v_identifier ''delegation identity'' (dg_delegation_id g),
        v_identifier ''delegation policy identity'' (dg_policy_id g),
        v_identifier ''delegated planner principal'' (dg_planner_principal g),
        v_identifier ''delegation policy version'' (dg_policy_version_id g),
        fail_if
          (bt_len (dg_allowed_program_kinds g) = 0 \<or> bt_len (dg_allowed_program_resolvers g) = 0 \<or>
           bt_len (dg_allowed_runtime_profiles g) = 0 \<or>
           dg_maximum_child_count g = 0 \<or> dg_maximum_concurrency g = 0 \<or>
           dg_maximum_concurrency g > dg_maximum_child_count g \<or>
           dg_maximum_child_duration_ms g = 0 \<or>
           dg_issued_unix_ms g \<ge> dg_expires_unix_ms g \<or>
           dg_revocation_generation g = 0)
          (InvalidField ''delegation grant''
             ''must have finite non-empty bounds and a valid lifetime''),
        resources_validate (dg_maximum_resources g),
        placement_validate (dg_placement g),
        capabilities_validate (dg_capabilities g),
        nondeterminism_validate (dg_nondeterminism g),
        output_validate (dg_output g)]"

definition grant_canonical_bytes ::
    "('z) canon_capsule_scheme \<Rightarrow> DelegationGrant \<Rightarrow> u8 list outcome" where
  "grant_canonical_bytes C g = res_bind (grant_validate g) (\<lambda>_. canonical_bytes C (ser_grant C) g)"

definition grant_digest ::
    "('z) canon_capsule_scheme \<Rightarrow> DelegationGrant \<Rightarrow> ContentDigest outcome" where
  "grant_digest C g = res_bind (grant_validate g) (\<lambda>_. canonical_digest C (ser_grant C) g)"

text \<open>The two comparisons of \<^verbatim>\<open>validate_against_parent\<close>, operands in the order of the source.\<close>

definition sealed_parent_differs ::
    "('z) canon_capsule_scheme \<Rightarrow> DelegationGrant \<Rightarrow> DelegationValidationContext \<Rightarrow> bool outcome" where
  "sealed_parent_differs C g ctx =
     any_of
       [Inr (as_capsule_kind (dv_subject ctx) \<noteq> Kind_Session),
        res_bind (session_digest C (dv_session ctx)) (\<lambda>d. Inr (as_capsule_digest (dv_subject ctx) \<noteq> d)),
        Inr (dg_parent_session_capsule_digest g \<noteq> as_capsule_digest (dv_subject ctx)),
        res_bind (seal_digest C (dv_seal ctx)) (\<lambda>d. Inr (dg_parent_session_seal_digest g \<noteq> d))]"

definition policy_envelope_violated ::
    "('z) canon_capsule_scheme \<Rightarrow> DelegationGrant \<Rightarrow> DelegationPolicy \<Rightarrow> bool outcome" where
  "policy_envelope_violated C g p =
     any_of
       [res_bind (policy_digest C p) (\<lambda>d. Inr (dg_policy_digest g \<noteq> d)),
        Inr (dg_planner_principal g \<noteq> dp_planner_principal p),
        Inr (dg_planner_implementation_digest g \<noteq> dp_planner_implementation_digest p),
        Inr (\<not> bs_subset (dg_allowed_program_kinds g) (dp_allowed_program_kinds p)),
        Inr (\<not> bs_subset (dg_allowed_program_resolvers g) (dp_allowed_program_resolvers p)),
        Inr (\<not> bs_subset (dg_allowed_runtime_profiles g) (dp_allowed_runtime_profiles p)),
        Inr (\<not> resources_contains (dp_maximum_resources p) (dg_maximum_resources g)),
        Inr (\<not> placement_contains (dp_placement p) (dg_placement g)),
        Inr (\<not> capabilities_contains (dp_capabilities p) (dg_capabilities g)),
        Inr (\<not> nondeterminism_contains (dp_nondeterminism p) (dg_nondeterminism g)),
        Inr (\<not> output_contains (dp_output p) (dg_output g)),
        Inr (dg_maximum_child_count g > dp_maximum_child_count p),
        Inr (dg_maximum_concurrency g > dp_maximum_concurrency p),
        Inr (dg_maximum_child_duration_ms g > dp_maximum_child_duration_ms p),
        Inr (dg_subdelegation_allowed g \<and> \<not> dp_subdelegation_allowed p),
        Inr (dg_policy_version_id g \<noteq> dp_policy_version_id p),
        Inr (dg_policy_version_digest g \<noteq> dp_policy_version_digest p)]"

definition validate_against_parent ::
    "('z) canon_capsule_scheme \<Rightarrow> DelegationGrant \<Rightarrow> DelegationValidationContext \<Rightarrow> unit outcome" where
  "validate_against_parent C g ctx =
     res_bind
       (seq_checks
         [grant_validate g,
          session_validate C (dv_session ctx),
          seal_validate_for_subject C (dv_verifier ctx) (dv_seal ctx) (dv_subject ctx)
            (dv_now_unix_ms ctx) (dv_current_seal_revocation_generation ctx),
          fail_when (sealed_parent_differs C g ctx) (ContainmentViolation ''sealed parent identity''),
          fail_if (dv_now_unix_ms ctx < dg_issued_unix_ms g \<or> dv_now_unix_ms ctx \<ge> dg_expires_unix_ms g)
            (ContainmentViolation ''delegation lifetime''),
          fail_if (dg_revocation_generation g \<noteq> dv_current_grant_revocation_generation ctx)
            (ContainmentViolation ''delegation revocation generation'')]) (\<lambda>_.
     res_bind
       (ok_or (bt_get (sc_delegation_policies (dv_session ctx)) (dg_policy_id g))
         (ContainmentViolation ''delegation policy'')) (\<lambda>policy.
       fail_when (policy_envelope_violated C g policy)
         (ContainmentViolation ''delegation policy envelope'')))"

definition child_checks :: "DelegationGrant \<Rightarrow> ExecutionCapsule \<Rightarrow> ContentDigest \<Rightarrow> (bool \<times> string) list" where
  "child_checks g child rdigest =
     [(bs_mem (pi_kind (xc_program child)) (dg_allowed_program_kinds g), ''Program kind''),
      (bs_mem (pi_resolver_digest (xc_program child)) (dg_allowed_program_resolvers g), ''Program resolver''),
      (bs_mem rdigest (dg_allowed_runtime_profiles g), ''runtime profile''),
      (resources_contains (dg_maximum_resources g) (xc_resources child) \<and>
         rl_maximum_duration_ms (xc_resources child) \<le> dg_maximum_child_duration_ms g,
       ''resource limits''),
      (placement_contains (dg_placement g) (xc_placement child), ''placement''),
      (capabilities_contains (dg_capabilities g) (xc_capabilities child), ''capabilities''),
      (nondeterminism_contains (dg_nondeterminism g) (xc_nondeterminism child), ''nondeterminism''),
      (output_contains (dg_output g) (xc_output child), ''output classes'')]"

definition contains_child ::
    "('z) canon_capsule_scheme \<Rightarrow> DelegationGrant \<Rightarrow> ExecutionCapsule \<Rightarrow> unit outcome" where
  "contains_child C g child =
     res_bind (grant_validate g) (\<lambda>_.
     res_bind (execution_validate child) (\<lambda>_.
     res_bind (ok_or (xc_parent child) (ContainmentViolation ''parent binding'')) (\<lambda>parent.
     res_bind
       (fail_when
         (any_of
           [Inr (pb_session_capsule_digest parent \<noteq> dg_parent_session_capsule_digest g),
            Inr (pb_session_seal_digest parent \<noteq> dg_parent_session_seal_digest g),
            Inr (pb_delegation_id parent \<noteq> dg_delegation_id g),
            res_bind (grant_digest C g) (\<lambda>d. Inr (pb_delegation_grant_digest parent \<noteq> d))])
         (ContainmentViolation ''parent binding'')) (\<lambda>_.
     res_bind (runtime_digest C (xc_runtime child)) (\<lambda>rdigest.
       (case find (\<lambda>(allowed, _). \<not> allowed) (child_checks g child rdigest) of
          Some (_, field) \<Rightarrow> Inl (ContainmentViolation field)
        | None \<Rightarrow> Inr ()))))))"

subsection \<open>A delegated child stays inside its sealed Session\<close>

lemma session_policy:
  assumes "session_validate C s = Inr ()" "bt_get (sc_delegation_policies s) i = Some p"
  obtains rdigest where "runtime_digest C (sc_runtime s) = Inr rdigest"
    "policy_validate p s rdigest = Inr ()"
  using assms
  by (fastforce simp: session_validate_def res_simps list_all_iff bt_get_entries)

lemma policy_envelope:
  assumes "policy_validate p s rdigest = Inr ()"
  shows "dp_allowed_runtime_profiles p = bs_of_list [rdigest]"
    and "resources_contains (sc_maximum_resources s) (dp_maximum_resources p)"
    and "placement_contains (sc_placement s) (dp_placement p)"
    and "capabilities_contains (sc_capabilities s) (dp_capabilities p)"
    and "nondeterminism_contains (sc_nondeterminism s) (dp_nondeterminism p)"
    and "output_contains (sc_output s) (dp_output p)"
  using assms by (auto simp: policy_validate_def res_simps intro: bs_singleton)

lemma grant_envelope:
  assumes "validate_against_parent C g ctx = Inr ()"
  obtains p where "bt_get (sc_delegation_policies (dv_session ctx)) (dg_policy_id g) = Some p"
    and "policy_envelope_violated C g p = Inr False"
    and "session_validate C (dv_session ctx) = Inr ()"
    and "sealed_parent_differs C g ctx = Inr False"
    and "seal_validate_for_subject C (dv_verifier ctx) (dv_seal ctx) (dv_subject ctx)
            (dv_now_unix_ms ctx) (dv_current_seal_revocation_generation ctx) = Inr ()"
  using assms by (auto simp: validate_against_parent_def res_simps)

lemma no_check_failed:
  "find (\<lambda>(allowed, _). \<not> allowed) checks = None \<longleftrightarrow> (\<forall>c \<in> set checks. fst c)"
  by (auto simp: find_None_iff)

lemma first_failure_ok:
  "(case x of None \<Rightarrow> Inr () | Some (_, field) \<Rightarrow> Inl (e field)) = Inr () \<longleftrightarrow> x = None"
  by (auto split: option.splits)

lemma child_envelope:
  assumes "contains_child C g child = Inr ()"
  obtains parent rdigest where "xc_parent child = Some parent"
    and "pb_session_capsule_digest parent = dg_parent_session_capsule_digest g"
    and "pb_session_seal_digest parent = dg_parent_session_seal_digest g"
    and "grant_digest C g = Inr (pb_delegation_grant_digest parent)"
    and "runtime_digest C (xc_runtime child) = Inr rdigest"
    and "\<forall>c \<in> set (child_checks g child rdigest). fst c"
proof -
  from assms obtain parent rdigest where "xc_parent child = Some parent"
    and "pb_session_capsule_digest parent = dg_parent_session_capsule_digest g"
    and "pb_session_seal_digest parent = dg_parent_session_seal_digest g"
    and "grant_digest C g = Inr (pb_delegation_grant_digest parent)"
    and "runtime_digest C (xc_runtime child) = Inr rdigest"
    and "find (\<lambda>(allowed, _). \<not> allowed) (child_checks g child rdigest) = None"
    by (auto simp: contains_child_def res_simps first_failure_ok)
  then show thesis
    using that by (simp only: no_check_failed)
qed

lemma delegated_child_envelope:
  assumes "validate_against_parent C g ctx = Inr ()"
    and "contains_child C g child = Inr ()"
  shows "resources_contains (sc_maximum_resources (dv_session ctx)) (xc_resources child) \<and>
     placement_contains (sc_placement (dv_session ctx)) (xc_placement child) \<and>
     capabilities_contains (sc_capabilities (dv_session ctx)) (xc_capabilities child) \<and>
     nondeterminism_contains (sc_nondeterminism (dv_session ctx)) (xc_nondeterminism child) \<and>
     output_contains (sc_output (dv_session ctx)) (xc_output child) \<and>
     runtime_digest C (xc_runtime child) = runtime_digest C (sc_runtime (dv_session ctx)) \<and>
     is_ok (runtime_digest C (xc_runtime child)) \<and>
     (\<exists>parent. xc_parent child = Some parent \<and>
        session_digest C (dv_session ctx) = Inr (pb_session_capsule_digest parent) \<and>
        seal_digest C (dv_seal ctx) = Inr (pb_session_seal_digest parent) \<and>
        grant_digest C g = Inr (pb_delegation_grant_digest parent))"
proof -
  from grant_envelope [OF assms(1)] obtain p where
    p: "bt_get (sc_delegation_policies (dv_session ctx)) (dg_policy_id g) = Some p"
    and env: "policy_envelope_violated C g p = Inr False"
    and session: "session_validate C (dv_session ctx) = Inr ()"
    and sealed: "sealed_parent_differs C g ctx = Inr False" by blast
  from session_policy [OF session p] obtain rd where
    rd: "runtime_digest C (sc_runtime (dv_session ctx)) = Inr rd"
    and pol: "policy_validate p (dv_session ctx) rd = Inr ()" by blast
  note policy = policy_envelope [OF pol]
  from child_envelope [OF assms(2)] obtain parent cd where
    parent: "xc_parent child = Some parent"
      "pb_session_capsule_digest parent = dg_parent_session_capsule_digest g"
      "pb_session_seal_digest parent = dg_parent_session_seal_digest g"
      "grant_digest C g = Inr (pb_delegation_grant_digest parent)"
    and cd: "runtime_digest C (xc_runtime child) = Inr cd"
    and checks: "\<forall>c \<in> set (child_checks g child cd). fst c" by blast
  have child: "bs_mem cd (dg_allowed_runtime_profiles g)"
      "resources_contains (dg_maximum_resources g) (xc_resources child)"
      "placement_contains (dg_placement g) (xc_placement child)"
      "capabilities_contains (dg_capabilities g) (xc_capabilities child)"
      "nondeterminism_contains (dg_nondeterminism g) (xc_nondeterminism child)"
      "output_contains (dg_output g) (xc_output child)"
    using checks by (simp_all add: child_checks_def)
  have grant: "bs_subset (dg_allowed_runtime_profiles g) (dp_allowed_runtime_profiles p)"
      "resources_contains (dp_maximum_resources p) (dg_maximum_resources g)"
      "placement_contains (dp_placement p) (dg_placement g)"
      "capabilities_contains (dp_capabilities p) (dg_capabilities g)"
      "nondeterminism_contains (dp_nondeterminism p) (dg_nondeterminism g)"
      "output_contains (dp_output p) (dg_output g)"
    using env by (simp_all add: policy_envelope_violated_def res_simps)
  have "cd = rd"
    using bs_subsetD [OF grant(1) child(1)] by (simp add: policy(1))
  moreover have "session_digest C (dv_session ctx) = Inr (pb_session_capsule_digest parent)"
      "seal_digest C (dv_seal ctx) = Inr (pb_session_seal_digest parent)"
    using sealed parent(2,3) by (auto simp: sealed_parent_differs_def res_simps)
  ultimately show ?thesis
    using rd cd parent(1,4)
      resources_env.chain [OF policy(2) grant(2) child(2)]
      placement_env.chain [OF policy(3) grant(3) child(3)]
      capabilities_env.chain [OF policy(4) grant(4) child(4)]
      nondeterminism_env.chain [OF policy(5) grant(5) child(5)]
      output_env.chain [OF policy(6) grant(6) child(6)]
    by (simp add: is_ok_def)
qed

text \<open>
  C3: delegation only narrows. When a grant is accepted against a sealed Session and a child
  Capsule against the grant, the child lies inside the envelope of the Session itself in every
  dimension (resources, placement, capabilities, nondeterminism, outputs), it runs on exactly the
  Session's runtime profile, and its parent binding names the digests of that Session and of the
  seal accepted for it.
\<close>

theorem delegated_child_contained:
  assumes "validate_against_parent C g ctx = Inr ()"
    and "contains_child C g child = Inr ()"
  shows "resources_contains (sc_maximum_resources (dv_session ctx)) (xc_resources child) \<and>
     placement_contains (sc_placement (dv_session ctx)) (xc_placement child) \<and>
     capabilities_contains (sc_capabilities (dv_session ctx)) (xc_capabilities child) \<and>
     nondeterminism_contains (sc_nondeterminism (dv_session ctx)) (xc_nondeterminism child) \<and>
     output_contains (sc_output (dv_session ctx)) (xc_output child) \<and>
     runtime_digest C (xc_runtime child) = runtime_digest C (sc_runtime (dv_session ctx)) \<and>
     is_ok (runtime_digest C (xc_runtime child)) \<and>
     (\<exists>parent. xc_parent child = Some parent \<and>
        session_digest C (dv_session ctx) = Inr (pb_session_capsule_digest parent) \<and>
        seal_digest C (dv_seal ctx) = Inr (pb_session_seal_digest parent) \<and>
        grant_digest C g = Inr (pb_delegation_grant_digest parent))"
  using assms by (rule delegated_child_envelope)

text \<open>
  C22: a grant never outlives its authority, and nothing can revive it. Let it be accepted at one
  moment. It is then refused, whatever session, subject, verifier and seal it is presented with, at
  every moment past its own expiry or the expiry of the seal it was first accepted with, as soon as
  the revocation generation of the seal or of the grant has moved, and for a session with another
  digest. A renewed seal does not help: the grant names the digest of the first one, so the only
  hypothesis on the seal presented later is that its digest tells it apart from the first if it
  is another one.
\<close>

theorem delegation_revocable:
  assumes "validate_against_parent C g ctx = Inr ()"
    and "dg_expires_unix_ms g \<le> dv_now_unix_ms later \<or> sl_expires_unix_ms (dv_seal ctx) \<le> dv_now_unix_ms later \<or>
         dv_current_seal_revocation_generation later \<noteq> dv_current_seal_revocation_generation ctx \<or>
         dv_current_grant_revocation_generation later \<noteq> dv_current_grant_revocation_generation ctx \<or>
         session_digest C (dv_session later) \<noteq> session_digest C (dv_session ctx)"
    and "seal_digest C (dv_seal later) = seal_digest C (dv_seal ctx) \<Longrightarrow> dv_seal later = dv_seal ctx"
  shows "\<not> is_ok (validate_against_parent C g later)"
proof
  assume "is_ok (validate_against_parent C g later)"
  then have later: "validate_against_parent C g later = Inr ()"
    by (simp add: is_ok_def split: sum.splits)
  have parent: "seal_digest C (dv_seal ctx) = Inr (dg_parent_session_seal_digest g) \<and>
      session_digest C (dv_session ctx) = Inr (dg_parent_session_capsule_digest g)"
    if "validate_against_parent C g ctx = Inr ()" for ctx
    using that by (rule grant_envelope) (auto simp: sealed_parent_differs_def res_simps)
  have "dv_seal later = dv_seal ctx"
    using parent [OF later] parent [OF assms(1)] by (intro assms(3)) simp
  moreover have "session_digest C (dv_session later) = session_digest C (dv_session ctx)"
    using parent [OF later] parent [OF assms(1)] by simp
  ultimately show False
    using assms(1,2) later
    by (auto simp: validate_against_parent_def res_simps seal_ok_iff not_less not_le)
qed

subsection \<open>A concrete delegation\<close>

definition example_canon_capsule :: "'z \<Rightarrow> ('z) canon_capsule_scheme" where
  "example_canon_capsule z =
     example_canon
       \<lparr>ser_policy = (\<lambda>p. Inr (JString (dp_policy_version_id p))),
        ser_session = (\<lambda>s. Inr (JString (sc_tenant_id s))),
        ser_grant = (\<lambda>g. Inr (JString (dg_delegation_id g))),
        ser_execution = (\<lambda>x. Inr (JString (xc_principal_id x))),
        \<dots> = z\<rparr>"

definition example_resources :: ResourceLimits where
  "example_resources =
     \<lparr>rl_cpu_millis = 1000, rl_memory_bytes = 4096, rl_storage_bytes = 4096, rl_task_count = 4,
      rl_process_count = 4, rl_network_egress_bytes = 0, rl_maximum_duration_ms = 1000\<rparr>"

definition example_placement :: PlacementConstraints where
  "example_placement =
     \<lparr>pc_allowed_provider_ids = bs_of_list [''p''],
      pc_allowed_pool_trust_profiles = bs_of_list [ContentDigest ''t''],
      pc_administrative_trust_domains = bs_of_list [''d''], pc_allowed_regions = bt_empty,
      pc_allowed_localities = bt_empty, pc_data_residency = bt_empty, pc_required_devices = bt_empty\<rparr>"

definition example_nondeterminism :: NondeterminismContract where
  "example_nondeterminism = \<lparr>nd_inputs = bt_empty\<rparr>"

definition example_output :: OutputContract where
  "example_output =
     \<lparr>oc_stdout_max_bytes = 10, oc_stderr_max_bytes = 10, oc_structured_output_schema = None,
      oc_artifact_classes = bt_empty, oc_filesystem_change_roots = bs_of_list [''out'']\<rparr>"

definition example_evidence :: EvidenceContract where
  "example_evidence =
     \<lparr>ev_profile = Baseline, ev_maximum_events = 8, ev_maximum_log_bytes = 64, ev_retention_ms = 1000\<rparr>"

lemmas example_validation =
  v_schema_def v_identifier_def v_identifiers_def v_text_def v_argument_def v_bounded_def
  is_ascii_control_def less_eq_char_def MAX_IDENTIFIER_BYTES_def MAX_TEXT_BYTES_def
  MAX_COLLECTION_ENTRIES_def MAX_ARGUMENTS_def MAX_RESOURCE_BYTES_def MAX_DURATION_MS_def
  EXECUTION_CAPSULE_SCHEMA_VERSION_def bt_len_def bt_keys_def bs_of_list_def bs_insert_def

lemma example_contracts_valid:
  "resources_validate example_resources = Inr ()"
  "placement_validate example_placement = Inr ()"
  "capabilities_validate example_capabilities = Inr ()"
  "nondeterminism_validate example_nondeterminism = Inr ()"
  "evidence_validate example_evidence = Inr ()"
  by (simp_all add: example_validation example_resources_def resources_validate_def
      example_placement_def placement_validate_def example_contracts capabilities_validate_def
      capability_grant_validate_def budget_validate_def example_nondeterminism_def
      nondeterminism_validate_def example_evidence_def evidence_validate_def)

lemma example_output_valid: "output_validate example_output = Inr ()"
proof -
  have "normalize_relative_path ''out'' = Inr ''out''" by code_simp
  then show ?thesis
    by (simp add: example_output_def output_validate_def v_relative_path_def example_validation)
qed

definition example_policy :: DelegationPolicy where
  "example_policy =
     \<lparr>dp_planner_principal = ''planner'', dp_planner_implementation_digest = ContentDigest ''i'',
      dp_allowed_program_kinds = bs_of_list [OciImage],
      dp_allowed_program_resolvers = bs_of_list [ContentDigest ''r''],
      dp_allowed_runtime_profiles = bs_of_list [ContentDigest ''sha256:aaa''],
      dp_maximum_resources = example_resources, dp_placement = example_placement,
      dp_capabilities = example_capabilities, dp_nondeterminism = example_nondeterminism,
      dp_output = example_output, dp_maximum_child_count = 3, dp_maximum_concurrency = 2,
      dp_maximum_child_duration_ms = 500, dp_subdelegation_allowed = False,
      dp_policy_version_id = ''v1'', dp_policy_version_digest = ContentDigest ''v''\<rparr>"

definition example_session :: SessionCapsule where
  "example_session =
     \<lparr>sc_schema_version = 1, sc_kind = Kind_Session, sc_tenant_id = ''t'', sc_principal_id = ''u'',
      sc_initial_workspace_digest = ContentDigest ''w'', sc_mutable_workspace_roots = bt_empty,
      sc_runtime = example_runtime, sc_placement = example_placement,
      sc_maximum_resources = example_resources, sc_capabilities = example_capabilities,
      sc_nondeterminism = example_nondeterminism, sc_output = example_output,
      sc_evidence = example_evidence, sc_idle_timeout_ms = 100, sc_hard_lifetime_ms = 900,
      sc_maximum_child_count = 4, sc_maximum_concurrency = 2,
      sc_delegation_policies = bt_insert ''pol'' example_policy bt_empty\<rparr>"

definition example_delegation :: DelegationGrant where
  "example_delegation =
     \<lparr>dg_schema_version = 1, dg_delegation_id = ''deleg'',
      dg_parent_session_capsule_digest = ContentDigest ''sha256:a'',
      dg_parent_session_seal_digest = ContentDigest ''sha256:aaaaaaaa'',
      dg_policy_id = ''pol'', dg_policy_digest = ContentDigest ''sha256:aa'',
      dg_planner_principal = ''planner'', dg_planner_implementation_digest = ContentDigest ''i'',
      dg_allowed_program_kinds = bs_of_list [OciImage],
      dg_allowed_program_resolvers = bs_of_list [ContentDigest ''r''],
      dg_allowed_runtime_profiles = bs_of_list [ContentDigest ''sha256:aaa''],
      dg_maximum_resources = example_resources, dg_placement = example_placement,
      dg_capabilities = example_capabilities, dg_nondeterminism = example_nondeterminism,
      dg_output = example_output, dg_maximum_child_count = 2, dg_maximum_concurrency = 1,
      dg_maximum_child_duration_ms = 400, dg_subdelegation_allowed = False,
      dg_policy_version_id = ''v1'', dg_policy_version_digest = ContentDigest ''v'',
      dg_issued_unix_ms = 20, dg_expires_unix_ms = 90, dg_revocation_generation = 7\<rparr>"

definition example_child :: ExecutionCapsule where
  "example_child =
     \<lparr>xc_schema_version = 1, xc_kind = Kind_Execution, xc_tenant_id = ''t'', xc_principal_id = ''u'',
      xc_program = example_program, xc_arguments = [], xc_working_directory = None,
      xc_input_artifacts = bt_empty, xc_runtime = example_runtime, xc_placement = example_placement,
      xc_resources = example_resources\<lparr>rl_maximum_duration_ms := 300\<rparr>,
      xc_capabilities = example_capabilities, xc_nondeterminism = example_nondeterminism,
      xc_external_effects = example_effects, xc_output = example_output, xc_evidence = example_evidence,
      xc_parent = Some
        \<lparr>pb_session_capsule_digest = ContentDigest ''sha256:a'',
         pb_session_seal_digest = ContentDigest ''sha256:aaaaaaaa'', pb_delegation_id = ''deleg'',
         pb_delegation_grant_digest = ContentDigest ''sha256:aaaaa'',
         pb_workspace_generation_digest = ContentDigest ''w'',
         pb_containment_proof_digest = ContentDigest ''x''\<rparr>\<rparr>"

definition example_context :: DelegationValidationContext where
  "example_context =
     \<lparr>dv_session = example_session, dv_subject = example_subject (ContentDigest ''sha256:a''),
      dv_seal = example_seal (ContentDigest ''sha256:aaaaaaaa'') (ContentDigest ''sha256:a''),
      dv_verifier = example_verifier, dv_now_unix_ms = 50, dv_current_seal_revocation_generation = 3,
      dv_current_grant_revocation_generation = 7\<rparr>"

lemma example_effects_valid: "effects_validate_against example_effects example_capabilities = Inr ()"
  by (simp add: example_contracts effects_validate_against_def declaration_validate_against_def
      try_from_size_or_max_def try_from_size_def example_validation)

lemma example_canonical:
  "ser x = Inr (JString text) \<Longrightarrow>
     canonical_digest (example_canon z) ser x =
       Inr (ContentDigest (''sha256:'' @ replicate (length text) CHR ''a''))"
  by (simp add: canonical_digest_def canonical_bytes_def example_canon_def sha256_def)

lemma example_runtime_digest:
  "runtime_digest (example_canon_capsule z) example_runtime = Inr (ContentDigest ''sha256:aaa'')"
proof -
  have "ser_runtime (example_canon_capsule z) example_runtime = Inr (JString ''elf'')"
    by (simp add: example_canon_capsule_def example_canon_def example_runtime_def)
  then show ?thesis
    by (simp add: runtime_digest_def example_runtime_valid example_canon_capsule_def
        example_canonical [of _ _ "''elf''"] numeral_3_eq_3)
qed

lemma example_policy_valid:
  "policy_validate example_policy example_session (ContentDigest ''sha256:aaa'') = Inr ()"
  by (simp add: policy_validate_def example_policy_def example_session_def example_contracts_valid
      example_output_valid resources_env.contains_refl placement_env.contains_refl
      capabilities_env.contains_refl nondeterminism_env.contains_refl output_env.contains_refl)
    (simp add: example_validation bs_mem_def example_resources_def)

lemma example_session_valid: "session_validate (example_canon_capsule z) example_session = Inr ()"
proof -
  have "rl_maximum_duration_ms example_resources = 1000"
    by (simp add: example_resources_def)
  moreover have "policy_validate example_policy example_session (ContentDigest ''sha256:aaa'') = Inr ()"
    by (rule example_policy_valid)
  ultimately show ?thesis
    unfolding session_validate_def
    by (simp add: example_session_def example_runtime_valid example_runtime_digest
        example_contracts_valid example_output_valid)
      (simp add: example_validation)
qed

lemma example_grant_valid: "grant_validate example_delegation = Inr ()"
  by (simp add: grant_validate_def example_delegation_def example_contracts_valid example_output_valid)
    (simp add: example_validation)

lemma example_child_valid: "execution_validate example_child = Inr ()"
proof -
  have "resources_validate (example_resources\<lparr>rl_maximum_duration_ms := 300\<rparr>) = Inr ()"
    by (simp add: example_resources_def resources_validate_def example_validation)
  then show ?thesis
    by (simp add: execution_validate_def example_child_def example_contracts_valid
        example_output_valid example_program_valid example_runtime_valid example_effects_valid
        binding_validate_def)
      (simp add: example_validation)
qed

lemma example_canonical_capsule:
  "ser x = Inr (JString text) \<Longrightarrow>
     canonical_digest (example_canon_capsule z) ser x =
       Inr (ContentDigest (''sha256:'' @ replicate (length text) CHR ''a''))"
  by (simp add: example_canon_capsule_def example_canonical)

lemma example_digests:
  "session_digest (example_canon_capsule z) example_session = Inr (ContentDigest ''sha256:a'')"
  "policy_digest (example_canon_capsule z) example_policy = Inr (ContentDigest ''sha256:aa'')"
  "grant_digest (example_canon_capsule z) example_delegation = Inr (ContentDigest ''sha256:aaaaa'')"
  "seal_digest (example_canon_capsule z)
     (example_seal (ContentDigest ''sha256:aaaaaaaa'') (ContentDigest ''sha256:a''))
     = Inr (ContentDigest ''sha256:aaaaaaaa'')"
proof -
  let ?C = "example_canon_capsule z"
  have "canonical_digest ?C (ser_session ?C) example_session = Inr (ContentDigest ''sha256:a'')"
    by (subst example_canonical_capsule [of _ _ "''t''"])
      (simp_all add: example_canon_capsule_def example_canon_def example_session_def)
  then show "session_digest ?C example_session = Inr (ContentDigest ''sha256:a'')"
    by (simp add: session_digest_def example_session_valid)
  show "policy_digest ?C example_policy = Inr (ContentDigest ''sha256:aa'')"
    unfolding policy_digest_def
    by (subst example_canonical_capsule [of _ _ "''v1''"])
      (simp_all add: example_canon_capsule_def example_canon_def example_policy_def numeral_eq_Suc)
  have "canonical_digest ?C (ser_grant ?C) example_delegation = Inr (ContentDigest ''sha256:aaaaa'')"
    by (subst example_canonical_capsule [of _ _ "''deleg''"])
      (simp_all add: example_canon_capsule_def example_canon_def example_delegation_def numeral_eq_Suc)
  then show "grant_digest ?C example_delegation = Inr (ContentDigest ''sha256:aaaaa'')"
    by (simp add: grant_digest_def example_grant_valid)
  let ?s = "example_seal (ContentDigest ''sha256:aaaaaaaa'') (ContentDigest ''sha256:a'')"
  have "canonical_digest ?C (ser_seal ?C) ?s = Inr (ContentDigest ''sha256:aaaaaaaa'')"
    by (subst example_canonical_capsule [of _ _ "''sha256:a''"])
      (simp_all add: example_canon_capsule_def example_canon_def example_seal_def
        example_document_def numeral_eq_Suc)
  then show "seal_digest ?C ?s = Inr (ContentDigest ''sha256:aaaaaaaa'')"
    by (simp add: seal_digest_def example_seal_valid)
qed

lemma example_seal_for_session:
  "seal_validate_for_subject (example_canon_capsule z) example_verifier
     (example_seal (ContentDigest ''sha256:aaaaaaaa'') (ContentDigest ''sha256:a''))
     (example_subject (ContentDigest ''sha256:a'')) 50 3 = Inr ()"
  using example_seal_accepted [of _ "''sha256:a''"]
  by (simp add: example_canon_capsule_def numeral_eq_Suc)

lemma example_delegation_accepted:
  "validate_against_parent (example_canon_capsule z) example_delegation example_context = Inr ()"
proof -
  let ?C = "example_canon_capsule z"
  have "sealed_parent_differs ?C example_delegation example_context = Inr False"
    by (simp add: sealed_parent_differs_def example_context_def example_digests)
      (simp add: example_subject_def example_delegation_def)
  moreover have "policy_envelope_violated ?C example_delegation example_policy = Inr False"
    by (simp add: policy_envelope_violated_def example_digests)
      (simp add: example_delegation_def example_policy_def resources_env.contains_refl
        placement_env.contains_refl capabilities_env.contains_refl
        nondeterminism_env.contains_refl output_env.contains_refl)
  moreover have "bt_get (sc_delegation_policies example_session) (dg_policy_id example_delegation)
      = Some example_policy"
    by (simp add: example_session_def example_delegation_def)
  moreover have "dv_session example_context = example_session"
    "dv_subject example_context = example_subject (ContentDigest ''sha256:a'')"
    "dv_seal example_context =
      example_seal (ContentDigest ''sha256:aaaaaaaa'') (ContentDigest ''sha256:a'')"
    "dv_verifier example_context = example_verifier" "dv_now_unix_ms example_context = 50"
    "dv_current_seal_revocation_generation example_context = 3"
    "dg_issued_unix_ms example_delegation = 20" "dg_expires_unix_ms example_delegation = 90"
    "dg_revocation_generation example_delegation = dv_current_grant_revocation_generation example_context"
    by (simp_all add: example_context_def example_delegation_def)
  ultimately show ?thesis
    by (simp add: validate_against_parent_def example_grant_valid example_session_valid
        example_seal_for_session fail_when_def)
qed

lemma example_child_contained:
  "contains_child (example_canon_capsule z) example_delegation example_child = Inr ()"
proof -
  have "resources_contains example_resources (example_resources\<lparr>rl_maximum_duration_ms := 300\<rparr>)"
    by (simp add: resources_contains_def example_resources_def)
  then have "\<forall>c \<in> set (child_checks example_delegation example_child (ContentDigest ''sha256:aaa'')). fst c"
    by (simp add: child_checks_def example_delegation_def example_child_def example_program_def
        placement_env.contains_refl capabilities_env.contains_refl
        nondeterminism_env.contains_refl output_env.contains_refl)
  then have "find (\<lambda>(allowed, _). \<not> allowed)
      (child_checks example_delegation example_child (ContentDigest ''sha256:aaa'')) = None"
    by (simp only: no_check_failed)
  moreover have "xc_runtime example_child = example_runtime"
    by (simp add: example_child_def)
  ultimately show ?thesis
    by (simp add: contains_child_def example_grant_valid example_child_valid example_runtime_digest
        example_digests)
      (simp add: example_child_def example_delegation_def fail_when_def)
qed

theorem delegated_child_contained_witness:
  "resources_contains (sc_maximum_resources example_session) (xc_resources example_child) \<and>
   capabilities_contains (sc_capabilities example_session) (xc_capabilities example_child)"
  using delegated_child_contained [OF example_delegation_accepted [of "()"] example_child_contained]
  by (simp add: example_context_def)

lemma example_other_seal_digest:
  "seal_digest (example_canon_capsule z) (example_seal d (ContentDigest ''cc'')) = Inr (ContentDigest ''sha256:aa'')"
proof -
  let ?C = "example_canon_capsule z"
  have "canonical_digest ?C (ser_seal ?C) (example_seal d (ContentDigest ''cc'')) = Inr (ContentDigest ''sha256:aa'')"
    by (subst example_canonical_capsule [of _ _ "''cc''"])
      (simp_all add: example_canon_capsule_def example_canon_def example_document_def example_seal_def numeral_eq_Suc)
  then show ?thesis
    by (simp add: seal_digest_def example_seal_valid)
qed

theorem delegation_revocable_witness:
  "\<not> is_ok (validate_against_parent (example_canon_capsule ()) example_delegation
     (example_context\<lparr>dv_current_seal_revocation_generation := 4,
        dv_seal := (example_seal (ContentDigest ''sha256:aa'') (ContentDigest ''cc''))\<rparr>))"
  by (rule delegation_revocable [OF example_delegation_accepted])
    (simp_all add: example_context_def example_digests example_other_seal_digest)

end
