(* ===== verification/Accounting.thy ===== *)
theory Accounting
  imports Capsule
begin

text \<open>
  The accounting values of \<^verbatim>\<open>crates/execution/src/reservation.rs\<close>: concurrent reservations, which are
  returned when a child ends, and irreversible capability usage, which is not. Every proof about
  them goes through \<open>rr_at\<close> and \<open>cu_at\<close>, which read an account as a natural number per dimension, so
  the eight checked additions of the source become one equation for all dimensions.
\<close>

record ChildResourceReservation =
  rr_cpu_millis :: u64
  rr_memory_bytes :: u64
  rr_storage_bytes :: u64
  rr_task_count :: u64
  rr_capability_calls :: u64
  rr_capability_request_bytes :: u64
  rr_capability_response_bytes :: u64
  rr_external_effect_count :: u64

record CapabilityUsage =
  cu_capability_calls :: u64
  cu_capability_request_bytes :: u64
  cu_capability_response_bytes :: u64
  cu_external_effect_count :: u64

definition rr_default :: ChildResourceReservation where
  "rr_default =
     \<lparr>rr_cpu_millis = 0, rr_memory_bytes = 0, rr_storage_bytes = 0, rr_task_count = 0,
      rr_capability_calls = 0, rr_capability_request_bytes = 0, rr_capability_response_bytes = 0,
      rr_external_effect_count = 0\<rparr>"

definition cu_default :: CapabilityUsage where
  "cu_default =
     \<lparr>cu_capability_calls = 0, cu_capability_request_bytes = 0, cu_capability_response_bytes = 0,
      cu_external_effect_count = 0\<rparr>"

definition rr_validate :: "ChildResourceReservation \<Rightarrow> unit outcome" where
  "rr_validate r =
     fail_if
       (rr_cpu_millis r = 0 \<or> rr_memory_bytes r = 0 \<or> rr_storage_bytes r = 0 \<or> rr_task_count r = 0)
       (InvalidField ''child resource reservation'' ''compute reservations must be greater than zero'')"

definition rr_contains :: "ChildResourceReservation \<Rightarrow> ChildResourceReservation \<Rightarrow> bool" where
  "rr_contains r child \<longleftrightarrow>
     rr_cpu_millis child \<le> rr_cpu_millis r \<and>
     rr_memory_bytes child \<le> rr_memory_bytes r \<and>
     rr_storage_bytes child \<le> rr_storage_bytes r \<and>
     rr_task_count child \<le> rr_task_count r \<and>
     rr_capability_calls child \<le> rr_capability_calls r \<and>
     rr_capability_request_bytes child \<le> rr_capability_request_bytes r \<and>
     rr_capability_response_bytes child \<le> rr_capability_response_bytes r \<and>
     rr_external_effect_count child \<le> rr_external_effect_count r"

definition rr_checked_add ::
    "ChildResourceReservation \<Rightarrow> ChildResourceReservation \<Rightarrow> ChildResourceReservation outcome" where
  "rr_checked_add a b =
     res_bind (ok_or (checked_add (rr_cpu_millis a) (rr_cpu_millis b)) AccountingFailure) (\<lambda>cpu.
     res_bind (ok_or (checked_add (rr_memory_bytes a) (rr_memory_bytes b)) AccountingFailure) (\<lambda>memory.
     res_bind (ok_or (checked_add (rr_storage_bytes a) (rr_storage_bytes b)) AccountingFailure) (\<lambda>storage.
     res_bind (ok_or (checked_add (rr_task_count a) (rr_task_count b)) AccountingFailure) (\<lambda>tasks.
     res_bind (ok_or (checked_add (rr_capability_calls a) (rr_capability_calls b))
       AccountingFailure) (\<lambda>calls.
     res_bind (ok_or (checked_add (rr_capability_request_bytes a) (rr_capability_request_bytes b))
       AccountingFailure) (\<lambda>request_bytes.
     res_bind (ok_or (checked_add (rr_capability_response_bytes a) (rr_capability_response_bytes b))
       AccountingFailure) (\<lambda>response_bytes.
     res_bind (ok_or (checked_add (rr_external_effect_count a) (rr_external_effect_count b))
       AccountingFailure) (\<lambda>effects.
     Inr \<lparr>rr_cpu_millis = cpu, rr_memory_bytes = memory, rr_storage_bytes = storage,
          rr_task_count = tasks, rr_capability_calls = calls,
          rr_capability_request_bytes = request_bytes, rr_capability_response_bytes = response_bytes,
          rr_external_effect_count = effects\<rparr>))))))))"

definition rr_checked_sub ::
    "ChildResourceReservation \<Rightarrow> ChildResourceReservation \<Rightarrow> ChildResourceReservation outcome" where
  "rr_checked_sub a b =
     res_bind (ok_or (checked_sub (rr_cpu_millis a) (rr_cpu_millis b)) AccountingFailure) (\<lambda>cpu.
     res_bind (ok_or (checked_sub (rr_memory_bytes a) (rr_memory_bytes b)) AccountingFailure) (\<lambda>memory.
     res_bind (ok_or (checked_sub (rr_storage_bytes a) (rr_storage_bytes b)) AccountingFailure) (\<lambda>storage.
     res_bind (ok_or (checked_sub (rr_task_count a) (rr_task_count b)) AccountingFailure) (\<lambda>tasks.
     res_bind (ok_or (checked_sub (rr_capability_calls a) (rr_capability_calls b))
       AccountingFailure) (\<lambda>calls.
     res_bind (ok_or (checked_sub (rr_capability_request_bytes a) (rr_capability_request_bytes b))
       AccountingFailure) (\<lambda>request_bytes.
     res_bind (ok_or (checked_sub (rr_capability_response_bytes a) (rr_capability_response_bytes b))
       AccountingFailure) (\<lambda>response_bytes.
     res_bind (ok_or (checked_sub (rr_external_effect_count a) (rr_external_effect_count b))
       AccountingFailure) (\<lambda>effects.
     Inr \<lparr>rr_cpu_millis = cpu, rr_memory_bytes = memory, rr_storage_bytes = storage,
          rr_task_count = tasks, rr_capability_calls = calls,
          rr_capability_request_bytes = request_bytes, rr_capability_response_bytes = response_bytes,
          rr_external_effect_count = effects\<rparr>))))))))"

definition from_session :: "SessionCapsule \<Rightarrow> ChildResourceReservation" where
  "from_session session =
     (let budget = cc_aggregate_budget (sc_capabilities session); r = sc_maximum_resources session in
      \<lparr>rr_cpu_millis = u64_from_u32 (rl_cpu_millis r), rr_memory_bytes = rl_memory_bytes r,
       rr_storage_bytes = rl_storage_bytes r, rr_task_count = u64_from_u32 (rl_task_count r),
       rr_capability_calls = cb_maximum_calls budget,
       rr_capability_request_bytes = cb_maximum_request_bytes budget,
       rr_capability_response_bytes = cb_maximum_response_bytes budget,
       rr_external_effect_count = cb_maximum_external_effects budget\<rparr>)"

definition from_child :: "ExecutionCapsule \<Rightarrow> ChildResourceReservation" where
  "from_child child =
     (let budget = cc_aggregate_budget (xc_capabilities child); r = xc_resources child in
      \<lparr>rr_cpu_millis = u64_from_u32 (rl_cpu_millis r), rr_memory_bytes = rl_memory_bytes r,
       rr_storage_bytes = rl_storage_bytes r, rr_task_count = u64_from_u32 (rl_task_count r),
       rr_capability_calls = cb_maximum_calls budget,
       rr_capability_request_bytes = cb_maximum_request_bytes budget,
       rr_capability_response_bytes = cb_maximum_response_bytes budget,
       rr_external_effect_count = cb_maximum_external_effects budget\<rparr>)"

definition capability_usage :: "ChildResourceReservation \<Rightarrow> CapabilityUsage" where
  "capability_usage r =
     \<lparr>cu_capability_calls = rr_capability_calls r,
      cu_capability_request_bytes = rr_capability_request_bytes r,
      cu_capability_response_bytes = rr_capability_response_bytes r,
      cu_external_effect_count = rr_external_effect_count r\<rparr>"

definition contains_usage :: "ChildResourceReservation \<Rightarrow> CapabilityUsage \<Rightarrow> bool" where
  "contains_usage r usage \<longleftrightarrow>
     cu_capability_calls usage \<le> rr_capability_calls r \<and>
     cu_capability_request_bytes usage \<le> rr_capability_request_bytes r \<and>
     cu_capability_response_bytes usage \<le> rr_capability_response_bytes r \<and>
     cu_external_effect_count usage \<le> rr_external_effect_count r"

definition cu_checked_add :: "CapabilityUsage \<Rightarrow> CapabilityUsage \<Rightarrow> CapabilityUsage outcome" where
  "cu_checked_add a b =
     res_bind (ok_or (checked_add (cu_capability_calls a) (cu_capability_calls b))
       AccountingFailure) (\<lambda>calls.
     res_bind (ok_or (checked_add (cu_capability_request_bytes a) (cu_capability_request_bytes b))
       AccountingFailure) (\<lambda>request_bytes.
     res_bind (ok_or (checked_add (cu_capability_response_bytes a) (cu_capability_response_bytes b))
       AccountingFailure) (\<lambda>response_bytes.
     res_bind (ok_or (checked_add (cu_external_effect_count a) (cu_external_effect_count b))
       AccountingFailure) (\<lambda>effects.
     Inr \<lparr>cu_capability_calls = calls, cu_capability_request_bytes = request_bytes,
          cu_capability_response_bytes = response_bytes, cu_external_effect_count = effects\<rparr>))))"

subsection \<open>Accounts by dimension\<close>

datatype dimension = Cpu | Memory | Storage | Tasks | Calls | RequestBytes | ResponseBytes | Effects

fun rr_at :: "ChildResourceReservation \<Rightarrow> dimension \<Rightarrow> nat" where
  "rr_at r Cpu = unat (rr_cpu_millis r)"
| "rr_at r Memory = unat (rr_memory_bytes r)"
| "rr_at r Storage = unat (rr_storage_bytes r)"
| "rr_at r Tasks = unat (rr_task_count r)"
| "rr_at r Calls = unat (rr_capability_calls r)"
| "rr_at r RequestBytes = unat (rr_capability_request_bytes r)"
| "rr_at r ResponseBytes = unat (rr_capability_response_bytes r)"
| "rr_at r Effects = unat (rr_external_effect_count r)"

fun cu_at :: "CapabilityUsage \<Rightarrow> dimension \<Rightarrow> nat" where
  "cu_at u Calls = unat (cu_capability_calls u)"
| "cu_at u RequestBytes = unat (cu_capability_request_bytes u)"
| "cu_at u ResponseBytes = unat (cu_capability_response_bytes u)"
| "cu_at u Effects = unat (cu_external_effect_count u)"
| "cu_at u _ = 0"

lemma all_dimensions:
  "(\<forall>d. P d) \<longleftrightarrow> P Cpu \<and> P Memory \<and> P Storage \<and> P Tasks \<and> P Calls \<and> P RequestBytes \<and>
     P ResponseBytes \<and> P Effects"
  by (auto, case_tac d) auto

lemma rr_eq_iff: "a = b \<longleftrightarrow> (\<forall>d. rr_at a d = rr_at b d)"
  by (cases a; cases b) (simp add: all_dimensions word_unat)

lemma cu_eq_iff: "a = b \<longleftrightarrow> (\<forall>d. cu_at a d = cu_at b d)"
  by (cases a; cases b) (simp add: all_dimensions word_unat)

lemma rr_at_less [simp]: "rr_at r d < 2 ^ 64"
  using unat_less_size [where 'a = 64] by (cases d) simp_all

lemma cu_at_less [simp]: "cu_at u d < 2 ^ 64"
  using unat_less_size [where 'a = 64] by (cases d) simp_all

lemma rr_default_at [simp]: "rr_at rr_default d = 0"
  by (cases d) (simp_all add: rr_default_def)

lemma cu_default_at [simp]: "cu_at cu_default d = 0"
  by (cases d) (simp_all add: cu_default_def)

lemma rr_contains_at: "rr_contains a b \<longleftrightarrow> (\<forall>d. rr_at b d \<le> rr_at a d)"
  by (simp add: rr_contains_def all_dimensions word_le_nat_alt)

lemma contains_usage_at: "contains_usage r u \<longleftrightarrow> (\<forall>d. cu_at u d \<le> rr_at r d)"
  by (simp add: contains_usage_def all_dimensions word_le_nat_alt)

lemma rr_checked_add_at:
  "rr_checked_add a b = Inr c \<longleftrightarrow> (\<forall>d. rr_at c d = rr_at a d + rr_at b d)"
  by (cases c) (auto simp: rr_checked_add_def res_simps num_simps all_dimensions)

lemma rr_checked_sub_at:
  "rr_checked_sub a b = Inr c \<longleftrightarrow> (\<forall>d. rr_at a d = rr_at b d + rr_at c d)"
  by (cases c) (auto simp: rr_checked_sub_def res_simps num_simps all_dimensions)

lemma cu_checked_add_at:
  "cu_checked_add a b = Inr c \<longleftrightarrow> (\<forall>d. cu_at c d = cu_at a d + cu_at b d)"
  by (cases c) (auto simp: cu_checked_add_def res_simps num_simps all_dimensions)

text \<open>An account with given contents, and with it: an addition that fits in every dimension succeeds.\<close>

definition rr_of :: "(dimension \<Rightarrow> nat) \<Rightarrow> ChildResourceReservation" where
  "rr_of f =
     \<lparr>rr_cpu_millis = of_nat (f Cpu), rr_memory_bytes = of_nat (f Memory),
      rr_storage_bytes = of_nat (f Storage), rr_task_count = of_nat (f Tasks),
      rr_capability_calls = of_nat (f Calls), rr_capability_request_bytes = of_nat (f RequestBytes),
      rr_capability_response_bytes = of_nat (f ResponseBytes),
      rr_external_effect_count = of_nat (f Effects)\<rparr>"

definition cu_of :: "(dimension \<Rightarrow> nat) \<Rightarrow> CapabilityUsage" where
  "cu_of f =
     \<lparr>cu_capability_calls = of_nat (f Calls), cu_capability_request_bytes = of_nat (f RequestBytes),
      cu_capability_response_bytes = of_nat (f ResponseBytes),
      cu_external_effect_count = of_nat (f Effects)\<rparr>"

lemma unat_of_fitting: "n < 2 ^ 64 \<Longrightarrow> unat (of_nat n :: u64) = n"
  by (simp add: unat_of_nat take_bit_nat_eq_self)

lemma rr_at_of: "f d < 2 ^ 64 \<Longrightarrow> rr_at (rr_of f) d = f d"
  by (cases d) (simp_all add: rr_of_def unat_of_fitting)

lemma cu_at_of: "f d < 2 ^ 64 \<Longrightarrow> cu_at (cu_of f) d = (if d \<in> {Calls, RequestBytes, ResponseBytes, Effects} then f d else 0)"
  by (cases d) (simp_all add: cu_of_def unat_of_fitting)

lemma cu_at_compute: "d \<notin> {Calls, RequestBytes, ResponseBytes, Effects} \<Longrightarrow> cu_at u d = 0"
  by (cases d) simp_all

lemma rr_checked_add_ex:
  assumes "\<And>d. rr_at a d + rr_at b d < 2 ^ 64"
  obtains c where "rr_checked_add a b = Inr c" "\<And>d. rr_at c d = rr_at a d + rr_at b d"
proof -
  have "rr_at (rr_of (\<lambda>d. rr_at a d + rr_at b d)) d = rr_at a d + rr_at b d" for d
    using assms by (rule rr_at_of)
  then show thesis
    using that rr_checked_add_at by metis
qed

lemma cu_checked_add_ex:
  assumes "\<And>d. cu_at a d + cu_at b d < 2 ^ 64"
  obtains c where "cu_checked_add a b = Inr c" "\<And>d. cu_at c d = cu_at a d + cu_at b d"
proof -
  have "cu_at (cu_of (\<lambda>d. cu_at a d + cu_at b d)) d = cu_at a d + cu_at b d" for d
    using cu_at_of [where f = "\<lambda>d. cu_at a d + cu_at b d" and d = d] assms [of d] cu_at_compute [of d a] cu_at_compute [of d b]
    by (simp split: if_splits)
  then show thesis
    using that cu_checked_add_at by metis
qed

lemma rr_checked_sub_ex:
  assumes "\<And>d. rr_at b d \<le> rr_at a d"
  obtains c where "rr_checked_sub a b = Inr c" "\<And>d. rr_at a d = rr_at b d + rr_at c d"
proof -
  have "rr_at a d - rr_at b d < 2 ^ 64" for d
    using rr_at_less [of a d] by (rule le_less_trans [rotated]) simp
  then have "rr_at (rr_of (\<lambda>d. rr_at a d - rr_at b d)) d = rr_at a d - rr_at b d" for d
    by (rule rr_at_of)
  then have "rr_at a d = rr_at b d + rr_at (rr_of (\<lambda>d. rr_at a d - rr_at b d)) d" for d
    using assms [of d] by simp
  then show thesis
    using that rr_checked_sub_at by metis
qed

lemma cu_of_usage:
  "cu_at (capability_usage r) d =
     (if d \<in> {Calls, RequestBytes, ResponseBytes, Effects} then rr_at r d else 0)"
  by (cases d) (simp_all add: capability_usage_def)

text \<open>
  The capacity test of the ledger: allocation within the limits, and usage to date together with
  everything still reserved within the limits too.
\<close>

definition within_limits ::
    "ChildResourceReservation \<Rightarrow> CapabilityUsage \<Rightarrow> ChildResourceReservation \<Rightarrow> bool" where
  "within_limits limits used reserved \<longleftrightarrow> (\<forall>d. cu_at used d + rr_at reserved d \<le> rr_at limits d)"

lemma within_limits_iff:
  assumes "cu_checked_add used (capability_usage reserved) = Inr spent"
  shows "rr_contains limits reserved \<and> contains_usage limits spent \<longleftrightarrow> within_limits limits used reserved"
proof -
  have spent: "cu_at spent d = (if d \<in> {Calls, RequestBytes, ResponseBytes, Effects}
      then cu_at used d + rr_at reserved d else 0)" for d
    using assms cu_at_compute [of d used] by (simp add: cu_checked_add_at cu_of_usage)
  have "rr_at reserved d \<le> rr_at limits d \<and> cu_at spent d \<le> rr_at limits d \<longleftrightarrow>
      cu_at used d + rr_at reserved d \<le> rr_at limits d" for d
    using spent [of d] cu_at_compute [of d used] by auto
  then show ?thesis
    unfolding rr_contains_at contains_usage_at within_limits_def by blast
qed

lemma within_limits_fits:
  assumes "within_limits limits used reserved"
  obtains spent where "cu_checked_add used (capability_usage reserved) = Inr spent"
proof -
  have "cu_at used d + cu_at (capability_usage reserved) d < 2 ^ 64" for d
  proof -
    have "cu_at used d + cu_at (capability_usage reserved) d \<le> cu_at used d + rr_at reserved d"
      by (simp add: cu_of_usage)
    also have "\<dots> \<le> rr_at limits d"
      using assms by (simp add: within_limits_def)
    finally show ?thesis
      using rr_at_less [of limits d] by (rule le_less_trans)
  qed
  then show thesis
    by (rule cu_checked_add_ex) (use that in blast)
qed

end
