(* ===== verification/Reservation.thy ===== *)
theory Reservation
  imports Accounting
begin

text \<open>
  \<^verbatim>\<open>crates/execution/src/reservation.rs\<close>: the ledger of child reservations of one Session. Public methods
  work on a staged copy and replace the ledger only when every check has passed; the private staged
  operations \<open>reserve_staged\<close> and \<open>transition_staged\<close> run on that copy alone, so they return
  the new ledger with the result and drop it on an error, while the public ones return the ledger
  the caller holds afterwards in every case.
\<close>

definition SESSION_RESERVATION_SCHEMA_VERSION :: u32 where
  "SESSION_RESERVATION_SCHEMA_VERSION = 1"

record ChildAdmissionRequest =
  ca_schema_version :: u32
  ca_reservation_id :: string
  ca_session_id :: string
  ca_child_execution_id :: string
  ca_idempotency_key :: string
  ca_session_fence :: u64
  ca_expected_ledger_revision :: u64
  ca_created_unix_ms :: u64

definition admission_validate :: "ChildAdmissionRequest \<Rightarrow> unit outcome" where
  "admission_validate r =
     seq_checks
       [v_schema ''child admission schema version'' (ca_schema_version r)
          SESSION_RESERVATION_SCHEMA_VERSION,
        v_identifier ''reservation identity'' (ca_reservation_id r),
        v_identifier ''Session identity'' (ca_session_id r),
        v_identifier ''child Execution identity'' (ca_child_execution_id r),
        v_identifier ''child admission idempotency key'' (ca_idempotency_key r),
        fail_if (ca_session_fence r = 0 \<or> ca_created_unix_ms r = 0)
          (InvalidField ''child admission fence or creation time'' ''must be greater than zero'')]"

record ChildReservationRequest =
  rq_schema_version :: u32
  rq_reservation_id :: string
  rq_session_id :: string
  rq_session_capsule_digest :: ContentDigest
  rq_child_execution_id :: string
  rq_child_capsule_digest :: ContentDigest
  rq_idempotency_key :: string
  rq_session_fence :: u64
  rq_expected_ledger_revision :: u64
  rq_resources :: ChildResourceReservation
  rq_created_unix_ms :: u64

datatype ReservationState = Reserved | Released | Finalized

datatype ReservationTerminalOutcome =
    Outcome_Released ContentDigest
  | Outcome_Finalized ContentDigest

record ReservationTransitionRequest =
  tr_schema_version :: u32
  tr_reservation_id :: string
  tr_child_execution_id :: string
  tr_idempotency_key :: string
  tr_session_fence :: u64
  tr_expected_ledger_revision :: u64
  tr_outcome :: ReservationTerminalOutcome
  tr_actual_usage :: CapabilityUsage
  tr_observed_unix_ms :: u64

record ChildReservationRecord =
  rec_request :: ChildReservationRequest
  rec_request_digest :: ContentDigest
  rec_generation :: u64
  rec_state :: ReservationState
  rec_terminal_request_digest :: "ContentDigest option"
  rec_terminal_request :: "ReservationTransitionRequest option"
  rec_terminal_outcome :: "ReservationTerminalOutcome option"

record ReservationResult =
  rs_record :: ChildReservationRecord
  rs_replayed :: bool

record canon_ledger = canon_capsule +
  ser_reservation :: "ChildReservationRequest \<Rightarrow> (string, json) result"
  ser_transition :: "ReservationTransitionRequest \<Rightarrow> (string, json) result"
  ser_record :: "ChildReservationRecord \<Rightarrow> (string, json) result"

definition request_validate :: "ChildReservationRequest \<Rightarrow> unit outcome" where
  "request_validate r =
     seq_checks
       [v_schema ''child reservation schema version'' (rq_schema_version r)
          SESSION_RESERVATION_SCHEMA_VERSION,
        v_identifier ''reservation identity'' (rq_reservation_id r),
        v_identifier ''Session identity'' (rq_session_id r),
        v_identifier ''child Execution identity'' (rq_child_execution_id r),
        v_identifier ''reservation idempotency key'' (rq_idempotency_key r),
        fail_if (rq_session_fence r = 0 \<or> rq_created_unix_ms r = 0)
          (InvalidField ''reservation fence or creation time'' ''must be greater than zero''),
        rr_validate (rq_resources r)]"

definition request_canonical_bytes ::
    "('z) canon_ledger_scheme \<Rightarrow> ChildReservationRequest \<Rightarrow> u8 list outcome" where
  "request_canonical_bytes C r =
     res_bind (request_validate r) (\<lambda>_. canonical_bytes C (ser_reservation C) r)"

definition request_digest ::
    "('z) canon_ledger_scheme \<Rightarrow> ChildReservationRequest \<Rightarrow> ContentDigest outcome" where
  "request_digest C r = res_bind (request_validate r) (\<lambda>_. canonical_digest C (ser_reservation C) r)"

definition transition_validate :: "ReservationTransitionRequest \<Rightarrow> unit outcome" where
  "transition_validate r =
     seq_checks
       [v_schema ''reservation transition schema version'' (tr_schema_version r)
          SESSION_RESERVATION_SCHEMA_VERSION,
        v_identifier ''reservation identity'' (tr_reservation_id r),
        v_identifier ''child Execution identity'' (tr_child_execution_id r),
        v_identifier ''transition idempotency key'' (tr_idempotency_key r),
        fail_if (tr_session_fence r = 0 \<or> tr_observed_unix_ms r = 0)
          (InvalidField ''transition fence or observation time'' ''must be greater than zero'')]"

definition transition_digest ::
    "('z) canon_ledger_scheme \<Rightarrow> ReservationTransitionRequest \<Rightarrow> ContentDigest outcome" where
  "transition_digest C r =
     res_bind (transition_validate r) (\<lambda>_. canonical_digest C (ser_transition C) r)"

definition record_canonical_bytes ::
    "('z) canon_ledger_scheme \<Rightarrow> ChildReservationRecord \<Rightarrow> u8 list outcome" where
  "record_canonical_bytes C r = canonical_bytes C (ser_record C) r"

subsection \<open>The ledger\<close>

record SessionReservationLedger =
  lg_session_id :: string
  lg_session_capsule_digest :: ContentDigest
  lg_session_fence :: u64
  lg_ledger_revision :: u64
  lg_limits :: ChildResourceReservation
  lg_allocated :: ChildResourceReservation
  lg_cumulative_usage :: CapabilityUsage
  lg_maximum_concurrency :: u32
  lg_maximum_child_count :: u32
  lg_active_concurrency :: u32
  lg_admitted_child_count :: u32
  lg_next_generation :: u64
  lg_reservations :: "(string, ChildReservationRecord) btree"
  lg_child_reservations :: "(string, string) btree"
  lg_reserve_idempotency :: "(string, string) btree"
  lg_transition_idempotency :: "(string, string \<times> ContentDigest) btree"

definition ledger_new ::
    "('z) canon_ledger_scheme \<Rightarrow> string \<Rightarrow> SessionCapsule \<Rightarrow> u64 \<Rightarrow> SessionReservationLedger outcome" where
  "ledger_new C session_id session session_fence =
     res_bind
       (seq_checks
         [v_identifier ''Session identity'' session_id,
          session_validate C session,
          fail_if (session_fence = 0) StaleSessionFence]) (\<lambda>_.
     res_bind (session_digest C session) (\<lambda>digest.
       Inr \<lparr>lg_session_id = session_id, lg_session_capsule_digest = digest,
            lg_session_fence = session_fence, lg_ledger_revision = 0,
            lg_limits = from_session session, lg_allocated = rr_default,
            lg_cumulative_usage = cu_default,
            lg_maximum_concurrency = sc_maximum_concurrency session,
            lg_maximum_child_count = sc_maximum_child_count session,
            lg_active_concurrency = 0, lg_admitted_child_count = 0, lg_next_generation = 1,
            lg_reservations = bt_empty, lg_child_reservations = bt_empty,
            lg_reserve_idempotency = bt_empty, lg_transition_idempotency = bt_empty\<rparr>))"

definition reservation ::
    "SessionReservationLedger \<Rightarrow> string \<Rightarrow> ChildReservationRecord option" where
  "reservation L reservation_id = bt_get (lg_reservations L) reservation_id"

text \<open>\<^verbatim>\<open>validate\<close>: the variables of its loop, one iteration, and the final comparison.\<close>

record rebuilt =
  rb_reconstructed :: ChildResourceReservation
  rb_reconstructed_usage :: CapabilityUsage
  rb_active :: u32
  rb_max_generation :: u64
  rb_terminal_count :: nat
  rb_generations :: "u64 bset"

definition rebuilt_start :: rebuilt where
  "rebuilt_start =
     \<lparr>rb_reconstructed = rr_default, rb_reconstructed_usage = cu_default, rb_active = 0,
      rb_max_generation = 0, rb_terminal_count = 0, rb_generations = bt_empty\<rparr>"

definition outcome_state :: "ReservationTerminalOutcome \<Rightarrow> ReservationState" where
  "outcome_state outcome =
     (case outcome of Outcome_Released _ \<Rightarrow> Released | Outcome_Finalized _ \<Rightarrow> Finalized)"

definition rebuild_reserved :: "rebuilt \<Rightarrow> ChildReservationRecord \<Rightarrow> rebuilt outcome" where
  "rebuild_reserved acc r =
     res_bind
       (fail_if
         (is_some (rec_terminal_request_digest r) \<or> is_some (rec_terminal_request r) \<or>
          is_some (rec_terminal_outcome r)) AccountingFailure) (\<lambda>_.
     res_bind (rr_checked_add (rb_reconstructed acc) (rq_resources (rec_request r))) (\<lambda>reconstructed.
     res_bind (ok_or (checked_add (rb_active acc) 1) AccountingFailure) (\<lambda>active.
       Inr (acc\<lparr>rb_reconstructed := reconstructed, rb_active := active\<rparr>))))"

definition rebuild_terminal ::
    "('z) canon_ledger_scheme \<Rightarrow> SessionReservationLedger \<Rightarrow> rebuilt \<Rightarrow> string
     \<Rightarrow> ChildReservationRecord \<Rightarrow> rebuilt outcome" where
  "rebuild_terminal C L acc reservation_id r =
     res_bind (ok_or (rec_terminal_request r) AccountingFailure) (\<lambda>terminal.
     res_bind (transition_digest C terminal) (\<lambda>terminal_digest.
     res_bind
       (fail_if (\<not> contains_usage (rq_resources (rec_request r)) (tr_actual_usage terminal))
         AccountingFailure) (\<lambda>_.
     res_bind (cu_checked_add (rb_reconstructed_usage acc) (tr_actual_usage terminal)) (\<lambda>usage.
     res_bind
       (fail_if
         (tr_reservation_id terminal \<noteq> reservation_id \<or>
          tr_child_execution_id terminal \<noteq> rq_child_execution_id (rec_request r) \<or>
          tr_session_fence terminal \<noteq> lg_session_fence L \<or>
          rec_terminal_request_digest r \<noteq> Some terminal_digest \<or>
          rec_terminal_outcome r \<noteq> Some (tr_outcome terminal) \<or>
          rec_state r \<noteq> outcome_state (tr_outcome terminal) \<or>
          bt_get (lg_transition_idempotency L) (tr_idempotency_key terminal)
            \<noteq> Some (reservation_id, terminal_digest)) AccountingFailure) (\<lambda>_.
       Inr (acc\<lparr>rb_terminal_count := rb_terminal_count acc + 1, rb_reconstructed_usage := usage\<rparr>))))))"

definition rebuild_step ::
    "('z) canon_ledger_scheme \<Rightarrow> SessionReservationLedger \<Rightarrow> rebuilt \<Rightarrow> string
     \<Rightarrow> ChildReservationRecord \<Rightarrow> rebuilt outcome" where
  "rebuild_step C L acc reservation_id r =
     res_bind (request_validate (rec_request r)) (\<lambda>_.
     res_bind
       (fail_when
         (any_of
           [Inr (reservation_id \<noteq> rq_reservation_id (rec_request r)),
            res_bind (request_digest C (rec_request r)) (\<lambda>d. Inr (rec_request_digest r \<noteq> d)),
            Inr (rq_session_id (rec_request r) \<noteq> lg_session_id L),
            Inr (rq_session_capsule_digest (rec_request r) \<noteq> lg_session_capsule_digest L),
            Inr (rq_session_fence (rec_request r) \<noteq> lg_session_fence L),
            Inr (rec_generation r = 0),
            Inr (bs_mem (rec_generation r) (rb_generations acc)),
            Inr (bt_get (lg_child_reservations L) (rq_child_execution_id (rec_request r))
                   \<noteq> Some reservation_id),
            Inr (bt_get (lg_reserve_idempotency L) (rq_idempotency_key (rec_request r))
                   \<noteq> Some reservation_id)])
         AccountingFailure) (\<lambda>_.
       let acc' = acc\<lparr>rb_generations := bs_insert (rec_generation r) (rb_generations acc),
                      rb_max_generation := max (rb_max_generation acc) (rec_generation r)\<rparr> in
       (case rec_state r of
          Reserved \<Rightarrow> rebuild_reserved acc' r
        | Released \<Rightarrow> rebuild_terminal C L acc' reservation_id r
        | Finalized \<Rightarrow> rebuild_terminal C L acc' reservation_id r)))"

fun rebuild ::
    "('z) canon_ledger_scheme \<Rightarrow> SessionReservationLedger \<Rightarrow> rebuilt
     \<Rightarrow> (string \<times> ChildReservationRecord) list \<Rightarrow> rebuilt outcome" where
  "rebuild C L acc [] = Inr acc"
| "rebuild C L acc ((reservation_id, r) # rest) =
     res_bind (rebuild_step C L acc reservation_id r) (\<lambda>acc'. rebuild C L acc' rest)"

definition ledger_validate ::
    "('z) canon_ledger_scheme \<Rightarrow> SessionReservationLedger \<Rightarrow> unit outcome" where
  "ledger_validate C L =
     res_bind
       (seq_checks
         [v_identifier ''Session identity'' (lg_session_id L),
          rr_validate (lg_limits L),
          fail_if
            (lg_session_fence L = 0 \<or> lg_maximum_concurrency L = 0 \<or> lg_maximum_child_count L = 0 \<or>
             lg_maximum_concurrency L > lg_maximum_child_count L) AccountingFailure]) (\<lambda>_.
     res_bind (rebuild C L rebuilt_start (bt_entries (lg_reservations L))) (\<lambda>acc.
     res_bind (ok_or (try_from_size (bt_len (lg_reservations L))) AccountingFailure) (\<lambda>admitted.
     res_bind (ok_or (checked_add (rb_max_generation acc) 1) AccountingFailure) (\<lambda>expected_next.
     res_bind
       (ok_or
         (Option.bind (try_from_size (bt_len (lg_reservations L))) (\<lambda>count.
          Option.bind (try_from_size (rb_terminal_count acc)) (\<lambda>terminal.
            checked_add count terminal))) AccountingFailure) (\<lambda>expected_revision.
       fail_when
         (any_of
           [Inr (bt_len (lg_child_reservations L) \<noteq> bt_len (lg_reservations L)),
            Inr (bt_len (lg_reserve_idempotency L) \<noteq> bt_len (lg_reservations L)),
            Inr (bt_len (lg_transition_idempotency L) \<noteq> rb_terminal_count acc),
            Inr (lg_allocated L \<noteq> rb_reconstructed acc),
            Inr (lg_cumulative_usage L \<noteq> rb_reconstructed_usage acc),
            Inr (\<not> rr_contains (lg_limits L) (lg_allocated L)),
            res_bind (cu_checked_add (lg_cumulative_usage L) (capability_usage (lg_allocated L)))
              (\<lambda>spent. Inr (\<not> contains_usage (lg_limits L) spent)),
            Inr (lg_active_concurrency L \<noteq> rb_active acc),
            Inr (lg_active_concurrency L > lg_maximum_concurrency L),
            Inr (lg_admitted_child_count L \<noteq> admitted),
            Inr (lg_admitted_child_count L > lg_maximum_child_count L),
            Inr (lg_next_generation L \<noteq> expected_next),
            Inr (lg_ledger_revision L \<noteq> expected_revision)]) AccountingFailure)))))"

subsection \<open>Operations\<close>

definition exact_reservation_replay ::
    "('z) canon_ledger_scheme \<Rightarrow> SessionReservationLedger \<Rightarrow> ChildReservationRequest
     \<Rightarrow> ReservationResult option outcome" where
  "exact_reservation_replay C L request =
     (case bt_get (lg_reserve_idempotency L) (rq_idempotency_key request) of
        None \<Rightarrow> Inr None
      | Some reservation_id \<Rightarrow>
          res_bind (ok_or (bt_get (lg_reservations L) reservation_id) AccountingFailure) (\<lambda>r.
          res_bind (request_digest C request) (\<lambda>digest.
            if rec_request_digest r \<noteq> digest then Inl IdempotencyConflict
            else Inr (Some \<lparr>rs_record = r, rs_replayed = True\<rparr>))))"

definition reserve_staged ::
    "('z) canon_ledger_scheme \<Rightarrow> SessionReservationLedger \<Rightarrow> ChildReservationRequest
     \<Rightarrow> (ReservationResult \<times> SessionReservationLedger) outcome" where
  "reserve_staged C L request =
     res_bind (request_validate request) (\<lambda>_.
     res_bind (request_digest C request) (\<lambda>digest.
     res_bind (exact_reservation_replay C L request) (\<lambda>replay.
     (case replay of
        Some result \<Rightarrow> Inr (result, L)
      | None \<Rightarrow>
     res_bind
       (seq_checks
         [fail_if (rq_session_fence request \<noteq> lg_session_fence L) StaleSessionFence,
          fail_if (rq_expected_ledger_revision request \<noteq> lg_ledger_revision L) StaleLedgerRevision,
          fail_if
            (rq_session_id request \<noteq> lg_session_id L \<or>
             rq_session_capsule_digest request \<noteq> lg_session_capsule_digest L \<or>
             bt_contains_key (lg_reservations L) (rq_reservation_id request) \<or>
             bt_contains_key (lg_child_reservations L) (rq_child_execution_id request))
            ReservationIdentityConflict]) (\<lambda>_.
     res_bind (rr_checked_add (lg_allocated L) (rq_resources request)) (\<lambda>allocated.
     res_bind (cu_checked_add (lg_cumulative_usage L) (capability_usage allocated)) (\<lambda>committed_and_reserved.
     res_bind
       (fail_if
         (\<not> rr_contains (lg_limits L) allocated \<or>
          \<not> contains_usage (lg_limits L) committed_and_reserved \<or>
          lg_active_concurrency L \<ge> lg_maximum_concurrency L \<or>
          lg_admitted_child_count L \<ge> lg_maximum_child_count L)
         ReservationCapacityUnavailable) (\<lambda>_.
     res_bind (ok_or (checked_add (lg_next_generation L) 1) AccountingFailure) (\<lambda>next_generation.
     res_bind (ok_or (checked_add (lg_active_concurrency L) 1) AccountingFailure) (\<lambda>next_active.
     res_bind (ok_or (checked_add (lg_admitted_child_count L) 1) AccountingFailure) (\<lambda>next_admitted.
     res_bind (ok_or (checked_add (lg_ledger_revision L) 1) AccountingFailure) (\<lambda>next_revision.
       let r = \<lparr>rec_request = request, rec_request_digest = digest,
                rec_generation = lg_next_generation L, rec_state = Reserved,
                rec_terminal_request_digest = None, rec_terminal_request = None,
                rec_terminal_outcome = None\<rparr> in
       Inr (\<lparr>rs_record = r, rs_replayed = False\<rparr>,
            L\<lparr>lg_allocated := allocated, lg_active_concurrency := next_active,
              lg_admitted_child_count := next_admitted, lg_next_generation := next_generation,
              lg_ledger_revision := next_revision,
              lg_child_reservations :=
                bt_insert (rq_child_execution_id request) (rq_reservation_id request)
                  (lg_child_reservations L),
              lg_reserve_idempotency :=
                bt_insert (rq_idempotency_key request) (rq_reservation_id request)
                  (lg_reserve_idempotency L),
              lg_reservations :=
                bt_insert (rq_reservation_id request) r (lg_reservations L)\<rparr>)))))))))))))"

definition transition_staged ::
    "('z) canon_ledger_scheme \<Rightarrow> SessionReservationLedger \<Rightarrow> ReservationTransitionRequest
     \<Rightarrow> (ReservationResult \<times> SessionReservationLedger) outcome" where
  "transition_staged C L request =
     res_bind (transition_validate request) (\<lambda>_.
     res_bind (transition_digest C request) (\<lambda>digest.
     (case bt_get (lg_transition_idempotency L) (tr_idempotency_key request) of
        Some (reservation_id, prior_digest) \<Rightarrow>
          if prior_digest \<noteq> digest then Inl IdempotencyConflict
          else res_bind (ok_or (bt_get (lg_reservations L) reservation_id) AccountingFailure) (\<lambda>r.
            Inr (\<lparr>rs_record = r, rs_replayed = True\<rparr>, L))
      | None \<Rightarrow>
     res_bind
       (seq_checks
         [fail_if (tr_session_fence request \<noteq> lg_session_fence L) StaleSessionFence,
          fail_if (tr_expected_ledger_revision request \<noteq> lg_ledger_revision L) StaleLedgerRevision])
       (\<lambda>_.
     res_bind (ok_or (bt_get (lg_reservations L) (tr_reservation_id request)) ReservationNotFound) (\<lambda>r.
     res_bind
       (seq_checks
         [fail_if (rq_child_execution_id (rec_request r) \<noteq> tr_child_execution_id request)
            ReservationIdentityConflict,
          fail_if (rec_state r \<noteq> Reserved) InvalidReservationTransition]) (\<lambda>_.
     res_bind (rr_checked_sub (lg_allocated L) (rq_resources (rec_request r))) (\<lambda>allocated.
     res_bind
       (fail_if (\<not> contains_usage (rq_resources (rec_request r)) (tr_actual_usage request))
         AccountingFailure) (\<lambda>_.
     res_bind (cu_checked_add (lg_cumulative_usage L) (tr_actual_usage request)) (\<lambda>cumulative_usage.
     res_bind (ok_or (checked_sub (lg_active_concurrency L) 1) AccountingFailure) (\<lambda>active.
     res_bind (ok_or (checked_add (lg_ledger_revision L) 1) AccountingFailure) (\<lambda>next_revision.
       let r' = r\<lparr>rec_state := outcome_state (tr_outcome request),
                  rec_terminal_request_digest := Some digest,
                  rec_terminal_request := Some request,
                  rec_terminal_outcome := Some (tr_outcome request)\<rparr> in
       Inr (\<lparr>rs_record = r', rs_replayed = False\<rparr>,
            L\<lparr>lg_reservations := bt_insert (tr_reservation_id request) r' (lg_reservations L),
              lg_allocated := allocated, lg_cumulative_usage := cumulative_usage,
              lg_active_concurrency := active,
              lg_transition_idempotency :=
                bt_insert (tr_idempotency_key request) (tr_reservation_id request, digest)
                  (lg_transition_idempotency L),
              lg_ledger_revision := next_revision\<rparr>))))))))))))"

text \<open>
  Staging: validate, run the step on a copy, validate the copy, and only then replace the state.
\<close>

definition staged_commit ::
    "('s \<Rightarrow> unit outcome) \<Rightarrow> ('s \<Rightarrow> ('r \<times> 's) outcome) \<Rightarrow> 's \<Rightarrow> 'r outcome \<times> 's" where
  "staged_commit validate step s =
     (case res_bind (validate s) (\<lambda>_.
           res_bind (step s) (\<lambda>(result, staged).
           res_bind (validate staged) (\<lambda>_. Inr (result, staged)))) of
        Inl e \<Rightarrow> (Inl e, s)
      | Inr (result, staged) \<Rightarrow> (Inr result, staged))"

definition release ::
    "('z) canon_ledger_scheme \<Rightarrow> SessionReservationLedger \<Rightarrow> ReservationTransitionRequest
     \<Rightarrow> ReservationResult outcome \<times> SessionReservationLedger" where
  "release C L request =
     (case tr_outcome request of
        Outcome_Finalized _ \<Rightarrow> (Inl InvalidReservationTransition, L)
      | Outcome_Released _ \<Rightarrow>
          staged_commit (ledger_validate C) (\<lambda>staged. transition_staged C staged request) L)"

record AdmissionContext =
  ac_session :: SessionCapsule
  ac_subject :: ApprovalSubject
  ac_seal :: Seal
  ac_verifier :: "Seal \<Rightarrow> u8 list \<Rightarrow> bool"
  ac_grant :: DelegationGrant
  ac_child :: ExecutionCapsule
  ac_now_unix_ms :: u64
  ac_current_policy_digest :: ContentDigest
  ac_current_seal_revocation_generation :: u64
  ac_current_grant_revocation_generation :: u64

definition derived_request ::
    "ChildAdmissionRequest \<Rightarrow> ContentDigest \<Rightarrow> ContentDigest \<Rightarrow> ExecutionCapsule \<Rightarrow> ChildReservationRequest" where
  "derived_request request sdigest cdigest child =
     \<lparr>rq_schema_version = ca_schema_version request, rq_reservation_id = ca_reservation_id request,
      rq_session_id = ca_session_id request, rq_session_capsule_digest = sdigest,
      rq_child_execution_id = ca_child_execution_id request, rq_child_capsule_digest = cdigest,
      rq_idempotency_key = ca_idempotency_key request, rq_session_fence = ca_session_fence request,
      rq_expected_ledger_revision = ca_expected_ledger_revision request,
      rq_resources = from_child child, rq_created_unix_ms = ca_created_unix_ms request\<rparr>"

definition admission_context :: "AdmissionContext \<Rightarrow> DelegationValidationContext" where
  "admission_context a =
     \<lparr>dv_session = ac_session a, dv_subject = ac_subject a, dv_seal = ac_seal a,
      dv_verifier = ac_verifier a, dv_now_unix_ms = ac_now_unix_ms a,
      dv_current_seal_revocation_generation = ac_current_seal_revocation_generation a,
      dv_current_grant_revocation_generation = ac_current_grant_revocation_generation a\<rparr>"

text \<open>The checks of \<^verbatim>\<open>admit_child\<close> between deriving the request and staging it.\<close>

definition admission_authorized ::
    "('z) canon_ledger_scheme \<Rightarrow> SessionReservationLedger \<Rightarrow> AdmissionContext \<Rightarrow> ChildReservationRequest
     \<Rightarrow> unit outcome" where
  "admission_authorized C L a derived =
     seq_checks
       [fail_if
          (rq_session_id derived \<noteq> lg_session_id L \<or>
           rq_session_capsule_digest derived \<noteq> lg_session_capsule_digest L \<or>
           rq_session_fence derived \<noteq> lg_session_fence L \<or>
           xc_tenant_id (ac_child a) \<noteq> sc_tenant_id (ac_session a) \<or>
           as_policy_digest (ac_subject a) \<noteq> ac_current_policy_digest a)
          ReservationIdentityConflict,
        validate_against_parent C (ac_grant a) (admission_context a),
        contains_child C (ac_grant a) (ac_child a)]"

definition admit_staged ::
    "('z) canon_ledger_scheme \<Rightarrow> SessionReservationLedger \<Rightarrow> ChildAdmissionRequest \<Rightarrow> AdmissionContext
     \<Rightarrow> (ReservationResult \<times> SessionReservationLedger) outcome" where
  "admit_staged C L request a =
     res_bind (admission_validate request) (\<lambda>_.
     res_bind (ledger_validate C L) (\<lambda>_.
     res_bind (session_validate C (ac_session a)) (\<lambda>_.
     res_bind (execution_validate (ac_child a)) (\<lambda>_.
     res_bind (execution_digest C (ac_child a)) (\<lambda>cdigest.
     res_bind (session_digest C (ac_session a)) (\<lambda>sdigest.
       let derived = derived_request request sdigest cdigest (ac_child a) in
     res_bind (exact_reservation_replay C L derived) (\<lambda>replay.
     (case replay of
        Some result \<Rightarrow> Inr (result, L)
      | None \<Rightarrow>
     res_bind (admission_authorized C L a derived) (\<lambda>_.
     res_bind (reserve_staged C L derived) (\<lambda>(result, staged).
     res_bind (ledger_validate C staged) (\<lambda>_.
       Inr (result, staged))))))))))))"

definition admit_child ::
    "('z) canon_ledger_scheme \<Rightarrow> SessionReservationLedger \<Rightarrow> ChildAdmissionRequest \<Rightarrow> AdmissionContext
     \<Rightarrow> ReservationResult outcome \<times> SessionReservationLedger" where
  "admit_child C L request a =
     (case admit_staged C L request a of
        Inl e \<Rightarrow> (Inl e, L)
      | Inr (result, staged) \<Rightarrow> (Inr result, staged))"

end
