(* ===== verification/Reservation_Invariant.thy ===== *)
theory Reservation_Invariant
  imports Reservation
begin

text \<open>
  What \<^verbatim>\<open>SessionReservationLedger::validate\<close> establishes, as a declarative invariant (\<open>ledger_ok\<close>), and that
  the loop of the source decides exactly it. The staged operations preserve the invariant, so the
  validation of a staged copy never fails after one of them.
\<close>

subsection \<open>The invariant\<close>

definition terminal_ok ::
    "('z) canon_ledger_scheme \<Rightarrow> SessionReservationLedger \<Rightarrow> string \<Rightarrow> ChildReservationRecord
     \<Rightarrow> ReservationTransitionRequest \<Rightarrow> bool" where
  "terminal_ok C L rid r t \<longleftrightarrow>
     contains_usage (rq_resources (rec_request r)) (tr_actual_usage t) \<and>
     tr_reservation_id t = rid \<and>
     tr_child_execution_id t = rq_child_execution_id (rec_request r) \<and>
     tr_session_fence t = lg_session_fence L \<and>
     rec_terminal_outcome r = Some (tr_outcome t) \<and>
     rec_state r = outcome_state (tr_outcome t) \<and>
     (\<exists>digest. transition_digest C t = Inr digest \<and> rec_terminal_request_digest r = Some digest \<and>
        bt_get (lg_transition_idempotency L) (tr_idempotency_key t) = Some (rid, digest))"

definition record_ok ::
    "('z) canon_ledger_scheme \<Rightarrow> SessionReservationLedger \<Rightarrow> string \<Rightarrow> ChildReservationRecord \<Rightarrow> bool" where
  "record_ok C L rid r \<longleftrightarrow>
     request_digest C (rec_request r) = Inr (rec_request_digest r) \<and>
     rq_reservation_id (rec_request r) = rid \<and>
     rq_session_id (rec_request r) = lg_session_id L \<and>
     rq_session_capsule_digest (rec_request r) = lg_session_capsule_digest L \<and>
     rq_session_fence (rec_request r) = lg_session_fence L \<and>
     rec_generation r \<noteq> 0 \<and>
     bt_get (lg_child_reservations L) (rq_child_execution_id (rec_request r)) = Some rid \<and>
     bt_get (lg_reserve_idempotency L) (rq_idempotency_key (rec_request r)) = Some rid \<and>
     (if rec_state r = Reserved
      then rec_terminal_request_digest r = None \<and> rec_terminal_request r = None \<and>
        rec_terminal_outcome r = None
      else \<exists>t. rec_terminal_request r = Some t \<and> terminal_ok C L rid r t)"

text \<open>What a record holds while reserved, and what it has used once ended.\<close>

definition held :: "dimension \<Rightarrow> ChildReservationRecord \<Rightarrow> nat" where
  "held d r = (if rec_state r = Reserved then rr_at (rq_resources (rec_request r)) d else 0)"

definition used :: "dimension \<Rightarrow> ChildReservationRecord \<Rightarrow> nat" where
  "used d r =
     (if rec_state r = Reserved then 0
      else case rec_terminal_request r of None \<Rightarrow> 0 | Some t \<Rightarrow> cu_at (tr_actual_usage t) d)"

definition open_count :: "ChildReservationRecord \<Rightarrow> nat" where
  "open_count r = (if rec_state r = Reserved then 1 else 0)"

definition ended_count :: "ChildReservationRecord \<Rightarrow> nat" where
  "ended_count r = (if rec_state r = Reserved then 0 else 1)"

definition distinct_generations :: "(string, ChildReservationRecord) btree \<Rightarrow> bool" where
  "distinct_generations m \<longleftrightarrow>
     (\<forall>i r j q. bt_get m i = Some r \<and> bt_get m j = Some q \<and> rec_generation r = rec_generation q
        \<longrightarrow> i = j)"

text \<open>Every generation in use lies below the next one, and the one just below it is in use.\<close>

definition next_after :: "(string, ChildReservationRecord) btree \<Rightarrow> u64 \<Rightarrow> bool" where
  "next_after m next \<longleftrightarrow>
     (\<forall>rid r. bt_get m rid = Some r \<longrightarrow> rec_generation r < next) \<and>
     (if m = bt_empty then next = 1
      else \<exists>rid r. bt_get m rid = Some r \<and> unat next = unat (rec_generation r) + 1)"

definition ledger_ok :: "('z) canon_ledger_scheme \<Rightarrow> SessionReservationLedger \<Rightarrow> bool" where
  "ledger_ok C L \<longleftrightarrow>
     v_identifier ''Session identity'' (lg_session_id L) = Inr () \<and>
     rr_validate (lg_limits L) = Inr () \<and>
     lg_session_fence L \<noteq> 0 \<and> lg_maximum_concurrency L \<noteq> 0 \<and>
     lg_maximum_concurrency L \<le> lg_maximum_child_count L \<and>
     (\<forall>rid r. bt_get (lg_reservations L) rid = Some r \<longrightarrow> record_ok C L rid r) \<and>
     distinct_generations (lg_reservations L) \<and>
     (\<forall>d. rr_at (lg_allocated L) d = bt_sum (held d) (lg_reservations L)) \<and>
     (\<forall>d. cu_at (lg_cumulative_usage L) d = bt_sum (used d) (lg_reservations L)) \<and>
     within_limits (lg_limits L) (lg_cumulative_usage L) (lg_allocated L) \<and>
     unat (lg_active_concurrency L) = bt_sum open_count (lg_reservations L) \<and>
     lg_active_concurrency L \<le> lg_maximum_concurrency L \<and>
     unat (lg_admitted_child_count L) = bt_len (lg_reservations L) \<and>
     lg_admitted_child_count L \<le> lg_maximum_child_count L \<and>
     next_after (lg_reservations L) (lg_next_generation L) \<and>
     unat (lg_ledger_revision L) =
       bt_len (lg_reservations L) + bt_sum ended_count (lg_reservations L) \<and>
     bt_len (lg_child_reservations L) = bt_len (lg_reservations L) \<and>
     bt_len (lg_reserve_idempotency L) = bt_len (lg_reservations L) \<and>
     bt_len (lg_transition_idempotency L) = bt_sum ended_count (lg_reservations L)"

subsection \<open>The loop decides the invariant\<close>

lemma request_digest_validates: "request_digest C q = Inr d \<Longrightarrow> request_validate q = Inr ()"
  by (auto simp: request_digest_def res_simps)

lemma rebuild_terminal_iff:
  assumes "rec_state r \<noteq> Reserved"
  shows "rebuild_terminal C L acc rid r = Inr acc' \<longleftrightarrow>
     (\<exists>t. rec_terminal_request r = Some t \<and> terminal_ok C L rid r t) \<and>
     (\<forall>d. cu_at (rb_reconstructed_usage acc') d = cu_at (rb_reconstructed_usage acc) d + used d r) \<and>
     acc' = acc\<lparr>rb_terminal_count := rb_terminal_count acc + 1,
       rb_reconstructed_usage := rb_reconstructed_usage acc'\<rparr>"
proof (cases "rec_terminal_request r")
  case None
  then show ?thesis by (simp add: rebuild_terminal_def)
next
  case (Some t)
  with assms show ?thesis
    by (cases acc; cases acc')
      (auto simp: rebuild_terminal_def res_simps terminal_ok_def used_def cu_checked_add_at)
qed

lemma rebuild_step_iff:
  "rebuild_step C L acc rid r = Inr acc' \<longleftrightarrow>
     record_ok C L rid r \<and> \<not> bs_mem (rec_generation r) (rb_generations acc) \<and>
     (\<forall>d. rr_at (rb_reconstructed acc') d = rr_at (rb_reconstructed acc) d + held d r) \<and>
     (\<forall>d. cu_at (rb_reconstructed_usage acc') d = cu_at (rb_reconstructed_usage acc) d + used d r) \<and>
     unat (rb_active acc') = unat (rb_active acc) + open_count r \<and>
     rb_max_generation acc' = max (rb_max_generation acc) (rec_generation r) \<and>
     rb_terminal_count acc' = rb_terminal_count acc + ended_count r \<and>
     rb_generations acc' = bs_insert (rec_generation r) (rb_generations acc)"
proof (cases "rec_state r = Reserved")
  case True
  have same_usage: "(\<forall>d. cu_at u d = cu_at v d) \<longleftrightarrow> u = v" for u v
    by (rule cu_eq_iff [symmetric])
  show ?thesis
    using True
    by (cases acc; cases acc')
      (auto simp: rebuild_step_def rebuild_reserved_def record_ok_def res_simps Let_def held_def
        used_def open_count_def ended_count_def rr_checked_add_at same_usage num_simps
        dest: request_digest_validates)
next
  case False
  have same_resources: "(\<forall>d. rr_at u d = rr_at v d) \<longleftrightarrow> u = v" for u v
    by (rule rr_eq_iff [symmetric])
  from False have "rebuild_step C L acc rid r = Inr acc' \<longleftrightarrow>
      request_validate (rec_request r) = Inr () \<and>
      record_ok C L rid r \<and> \<not> bs_mem (rec_generation r) (rb_generations acc) \<and>
      rebuild_terminal C L
        (acc\<lparr>rb_generations := bs_insert (rec_generation r) (rb_generations acc),
             rb_max_generation := max (rb_max_generation acc) (rec_generation r)\<rparr>) rid r = Inr acc'"
    by (cases "rec_state r")
      (auto simp: rebuild_step_def record_ok_def res_simps Let_def rebuild_terminal_iff)
  also have "\<dots> \<longleftrightarrow> record_ok C L rid r \<and> \<not> bs_mem (rec_generation r) (rb_generations acc) \<and>
      rebuild_terminal C L
        (acc\<lparr>rb_generations := bs_insert (rec_generation r) (rb_generations acc),
             rb_max_generation := max (rb_max_generation acc) (rec_generation r)\<rparr>) rid r = Inr acc'"
    by (auto simp: record_ok_def dest: request_digest_validates)
  finally show ?thesis
    using False
    by (cases acc; cases acc')
      (auto simp: rebuild_terminal_iff held_def open_count_def ended_count_def same_resources
        record_ok_def word_unat_eq_iff)
qed

lemma rebuild_sound:
  assumes "rebuild C L acc xs = Inr acc'"
  shows "\<forall>x \<in> set xs. record_ok C L (fst x) (snd x)"
    and "distinct (map (rec_generation \<circ> snd) xs)"
    and "\<forall>x \<in> set xs. \<not> bs_mem (rec_generation (snd x)) (rb_generations acc)"
    and "\<forall>d. rr_at (rb_reconstructed acc') d =
           rr_at (rb_reconstructed acc) d + sum_list (map (held d \<circ> snd) xs)"
    and "\<forall>d. cu_at (rb_reconstructed_usage acc') d =
           cu_at (rb_reconstructed_usage acc) d + sum_list (map (used d \<circ> snd) xs)"
    and "unat (rb_active acc') = unat (rb_active acc) + sum_list (map (open_count \<circ> snd) xs)"
    and "rb_terminal_count acc' = rb_terminal_count acc + sum_list (map (ended_count \<circ> snd) xs)"
    and "rb_max_generation acc' =
           foldl max (rb_max_generation acc) (map (rec_generation \<circ> snd) xs)"
proof -
  have "(\<forall>x \<in> set xs. record_ok C L (fst x) (snd x)) \<and>
      distinct (map (rec_generation \<circ> snd) xs) \<and>
      (\<forall>x \<in> set xs. \<not> bs_mem (rec_generation (snd x)) (rb_generations acc)) \<and>
      (\<forall>d. rr_at (rb_reconstructed acc') d =
           rr_at (rb_reconstructed acc) d + sum_list (map (held d \<circ> snd) xs)) \<and>
      (\<forall>d. cu_at (rb_reconstructed_usage acc') d =
           cu_at (rb_reconstructed_usage acc) d + sum_list (map (used d \<circ> snd) xs)) \<and>
      unat (rb_active acc') = unat (rb_active acc) + sum_list (map (open_count \<circ> snd) xs) \<and>
      rb_terminal_count acc' = rb_terminal_count acc + sum_list (map (ended_count \<circ> snd) xs) \<and>
      rb_max_generation acc' =
        foldl max (rb_max_generation acc) (map (rec_generation \<circ> snd) xs)"
    using assms
  proof (induction xs arbitrary: acc)
    case (Cons x xs)
    obtain rid r where x: "x = (rid, r)" by force
    with Cons.prems obtain acc1 where step: "rebuild_step C L acc rid r = Inr acc1"
      and rest: "rebuild C L acc1 xs = Inr acc'" by (auto simp: res_simps)
    note facts = step [unfolded rebuild_step_iff]
    note IH = Cons.IH [OF rest]
    have "rec_generation r \<notin> (rec_generation \<circ> snd) ` set xs"
      using IH facts by fastforce
    with IH facts show ?case
      by (simp add: x)
  qed simp
  then show "\<forall>x \<in> set xs. record_ok C L (fst x) (snd x)"
    and "distinct (map (rec_generation \<circ> snd) xs)"
    and "\<forall>x \<in> set xs. \<not> bs_mem (rec_generation (snd x)) (rb_generations acc)"
    and "\<forall>d. rr_at (rb_reconstructed acc') d =
           rr_at (rb_reconstructed acc) d + sum_list (map (held d \<circ> snd) xs)"
    and "\<forall>d. cu_at (rb_reconstructed_usage acc') d =
           cu_at (rb_reconstructed_usage acc) d + sum_list (map (used d \<circ> snd) xs)"
    and "unat (rb_active acc') = unat (rb_active acc) + sum_list (map (open_count \<circ> snd) xs)"
    and "rb_terminal_count acc' = rb_terminal_count acc + sum_list (map (ended_count \<circ> snd) xs)"
    and "rb_max_generation acc' =
           foldl max (rb_max_generation acc) (map (rec_generation \<circ> snd) xs)"
    by simp_all
qed

text \<open>One more record fits as long as the sums stay within the width of the counters.\<close>

lemma rebuild_step_ex:
  assumes "record_ok C L rid r" "\<not> bs_mem (rec_generation r) (rb_generations acc)"
    and "\<And>d. rr_at (rb_reconstructed acc) d + held d r < 2 ^ 64"
    and "\<And>d. cu_at (rb_reconstructed_usage acc) d + used d r < 2 ^ 64"
    and "unat (rb_active acc) + open_count r < 2 ^ 32"
  obtains acc' where "rebuild_step C L acc rid r = Inr acc'"
proof -
  let ?rr = "rr_of (\<lambda>d. rr_at (rb_reconstructed acc) d + held d r)"
  let ?cu = "cu_of (\<lambda>d. cu_at (rb_reconstructed_usage acc) d + used d r)"
  let ?active = "of_nat (unat (rb_active acc) + open_count r) :: u32"
  have "rr_at ?rr d = rr_at (rb_reconstructed acc) d + held d r" for d
    using assms(3) by (rule rr_at_of)
  moreover have "used d r = 0" if "d \<notin> {Calls, RequestBytes, ResponseBytes, Effects}" for d
    using that by (simp add: used_def cu_at_compute split: option.split)
  then have "cu_at ?cu d = cu_at (rb_reconstructed_usage acc) d + used d r" for d
    using cu_at_of [where d = d and f = "\<lambda>d. cu_at (rb_reconstructed_usage acc) d + used d r"]
      assms(4) [of d] cu_at_compute [of d "rb_reconstructed_usage acc"]
    by (simp split: if_splits)
  moreover have "unat ?active = unat (rb_active acc) + open_count r"
    using assms(5) by (simp only: unat_of_nat) (simp add: take_bit_nat_eq_self)
  ultimately have "rebuild_step C L acc rid r = Inr
      \<lparr>rb_reconstructed = ?rr, rb_reconstructed_usage = ?cu, rb_active = ?active,
       rb_max_generation = max (rb_max_generation acc) (rec_generation r),
       rb_terminal_count = rb_terminal_count acc + ended_count r,
       rb_generations = bs_insert (rec_generation r) (rb_generations acc)\<rparr>"
    unfolding rebuild_step_iff using assms(1,2) by simp
  then show thesis by (rule that)
qed

lemma rebuild_complete:
  assumes "\<forall>x \<in> set xs. record_ok C L (fst x) (snd x)"
    and "distinct (map (rec_generation \<circ> snd) xs)"
    and "\<forall>x \<in> set xs. \<not> bs_mem (rec_generation (snd x)) (rb_generations acc)"
    and "\<And>d. rr_at (rb_reconstructed acc) d + sum_list (map (held d \<circ> snd) xs) < 2 ^ 64"
    and "\<And>d. cu_at (rb_reconstructed_usage acc) d + sum_list (map (used d \<circ> snd) xs) < 2 ^ 64"
    and "unat (rb_active acc) + sum_list (map (open_count \<circ> snd) xs) < 2 ^ 32"
  shows "\<exists>acc'. rebuild C L acc xs = Inr acc'"
  using assms
proof (induction xs arbitrary: acc)
  case (Cons x xs)
  obtain rid r where x: "x = (rid, r)" by force
  have "rr_at (rb_reconstructed acc) d + held d r < 2 ^ 64" for d
    using Cons.prems(4) [of d] by (simp add: x)
  moreover have "cu_at (rb_reconstructed_usage acc) d + used d r < 2 ^ 64" for d
    using Cons.prems(5) [of d] by (simp add: x)
  ultimately obtain acc1 where step: "rebuild_step C L acc rid r = Inr acc1"
    using rebuild_step_ex [of C L rid r acc] Cons.prems(1,3,6) by (auto simp: x)
  note facts = step [unfolded rebuild_step_iff]
  have "\<exists>acc'. rebuild C L acc1 xs = Inr acc'"
  proof (rule Cons.IH)
    show "\<forall>y \<in> set xs. \<not> bs_mem (rec_generation (snd y)) (rb_generations acc1)"
      using Cons.prems(2,3) facts by (force simp: x)
  qed (use Cons.prems facts in \<open>simp_all add: x add.assoc\<close>)
  with step show ?case by (auto simp: x)
qed simp

lemma revision_iff:
  "Option.bind (try_from_size m) (\<lambda>count. Option.bind (try_from_size n) (\<lambda>t. checked_add count t))
     = Some (w :: u64) \<longleftrightarrow> unat w = m + n"
proof
  assume "unat w = m + n"
  moreover from this have "m < 2 ^ 64" "n < 2 ^ 64"
    using unat_less_size [of w] by simp_all
  ultimately show "Option.bind (try_from_size m) (\<lambda>count. Option.bind (try_from_size n)
      (\<lambda>t. checked_add count t)) = Some w"
    by (simp add: bind_eq_Some_conv try_from_size_def unat_of_fitting checked_add_Some)
qed (auto simp: bind_eq_Some_conv num_simps)

lemma ledger_validate_unfold:
  "ledger_validate C L = Inr () \<longleftrightarrow>
     v_identifier ''Session identity'' (lg_session_id L) = Inr () \<and>
     rr_validate (lg_limits L) = Inr () \<and>
     lg_session_fence L \<noteq> 0 \<and> lg_maximum_concurrency L \<noteq> 0 \<and> lg_maximum_child_count L \<noteq> 0 \<and>
     lg_maximum_concurrency L \<le> lg_maximum_child_count L \<and>
     (\<exists>acc. rebuild C L rebuilt_start (bt_entries (lg_reservations L)) = Inr acc \<and>
        bt_len (lg_child_reservations L) = bt_len (lg_reservations L) \<and>
        bt_len (lg_reserve_idempotency L) = bt_len (lg_reservations L) \<and>
        bt_len (lg_transition_idempotency L) = rb_terminal_count acc \<and>
        lg_allocated L = rb_reconstructed acc \<and>
        lg_cumulative_usage L = rb_reconstructed_usage acc \<and>
        within_limits (lg_limits L) (lg_cumulative_usage L) (lg_allocated L) \<and>
        lg_active_concurrency L = rb_active acc \<and>
        lg_active_concurrency L \<le> lg_maximum_concurrency L \<and>
        unat (lg_admitted_child_count L) = bt_len (lg_reservations L) \<and>
        lg_admitted_child_count L \<le> lg_maximum_child_count L \<and>
        unat (lg_next_generation L) = unat (rb_max_generation acc) + 1 \<and>
        unat (lg_ledger_revision L) = bt_len (lg_reservations L) + rb_terminal_count acc)"
proof -
  have limits: "rr_contains (lg_limits L) (lg_allocated L) \<and>
      (\<exists>spent. cu_checked_add (lg_cumulative_usage L) (capability_usage (lg_allocated L)) = Inr spent \<and>
         contains_usage (lg_limits L) spent) \<longleftrightarrow>
      within_limits (lg_limits L) (lg_cumulative_usage L) (lg_allocated L)" (is "?l \<longleftrightarrow> ?w")
  proof
    show "?l \<Longrightarrow> ?w" using within_limits_iff by blast
    assume w: ?w
    then obtain spent where "cu_checked_add (lg_cumulative_usage L)
        (capability_usage (lg_allocated L)) = Inr spent" by (rule within_limits_fits)
    with w show ?l using within_limits_iff by blast
  qed
  have one: "unat (1 :: u64) = 1" by simp
  show ?thesis
    unfolding ledger_validate_def limits [symmetric]
    by (auto simp: res_simps revision_iff num_simps not_less one)
qed

lemma foldl_max_props:
  fixes a :: "'a::linorder"
  shows "foldl max a xs \<in> insert a (set xs)" "\<forall>x \<in> insert a (set xs). x \<le> foldl max a xs"
proof -
  have "foldl max a xs \<in> insert a (set xs) \<and> (\<forall>x \<in> insert a (set xs). x \<le> foldl max a xs)"
  proof (induction xs arbitrary: a)
    case (Cons x xs)
    have "foldl max (max a x) xs \<in> insert (max a x) (set xs)"
      and le: "\<forall>y \<in> insert (max a x) (set xs). y \<le> foldl max (max a x) xs"
      using Cons.IH [of "max a x"] by blast+
    moreover from this have "max a x \<le> foldl max (max a x) xs" by blast
    moreover have "max a x = (if a \<le> x then x else a)" by (rule max_def)
    ultimately show ?case by (cases "a \<le> x") auto
  qed simp
  then show "foldl max a xs \<in> insert a (set xs)" "\<forall>x \<in> insert a (set xs). x \<le> foldl max a xs"
    by blast+
qed

lemma sum_entries: "sum_list (map (f \<circ> snd) (bt_entries m)) = bt_sum f m"
  by (simp add: bt_sum_def bt_values_def)

text \<open>The largest generation, as the loop computes it from zero.\<close>

lemma max_generation_iff:
  assumes "foldl max 0 (map (rec_generation \<circ> snd) (bt_entries m)) = (g :: u64)"
    and "\<forall>rid r. bt_get m rid = Some r \<longrightarrow> rec_generation r \<noteq> 0"
  shows "unat next = unat g + 1 \<longleftrightarrow> next_after m next"
proof (cases "m = bt_empty")
  case True
  with assms(1) have "g = 0" by simp
  with True show ?thesis by (simp add: next_after_def word_unat_eq_iff)
next
  case False
  let ?gs = "map (rec_generation \<circ> snd) (bt_entries m)"
  have gs: "x \<in> set ?gs \<longleftrightarrow> (\<exists>rid r. bt_get m rid = Some r \<and> x = rec_generation r)" for x
    by (force simp: bt_get_entries)
  have g: "g \<in> insert 0 (set ?gs)" "\<forall>x \<in> insert 0 (set ?gs). x \<le> g"
    using foldl_max_props [of 0 ?gs] assms(1) by auto
  obtain rid r where "bt_get m rid = Some r"
    using False by (metis btree_eqI bt_get_empty not_None_eq)
  then have "g \<noteq> 0"
    using g(2) gs [of "rec_generation r"] assms(2) by (metis insert_iff word_le_0_iff)
  then obtain i q where q: "bt_get m i = Some q" "g = rec_generation q"
    using g(1) gs by auto
  have le: "rec_generation r \<le> g" if "bt_get m rid = Some r" for rid r
    using g(2) gs [of "rec_generation r"] that by blast
  show ?thesis
  proof
    assume n: "unat next = unat g + 1"
    then have "\<forall>rid r. bt_get m rid = Some r \<longrightarrow> rec_generation r < next"
      using le by (metis le_imp_less_Suc Suc_eq_plus1 word_le_nat_alt word_less_nat_alt)
    with n q False show "next_after m next" by (auto simp: next_after_def)
  next
    assume "next_after m next"
    then obtain j p where p: "bt_get m j = Some p" "unat next = unat (rec_generation p) + 1"
      and below: "\<forall>rid r. bt_get m rid = Some r \<longrightarrow> rec_generation r < next"
      using False by (auto simp: next_after_def)
    have "unat g < unat next"
      using below q by (metis word_less_nat_alt)
    moreover have "unat (rec_generation p) \<le> unat g"
      using le p(1) by (metis word_le_nat_alt)
    ultimately show "unat next = unat g + 1" using p(2) by simp
  qed
qed

lemma generations_distinct_iff:
  "distinct (map (rec_generation \<circ> snd) (bt_entries m)) \<longleftrightarrow> distinct_generations m"
proof -
  have d: "distinct (bt_entries m)"
    using bt_entries_distinct [of m] by (simp add: distinct_map)
  show ?thesis
    unfolding distinct_generations_def
  proof
    assume "distinct (map (rec_generation \<circ> snd) (bt_entries m))"
    then have "inj_on (rec_generation \<circ> snd) (set (bt_entries m))"
      by (simp add: distinct_map)
    then show "\<forall>i r j q. bt_get m i = Some r \<and> bt_get m j = Some q \<and>
        rec_generation r = rec_generation q \<longrightarrow> i = j"
      unfolding bt_get_entries inj_on_def by fastforce
  next
    assume r: "\<forall>i r j q. bt_get m i = Some r \<and> bt_get m j = Some q \<and>
        rec_generation r = rec_generation q \<longrightarrow> i = j"
    have "inj_on (rec_generation \<circ> snd) (set (bt_entries m))"
    proof (rule inj_onI)
      fix x y
      assume "x \<in> set (bt_entries m)" "y \<in> set (bt_entries m)"
        "(rec_generation \<circ> snd) x = (rec_generation \<circ> snd) y"
      then have "bt_get m (fst x) = Some (snd x)" "bt_get m (fst y) = Some (snd y)"
        "rec_generation (snd x) = rec_generation (snd y)"
        by (simp_all add: bt_get_entries)
      then show "x = y"
        using r by (metis option.inject prod_eqI)
    qed
    with d show "distinct (map (rec_generation \<circ> snd) (bt_entries m))"
      by (simp add: distinct_map)
  qed
qed

text \<open>Validation accepts a ledger just when the invariant holds.\<close>

lemma ledger_validate_iff: "ledger_validate C L = Inr () \<longleftrightarrow> ledger_ok C L"
proof
  let ?xs = "bt_entries (lg_reservations L)"
  assume "ledger_validate C L = Inr ()"
  then obtain acc where hdr: "v_identifier ''Session identity'' (lg_session_id L) = Inr ()"
      "rr_validate (lg_limits L) = Inr ()" "lg_session_fence L \<noteq> 0"
      "lg_maximum_concurrency L \<noteq> 0" "lg_maximum_concurrency L \<le> lg_maximum_child_count L"
    and loop: "rebuild C L rebuilt_start ?xs = Inr acc"
    and fin: "bt_len (lg_child_reservations L) = bt_len (lg_reservations L)"
      "bt_len (lg_reserve_idempotency L) = bt_len (lg_reservations L)"
      "bt_len (lg_transition_idempotency L) = rb_terminal_count acc"
      "lg_allocated L = rb_reconstructed acc"
      "lg_cumulative_usage L = rb_reconstructed_usage acc"
      "within_limits (lg_limits L) (lg_cumulative_usage L) (lg_allocated L)"
      "lg_active_concurrency L = rb_active acc"
      "lg_active_concurrency L \<le> lg_maximum_concurrency L"
      "unat (lg_admitted_child_count L) = bt_len (lg_reservations L)"
      "lg_admitted_child_count L \<le> lg_maximum_child_count L"
      "unat (lg_next_generation L) = unat (rb_max_generation acc) + 1"
      "unat (lg_ledger_revision L) = bt_len (lg_reservations L) + rb_terminal_count acc"
    unfolding ledger_validate_unfold by blast
  note sound = rebuild_sound [OF loop]
  have records: "\<forall>rid r. bt_get (lg_reservations L) rid = Some r \<longrightarrow> record_ok C L rid r"
    using sound(1) by (force simp: bt_get_entries)
  then have "\<forall>rid r. bt_get (lg_reservations L) rid = Some r \<longrightarrow> rec_generation r \<noteq> 0"
    by (auto simp: record_ok_def)
  moreover have "foldl max 0 (map (rec_generation \<circ> snd) ?xs) = rb_max_generation acc"
    using sound(8) by (simp add: rebuilt_start_def)
  ultimately have gen: "next_after (lg_reservations L) (lg_next_generation L)"
    using max_generation_iff fin(11) by blast
  have "\<forall>d. rr_at (lg_allocated L) d = bt_sum (held d) (lg_reservations L)"
    "\<forall>d. cu_at (lg_cumulative_usage L) d = bt_sum (used d) (lg_reservations L)"
    "unat (lg_active_concurrency L) = bt_sum open_count (lg_reservations L)"
    "unat (lg_ledger_revision L) =
       bt_len (lg_reservations L) + bt_sum ended_count (lg_reservations L)"
    "bt_len (lg_transition_idempotency L) = bt_sum ended_count (lg_reservations L)"
    using sound(4-7) fin by (simp_all add: sum_entries rebuilt_start_def)
  with sound(2) [unfolded generations_distinct_iff] show "ledger_ok C L"
    unfolding ledger_ok_def using hdr records fin(1,2,6,8-10) gen by blast
next
  let ?xs = "bt_entries (lg_reservations L)"
  assume ok: "ledger_ok C L"
  then have records: "\<forall>rid r. bt_get (lg_reservations L) rid = Some r \<longrightarrow> record_ok C L rid r"
    and alloc: "\<And>d. rr_at (lg_allocated L) d = bt_sum (held d) (lg_reservations L)"
    and usage: "\<And>d. cu_at (lg_cumulative_usage L) d = bt_sum (used d) (lg_reservations L)"
    and active: "unat (lg_active_concurrency L) = bt_sum open_count (lg_reservations L)"
    by (simp_all add: ledger_ok_def)
  have "\<exists>acc. rebuild C L rebuilt_start ?xs = Inr acc"
  proof (rule rebuild_complete)
    show "\<forall>x \<in> set ?xs. record_ok C L (fst x) (snd x)"
      using records by (auto simp: bt_get_entries)
    show "distinct (map (rec_generation \<circ> snd) ?xs)"
      unfolding generations_distinct_iff using ok by (simp add: ledger_ok_def)
    show "rr_at (rb_reconstructed rebuilt_start) d + sum_list (map (held d \<circ> snd) ?xs) < 2 ^ 64" for d
      using alloc [of d] rr_at_less [of "lg_allocated L" d] by (simp add: sum_entries rebuilt_start_def)
    show "cu_at (rb_reconstructed_usage rebuilt_start) d + sum_list (map (used d \<circ> snd) ?xs) < 2 ^ 64" for d
      using usage [of d] cu_at_less [of "lg_cumulative_usage L" d]
      by (simp add: sum_entries rebuilt_start_def)
    show "unat (rb_active rebuilt_start) + sum_list (map (open_count \<circ> snd) ?xs) < 2 ^ 32"
      using active unat_less_size [of "lg_active_concurrency L"]
      by (simp add: sum_entries rebuilt_start_def)
  qed (simp add: rebuilt_start_def)
  then obtain acc where loop: "rebuild C L rebuilt_start ?xs = Inr acc" by blast
  note sound = rebuild_sound [OF loop]
  have "lg_allocated L = rb_reconstructed acc"
    using alloc sound(4) by (simp add: rr_eq_iff sum_entries rebuilt_start_def)
  moreover have "lg_cumulative_usage L = rb_reconstructed_usage acc"
    using usage sound(5) by (simp add: cu_eq_iff sum_entries rebuilt_start_def)
  moreover have "lg_active_concurrency L = rb_active acc"
    using active sound(6) by (simp add: word_unat_eq_iff sum_entries rebuilt_start_def)
  moreover have "rb_terminal_count acc = bt_sum ended_count (lg_reservations L)"
    using sound(7) by (simp add: sum_entries rebuilt_start_def)
  moreover have "unat (lg_next_generation L) = unat (rb_max_generation acc) + 1"
  proof -
    have "\<forall>rid r. bt_get (lg_reservations L) rid = Some r \<longrightarrow> rec_generation r \<noteq> 0"
      using records by (auto simp: record_ok_def)
    moreover have "foldl max 0 (map (rec_generation \<circ> snd) ?xs) = rb_max_generation acc"
      using sound(8) by (simp add: rebuilt_start_def)
    moreover have "next_after (lg_reservations L) (lg_next_generation L)"
      using ok by (simp add: ledger_ok_def)
    ultimately show ?thesis
      using max_generation_iff by blast
  qed
  moreover have "lg_maximum_child_count L \<noteq> 0"
    using ok by (auto simp: ledger_ok_def)
  ultimately show "ledger_validate C L = Inr ()"
    unfolding ledger_validate_unfold using ok loop by (auto simp: ledger_ok_def)
qed

subsection \<open>Reserving keeps the invariant\<close>

definition fresh_record ::
    "SessionReservationLedger \<Rightarrow> ChildReservationRequest \<Rightarrow> ContentDigest \<Rightarrow> ChildReservationRecord" where
  "fresh_record L q digest =
     \<lparr>rec_request = q, rec_request_digest = digest, rec_generation = lg_next_generation L,
      rec_state = Reserved, rec_terminal_request_digest = None, rec_terminal_request = None,
      rec_terminal_outcome = None\<rparr>"

lemma reserve_stagedE:
  assumes "reserve_staged C L q = Inr (res, L')"
  obtains (replay) rid r where
      "bt_get (lg_reserve_idempotency L) (rq_idempotency_key q) = Some rid"
      "bt_get (lg_reservations L) rid = Some r" "request_digest C q = Inr (rec_request_digest r)"
      "res = \<lparr>rs_record = r, rs_replayed = True\<rparr>" "L' = L"
    | (fresh) digest where
      "bt_get (lg_reserve_idempotency L) (rq_idempotency_key q) = None"
      "request_digest C q = Inr digest"
      "rq_session_fence q = lg_session_fence L" "rq_session_id q = lg_session_id L"
      "rq_session_capsule_digest q = lg_session_capsule_digest L"
      "rq_expected_ledger_revision q = lg_ledger_revision L"
      "bt_get (lg_reservations L) (rq_reservation_id q) = None"
      "bt_get (lg_child_reservations L) (rq_child_execution_id q) = None"
      "\<forall>d. rr_at (lg_allocated L') d = rr_at (lg_allocated L) d + rr_at (rq_resources q) d"
      "within_limits (lg_limits L) (lg_cumulative_usage L) (lg_allocated L')"
      "lg_active_concurrency L < lg_maximum_concurrency L"
      "unat (lg_active_concurrency L') = unat (lg_active_concurrency L) + 1"
      "lg_admitted_child_count L < lg_maximum_child_count L"
      "unat (lg_admitted_child_count L') = unat (lg_admitted_child_count L) + 1"
      "unat (lg_next_generation L') = unat (lg_next_generation L) + 1"
      "unat (lg_ledger_revision L') = unat (lg_ledger_revision L) + 1"
      "res = \<lparr>rs_record = fresh_record L q digest, rs_replayed = False\<rparr>"
      "L' = L\<lparr>lg_allocated := lg_allocated L', lg_active_concurrency := lg_active_concurrency L',
         lg_admitted_child_count := lg_admitted_child_count L',
         lg_next_generation := lg_next_generation L', lg_ledger_revision := lg_ledger_revision L',
         lg_child_reservations :=
           bt_insert (rq_child_execution_id q) (rq_reservation_id q) (lg_child_reservations L),
         lg_reserve_idempotency :=
           bt_insert (rq_idempotency_key q) (rq_reservation_id q) (lg_reserve_idempotency L),
         lg_reservations :=
           bt_insert (rq_reservation_id q) (fresh_record L q digest) (lg_reservations L)\<rparr>"
proof (cases "bt_get (lg_reserve_idempotency L) (rq_idempotency_key q)")
  case (Some rid)
  with assms show thesis
    by (intro replay [of rid "rs_record res"])
      (auto simp: reserve_staged_def exact_reservation_replay_def res_simps split: if_splits)
next
  case None
  with assms obtain digest allocated spent next_generation next_active next_admitted next_revision where
    facts: "request_digest C q = Inr digest"
      "rq_session_fence q = lg_session_fence L" "rq_session_id q = lg_session_id L"
      "rq_session_capsule_digest q = lg_session_capsule_digest L"
      "rq_expected_ledger_revision q = lg_ledger_revision L"
      "bt_get (lg_reservations L) (rq_reservation_id q) = None"
      "bt_get (lg_child_reservations L) (rq_child_execution_id q) = None"
      "rr_checked_add (lg_allocated L) (rq_resources q) = Inr allocated"
      "cu_checked_add (lg_cumulative_usage L) (capability_usage allocated) = Inr spent"
      "rr_contains (lg_limits L) allocated" "contains_usage (lg_limits L) spent"
      "lg_active_concurrency L < lg_maximum_concurrency L"
      "lg_admitted_child_count L < lg_maximum_child_count L"
      "checked_add (lg_next_generation L) 1 = Some next_generation"
      "checked_add (lg_active_concurrency L) 1 = Some next_active"
      "checked_add (lg_admitted_child_count L) 1 = Some next_admitted"
      "checked_add (lg_ledger_revision L) 1 = Some next_revision"
    and res: "res = \<lparr>rs_record = fresh_record L q digest, rs_replayed = False\<rparr>"
    and L': "L' = L\<lparr>lg_allocated := allocated, lg_active_concurrency := next_active,
         lg_admitted_child_count := next_admitted, lg_next_generation := next_generation,
         lg_ledger_revision := next_revision,
         lg_child_reservations :=
           bt_insert (rq_child_execution_id q) (rq_reservation_id q) (lg_child_reservations L),
         lg_reserve_idempotency :=
           bt_insert (rq_idempotency_key q) (rq_reservation_id q) (lg_reserve_idempotency L),
         lg_reservations :=
           bt_insert (rq_reservation_id q) (fresh_record L q digest) (lg_reservations L)\<rparr>"
    by (auto simp: reserve_staged_def exact_reservation_replay_def res_simps Let_def
        fresh_record_def bt_contains_key_def not_le)
  have "within_limits (lg_limits L) (lg_cumulative_usage L) allocated"
    using within_limits_iff [OF facts(9)] facts(10,11) by blast
  then show thesis
    using facts res L' None
    by (intro fresh [of digest]) (simp_all add: rr_checked_add_at num_simps)
qed

text \<open>A record stays well-formed while the indexes only grow.\<close>

lemma record_ok_mono:
  assumes "record_ok C L rid r"
    and "lg_session_id L' = lg_session_id L"
    and "lg_session_capsule_digest L' = lg_session_capsule_digest L"
    and "lg_session_fence L' = lg_session_fence L"
    and "\<And>k v. bt_get (lg_child_reservations L) k = Some v \<Longrightarrow>
           bt_get (lg_child_reservations L') k = Some v"
    and "\<And>k v. bt_get (lg_reserve_idempotency L) k = Some v \<Longrightarrow>
           bt_get (lg_reserve_idempotency L') k = Some v"
    and "\<And>k v. bt_get (lg_transition_idempotency L) k = Some v \<Longrightarrow>
           bt_get (lg_transition_idempotency L') k = Some v"
  shows "record_ok C L' rid r"
  using assms by (auto simp: record_ok_def terminal_ok_def)

lemma next_after_below: "next_after m next \<Longrightarrow> bt_get m rid = Some r \<Longrightarrow> rec_generation r < next"
  unfolding next_after_def by blast

lemma next_after_insert:
  assumes "next_after m next" "unat next' = unat next + 1" "rec_generation r = next"
    and "bt_get m rid = None"
  shows "next_after (bt_insert rid r m) next'"
proof -
  have "next < next'"
    using assms(2) by (simp add: word_less_nat_alt)
  then have "\<forall>i q. bt_get (bt_insert rid r m) i = Some q \<longrightarrow> rec_generation q < next'"
    using assms(1,3) by (auto simp: next_after_def dest: less_trans split: if_splits)
  moreover have "bt_insert rid r m \<noteq> bt_empty"
    by (metis bt_get_empty bt_get_insert option.distinct(1))
  moreover have "\<exists>i q. bt_get (bt_insert rid r m) i = Some q \<and> unat next' = unat (rec_generation q) + 1"
    using assms(2,3) by (intro exI [of _ rid] exI [of _ r]) simp
  ultimately show ?thesis
    unfolding next_after_def by simp
qed

lemma reserve_keeps_ok:
  assumes ok: "ledger_ok C L" and reserve: "reserve_staged C L q = Inr (res, L')"
  shows "ledger_ok C L'"
  using reserve
proof (cases rule: reserve_stagedE)
  case (replay rid r)
  with ok show ?thesis by simp
next
  case (fresh digest)
  let ?r = "fresh_record L q digest"
  let ?m = "bt_insert (rq_reservation_id q) ?r (lg_reservations L)"
  have L': "lg_session_id L' = lg_session_id L"
    "lg_session_capsule_digest L' = lg_session_capsule_digest L"
    "lg_session_fence L' = lg_session_fence L" "lg_limits L' = lg_limits L"
    "lg_cumulative_usage L' = lg_cumulative_usage L"
    "lg_maximum_concurrency L' = lg_maximum_concurrency L"
    "lg_maximum_child_count L' = lg_maximum_child_count L" "lg_reservations L' = ?m"
    "lg_child_reservations L' =
       bt_insert (rq_child_execution_id q) (rq_reservation_id q) (lg_child_reservations L)"
    "lg_reserve_idempotency L' =
       bt_insert (rq_idempotency_key q) (rq_reservation_id q) (lg_reserve_idempotency L)"
    "lg_transition_idempotency L' = lg_transition_idempotency L"
    by (subst fresh(18), simp)+
  note old = ok [unfolded ledger_ok_def]
  have sums: "bt_sum f ?m = f ?r + bt_sum f (lg_reservations L)" for f
    using fresh(7) by (rule bt_sum_insert_fresh)
  have counts: "held d ?r = rr_at (rq_resources q) d" "used d ?r = 0" "open_count ?r = 1"
    "ended_count ?r = 0" for d
    by (simp_all add: held_def used_def open_count_def ended_count_def fresh_record_def)
  have sizes: "bt_len (lg_reservations L') = bt_len (lg_reservations L) + 1"
    "bt_len (lg_child_reservations L') = bt_len (lg_child_reservations L) + 1"
    "bt_len (lg_reserve_idempotency L') = bt_len (lg_reserve_idempotency L) + 1"
    using fresh(1,7,8) by (simp_all add: L' bt_len_insert)
  have new: "record_ok C L' (rq_reservation_id q) ?r"
    using fresh(2-5) old
    by (auto simp: record_ok_def fresh_record_def L' next_after_def word_unat_eq_iff
        split: if_splits)
  have records: "\<forall>rid r. bt_get (lg_reservations L') rid = Some r \<longrightarrow> record_ok C L' rid r"
  proof (intro allI impI)
    fix rid r
    assume r: "bt_get (lg_reservations L') rid = Some r"
    show "record_ok C L' rid r"
    proof (cases "rid = rq_reservation_id q")
      case True
      with r new show ?thesis by (simp add: L')
    next
      case False
      with r old have "record_ok C L rid r" by (simp add: L')
      then show ?thesis
        by (rule record_ok_mono) (use fresh(1,8) in \<open>auto simp: L'\<close>)
    qed
  qed
  have "distinct_generations (lg_reservations L')"
  proof -
    have frontier: "next_after (lg_reservations L) (lg_next_generation L)"
      and distinct: "distinct_generations (lg_reservations L)"
      using old by simp_all
    have "rec_generation r \<noteq> lg_next_generation L" if "bt_get (lg_reservations L) i = Some r" for i r
      using next_after_below [OF frontier that] by simp
    then show ?thesis
      using distinct unfolding distinct_generations_def
      by (auto simp: L' fresh_record_def split: if_splits) metis+
  qed
  moreover have "next_after (lg_reservations L') (lg_next_generation L')"
    unfolding L'(8)
    by (rule next_after_insert [OF _ fresh(15) _ fresh(7)]) (simp_all add: old fresh_record_def)
  moreover have "\<forall>d. rr_at (lg_allocated L') d = bt_sum (held d) (lg_reservations L')"
    using old fresh(9) by (simp add: L' sums counts)
  moreover have "\<forall>d. cu_at (lg_cumulative_usage L') d = bt_sum (used d) (lg_reservations L')"
    using old by (simp add: L' sums counts)
  moreover have "unat (lg_active_concurrency L') = bt_sum open_count (lg_reservations L')"
    using old fresh(12) by (simp add: L' sums counts)
  moreover have ended: "bt_sum ended_count (lg_reservations L') = bt_sum ended_count (lg_reservations L)"
    by (simp add: L' sums counts)
  moreover have "lg_active_concurrency L' \<le> lg_maximum_concurrency L'"
    "lg_admitted_child_count L' \<le> lg_maximum_child_count L'"
    using fresh(11-14) by (simp_all add: L' word_le_nat_alt word_less_nat_alt)
  moreover have "unat (lg_ledger_revision L') =
      bt_len (lg_reservations L') + bt_sum ended_count (lg_reservations L')"
    using old fresh(16) sizes(1) ended by simp
  moreover have "unat (lg_admitted_child_count L') = bt_len (lg_reservations L')"
    using old fresh(14) sizes(1) by simp
  ultimately show ?thesis
    unfolding ledger_ok_def using old fresh(10) records sizes by (simp add: L')
qed

subsection \<open>Ending a reservation keeps the invariant\<close>

definition ended_record ::
    "ChildReservationRecord \<Rightarrow> ReservationTransitionRequest \<Rightarrow> ContentDigest \<Rightarrow> ChildReservationRecord" where
  "ended_record r t digest =
     r\<lparr>rec_state := outcome_state (tr_outcome t), rec_terminal_request_digest := Some digest,
       rec_terminal_request := Some t, rec_terminal_outcome := Some (tr_outcome t)\<rparr>"

lemma transition_stagedE:
  assumes "transition_staged C L t = Inr (res, L')"
  obtains (replay) rid digest r where
      "bt_get (lg_transition_idempotency L) (tr_idempotency_key t) = Some (rid, digest)"
      "transition_digest C t = Inr digest" "bt_get (lg_reservations L) rid = Some r"
      "res = \<lparr>rs_record = r, rs_replayed = True\<rparr>" "L' = L"
    | (fresh) digest r where
      "bt_get (lg_transition_idempotency L) (tr_idempotency_key t) = None"
      "transition_digest C t = Inr digest"
      "tr_session_fence t = lg_session_fence L"
      "tr_expected_ledger_revision t = lg_ledger_revision L"
      "bt_get (lg_reservations L) (tr_reservation_id t) = Some r"
      "rq_child_execution_id (rec_request r) = tr_child_execution_id t" "rec_state r = Reserved"
      "\<forall>d. rr_at (lg_allocated L) d = rr_at (rq_resources (rec_request r)) d + rr_at (lg_allocated L') d"
      "contains_usage (rq_resources (rec_request r)) (tr_actual_usage t)"
      "\<forall>d. cu_at (lg_cumulative_usage L') d = cu_at (lg_cumulative_usage L) d + cu_at (tr_actual_usage t) d"
      "unat (lg_active_concurrency L) = unat (lg_active_concurrency L') + 1"
      "unat (lg_ledger_revision L') = unat (lg_ledger_revision L) + 1"
      "res = \<lparr>rs_record = ended_record r t digest, rs_replayed = False\<rparr>"
      "L' = L\<lparr>lg_reservations :=
           bt_insert (tr_reservation_id t) (ended_record r t digest) (lg_reservations L),
         lg_allocated := lg_allocated L', lg_cumulative_usage := lg_cumulative_usage L',
         lg_active_concurrency := lg_active_concurrency L',
         lg_transition_idempotency :=
           bt_insert (tr_idempotency_key t) (tr_reservation_id t, digest)
             (lg_transition_idempotency L),
         lg_ledger_revision := lg_ledger_revision L'\<rparr>"
proof (cases "bt_get (lg_transition_idempotency L) (tr_idempotency_key t)")
  case (Some entry)
  moreover obtain rid digest where "entry = (rid, digest)" by force
  ultimately show thesis
    using assms
    by (intro replay [of rid digest "rs_record res"])
      (auto simp: transition_staged_def res_simps split: if_splits)
next
  case None
  with assms show thesis
    by (auto simp: transition_staged_def res_simps Let_def ended_record_def rr_checked_sub_at
        cu_checked_add_at num_simps intro!: fresh)
qed

lemma transition_keeps_ok:
  assumes ok: "ledger_ok C L" and step: "transition_staged C L t = Inr (res, L')"
  shows "ledger_ok C L'"
  using step
proof (cases rule: transition_stagedE)
  case (replay rid digest r)
  with ok show ?thesis by simp
next
  case (fresh digest r)
  let ?r = "ended_record r t digest"
  let ?m = "bt_insert (tr_reservation_id t) ?r (lg_reservations L)"
  have L': "lg_session_id L' = lg_session_id L"
    "lg_session_capsule_digest L' = lg_session_capsule_digest L"
    "lg_session_fence L' = lg_session_fence L" "lg_limits L' = lg_limits L"
    "lg_maximum_concurrency L' = lg_maximum_concurrency L"
    "lg_maximum_child_count L' = lg_maximum_child_count L" "lg_reservations L' = ?m"
    "lg_admitted_child_count L' = lg_admitted_child_count L"
    "lg_next_generation L' = lg_next_generation L"
    "lg_child_reservations L' = lg_child_reservations L"
    "lg_reserve_idempotency L' = lg_reserve_idempotency L"
    "lg_transition_idempotency L' =
       bt_insert (tr_idempotency_key t) (tr_reservation_id t, digest) (lg_transition_idempotency L)"
    by (subst fresh(14), simp)+
  note old = ok [unfolded ledger_ok_def]
  have r_ok: "record_ok C L (tr_reservation_id t) r"
    using old fresh(5) by blast
  have state: "rec_state ?r \<noteq> Reserved"
    by (simp add: ended_record_def outcome_state_def split: ReservationTerminalOutcome.split)
  have sums: "bt_sum f ?m + f r = bt_sum f (lg_reservations L) + f ?r" for f
    using fresh(5) by (rule bt_sum_update)
  have counts: "held d ?r = 0" "held d r = rr_at (rq_resources (rec_request r)) d"
    "used d ?r = cu_at (tr_actual_usage t) d" "used d r = 0" "open_count ?r = 0" "open_count r = 1"
    "ended_count ?r = 1" "ended_count r = 0" for d
    using state fresh(7)
    by (simp_all add: held_def used_def open_count_def ended_count_def) (simp add: ended_record_def)
  have len: "bt_len (lg_reservations L') = bt_len (lg_reservations L)"
    using fresh(5) by (simp add: L' bt_len_insert)
  have "terminal_ok C L' (tr_reservation_id t) ?r t"
    using fresh(2,3,6,9) by (simp add: terminal_ok_def L' ended_record_def)
  moreover have "rec_terminal_request ?r = Some t" "rec_request ?r = rec_request r"
    "rec_request_digest ?r = rec_request_digest r" "rec_generation ?r = rec_generation r"
    by (simp_all add: ended_record_def)
  ultimately have new: "record_ok C L' (tr_reservation_id t) ?r"
    using r_ok state unfolding record_ok_def by (simp add: L')
  have records: "\<forall>rid r. bt_get (lg_reservations L') rid = Some r \<longrightarrow> record_ok C L' rid r"
  proof (intro allI impI)
    fix i q
    assume q: "bt_get (lg_reservations L') i = Some q"
    show "record_ok C L' i q"
    proof (cases "i = tr_reservation_id t")
      case True
      with q new show ?thesis by (simp add: L')
    next
      case False
      with q old have "record_ok C L i q" by (simp add: L')
      then show ?thesis
        by (rule record_ok_mono) (use fresh(1) in \<open>auto simp: L'\<close>)
    qed
  qed
  have gens: "\<exists>p. bt_get (lg_reservations L) i = Some p \<and> rec_generation p = rec_generation q"
    if "bt_get (lg_reservations L') i = Some q" for i q
    using that fresh(5) by (auto simp: L' ended_record_def split: if_splits)
  have "distinct_generations (lg_reservations L')"
    unfolding distinct_generations_def
  proof (intro allI impI)
    fix i q j p
    assume "bt_get (lg_reservations L') i = Some q \<and> bt_get (lg_reservations L') j = Some p \<and>
      rec_generation q = rec_generation p"
    moreover have "distinct_generations (lg_reservations L)"
      using old by simp
    ultimately show "i = j"
      using gens unfolding distinct_generations_def by metis
  qed
  moreover have "next_after (lg_reservations L') (lg_next_generation L')"
  proof -
    have na: "next_after (lg_reservations L) (lg_next_generation L)"
      using old by simp
    have nonempty: "lg_reservations L \<noteq> bt_empty" "lg_reservations L' \<noteq> bt_empty"
      using fresh(5) L'(7) by (metis bt_get_empty bt_get_insert option.distinct(1))+
    have "\<forall>i q. bt_get (lg_reservations L') i = Some q \<longrightarrow> rec_generation q < lg_next_generation L'"
      using gens next_after_below [OF na] unfolding L'(9) by metis
    moreover obtain i q where "bt_get (lg_reservations L) i = Some q"
      and "unat (lg_next_generation L) = unat (rec_generation q) + 1"
      using na nonempty(1) by (auto simp: next_after_def)
    then have "\<exists>i q. bt_get (lg_reservations L') i = Some q \<and>
        unat (lg_next_generation L') = unat (rec_generation q) + 1"
      using fresh(5)
      by (cases "i = tr_reservation_id t")
        (auto simp: L' ended_record_def intro!: exI [of _ i])
    ultimately show ?thesis
      using nonempty(2) unfolding next_after_def by simp
  qed
  moreover have "\<forall>d. rr_at (lg_allocated L') d = bt_sum (held d) (lg_reservations L')"
  proof
    fix d
    have "rr_at (lg_allocated L) d = bt_sum (held d) (lg_reservations L)"
      using old by simp
    then show "rr_at (lg_allocated L') d = bt_sum (held d) (lg_reservations L')"
      using sums [of "held d"] fresh(8) counts(1,2) [of d] L'(7) by (metis add.commute add_left_cancel add.right_neutral)
  qed
  moreover have usage: "\<forall>d. cu_at (lg_cumulative_usage L') d = bt_sum (used d) (lg_reservations L')"
  proof
    fix d
    have "cu_at (lg_cumulative_usage L) d = bt_sum (used d) (lg_reservations L)"
      using old by simp
    then show "cu_at (lg_cumulative_usage L') d = bt_sum (used d) (lg_reservations L')"
      using sums [of "used d"] fresh(10) counts(3,4) [of d] L'(7) by simp
  qed
  moreover have "within_limits (lg_limits L') (lg_cumulative_usage L') (lg_allocated L')"
  proof -
    have "within_limits (lg_limits L) (lg_cumulative_usage L) (lg_allocated L)"
      using old by simp
    then have A: "cu_at (lg_cumulative_usage L) d + rr_at (lg_allocated L) d \<le> rr_at (lg_limits L) d" for d
      unfolding within_limits_def by blast
    have B: "cu_at (tr_actual_usage t) d \<le> rr_at (rq_resources (rec_request r)) d" for d
      using fresh(9) by (simp add: contains_usage_at)
    have D: "cu_at (lg_cumulative_usage L') d = cu_at (lg_cumulative_usage L) d + cu_at (tr_actual_usage t) d"
      and E: "rr_at (lg_allocated L) d = rr_at (rq_resources (rec_request r)) d + rr_at (lg_allocated L') d" for d
      using fresh(8,10) by blast+
    have "cu_at (lg_cumulative_usage L') d + rr_at (lg_allocated L') d \<le> rr_at (lg_limits L) d" for d
      using A [of d] B [of d] D [of d] E [of d] by linarith
    then show ?thesis
      by (simp add: within_limits_def L')
  qed
  moreover have "unat (lg_active_concurrency L') = bt_sum open_count (lg_reservations L')"
    using sums [of open_count] old fresh(11) counts(5,6) L'(7) by simp
  moreover have ended: "bt_sum ended_count (lg_reservations L') = bt_sum ended_count (lg_reservations L) + 1"
    using sums [of ended_count] counts(7,8) L'(7) by simp
  moreover have "lg_active_concurrency L' \<le> lg_maximum_concurrency L'"
    using old fresh(11) by (simp add: L' word_le_nat_alt)
  moreover have "unat (lg_ledger_revision L') =
      bt_len (lg_reservations L') + bt_sum ended_count (lg_reservations L')"
    using old fresh(12) len ended by simp
  moreover have "bt_len (lg_transition_idempotency L') = bt_sum ended_count (lg_reservations L')"
    using old fresh(1) ended by (simp add: L'(12) bt_len_insert)
  ultimately show ?thesis
    unfolding ledger_ok_def using old records len by (simp add: L'(1-6,8-11))
qed

end
