(* ===== verification/Reservation_Safety.thy ===== *)
theory Reservation_Safety
  imports Reservation_Invariant
begin

text \<open>
  The public operations of the reservation ledger: what they commit, what a replay returns, and
  what holds of every ledger a Session can reach. The locale \<open>staged_ledger\<close> is the contract of
  staging: once the step keeps validity, the second validation never refuses, and a refused
  operation leaves the state as it was.
\<close>

subsection \<open>Staging\<close>

locale staged_ledger =
  fixes validate :: "'s \<Rightarrow> unit outcome"
    and step :: "'s \<Rightarrow> ('r \<times> 's) outcome"
  assumes step_valid: "validate s = Inr () \<Longrightarrow> step s = Inr (r, s') \<Longrightarrow> validate s' = Inr ()"
begin

lemma commit_exact:
  assumes "validate s = Inr ()"
  shows "staged_commit validate step s =
    (case step s of Inl e \<Rightarrow> (Inl e, s) | Inr (r, s') \<Rightarrow> (Inr r, s'))"
proof (cases "step s")
  case (Inl e)
  with assms show ?thesis by (simp add: staged_commit_def)
next
  case (Inr p)
  moreover obtain r s' where "p = (r, s')" by force
  ultimately show ?thesis
    using assms step_valid [of s r s'] by (simp add: staged_commit_def)
qed

lemma commit_valid:
  assumes "validate s = Inr ()"
  shows "validate (snd (staged_commit validate step s)) = Inr ()"
proof (cases "step s")
  case (Inl e)
  with assms show ?thesis by (simp add: commit_exact)
next
  case (Inr p)
  moreover obtain r s' where "p = (r, s')" by force
  ultimately show ?thesis
    using assms step_valid [of s r s'] by (simp add: commit_exact)
qed

lemma commit_atomic: "fst (staged_commit validate step s) = Inl e \<Longrightarrow> snd (staged_commit validate step s) = s"
  by (auto simp: staged_commit_def split: sum.splits prod.splits)

lemma commit_success:
  assumes "staged_commit validate step s = (Inr r, s')"
  shows "validate s = Inr ()" "step s = Inr (r, s')" "validate s' = Inr ()"
  using assms by (auto simp: staged_commit_def res_simps split: sum.splits prod.splits)

end

interpretation transition_commit:
  staged_ledger "ledger_validate C" "\<lambda>L. transition_staged C L t" for C t
  by unfold_locales (simp add: ledger_validate_iff transition_keeps_ok)

interpretation reserve_commit:
  staged_ledger "ledger_validate C" "\<lambda>L. reserve_staged C L q" for C q
  by unfold_locales (simp add: ledger_validate_iff reserve_keeps_ok)

subsection \<open>Creation\<close>

lemma session_limits_valid:
  assumes "session_validate C s = Inr ()"
  shows "rr_validate (from_session s) = Inr ()" "sc_maximum_concurrency s \<noteq> 0"
    and "sc_maximum_concurrency s \<le> sc_maximum_child_count s"
proof -
  have "resources_validate (sc_maximum_resources s) = Inr ()"
    using assms by (simp add: session_validate_def res_simps)
  then have "unat (rl_cpu_millis (sc_maximum_resources s)) \<noteq> 0"
    "unat (rl_task_count (sc_maximum_resources s)) \<noteq> 0"
    "rl_memory_bytes (sc_maximum_resources s) \<noteq> 0" "rl_storage_bytes (sc_maximum_resources s) \<noteq> 0"
    by (simp_all add: resources_validate_def res_simps unat_eq_0_iff)
  then show "rr_validate (from_session s) = Inr ()"
    by (auto simp: rr_validate_def from_session_def Let_def res_simps word_unat_eq_iff)
  show "sc_maximum_concurrency s \<noteq> 0" "sc_maximum_concurrency s \<le> sc_maximum_child_count s"
    using assms by (simp_all add: session_validate_def res_simps not_less)
qed

lemma ledger_new_ok:
  assumes "ledger_new C sid s fence = Inr L"
  shows "ledger_ok C L" "lg_limits L = from_session s"
    and "lg_maximum_concurrency L = sc_maximum_concurrency s"
    and "lg_maximum_child_count L = sc_maximum_child_count s"
    and "session_digest C s = Inr (lg_session_capsule_digest L)"
proof -
  from assms have valid: "session_validate C s = Inr ()"
    and sid: "v_identifier ''Session identity'' sid = Inr ()" "fence \<noteq> 0"
    by (auto simp: ledger_new_def res_simps)
  show "ledger_ok C L"
    using assms sid session_limits_valid [OF valid]
    by (auto simp: ledger_new_def res_simps ledger_ok_def distinct_generations_def next_after_def
        within_limits_def)
qed (use assms in \<open>auto simp: ledger_new_def res_simps\<close>)

subsection \<open>Reachable ledgers\<close>

text \<open>
  One public operation on the ledger. Finalizing is done by \<^verbatim>\<open>finalize_and_publish\<close>, which stages
  the same transition together with a publication.
\<close>

inductive ledger_step ::
    "('z) canon_ledger_scheme \<Rightarrow> SessionReservationLedger \<Rightarrow> SessionReservationLedger \<Rightarrow> bool"
  for C :: "('z) canon_ledger_scheme" where
  step_admit: "admit_child C L request a = (result, L') \<Longrightarrow> ledger_step C L L'"
| step_release: "release C L t = (result, L') \<Longrightarrow> ledger_step C L L'"
| step_finalize:
    "tr_outcome t = Outcome_Finalized digest \<Longrightarrow> transition_staged C L t = Inr (result, L')
     \<Longrightarrow> ledger_step C L L'"

abbreviation ledger_reach ::
    "('z) canon_ledger_scheme \<Rightarrow> SessionReservationLedger \<Rightarrow> SessionReservationLedger \<Rightarrow> bool" where
  "ledger_reach C \<equiv> (ledger_step C)\<^sup>*\<^sup>*"

lemma admit_success:
  assumes "admit_child C L request a = (Inr res, L')"
  obtains cdigest sdigest where
    "admission_validate request = Inr ()" "ledger_ok C L"
    "session_validate C (ac_session a) = Inr ()" "execution_validate (ac_child a) = Inr ()"
    "execution_digest C (ac_child a) = Inr cdigest" "session_digest C (ac_session a) = Inr sdigest"
    "(L' = L \<and> exact_reservation_replay C L (derived_request request sdigest cdigest (ac_child a)) =
        Inr (Some res)) \<or>
     (exact_reservation_replay C L (derived_request request sdigest cdigest (ac_child a)) = Inr None \<and>
      admission_authorized C L a (derived_request request sdigest cdigest (ac_child a)) = Inr () \<and>
      reserve_staged C L (derived_request request sdigest cdigest (ac_child a)) = Inr (res, L'))"
proof -
  have staged: "admit_staged C L request a = Inr (res, L')"
    using assms by (auto simp: admit_child_def split: sum.splits)
  then obtain cdigest sdigest replay where
    facts: "admission_validate request = Inr ()" "ledger_ok C L"
      "session_validate C (ac_session a) = Inr ()" "execution_validate (ac_child a) = Inr ()"
      "execution_digest C (ac_child a) = Inr cdigest" "session_digest C (ac_session a) = Inr sdigest"
    and replay: "exact_reservation_replay C L (derived_request request sdigest cdigest (ac_child a)) =
      Inr replay"
    by (auto simp: admit_staged_def res_simps Let_def ledger_validate_iff)
  show thesis
  proof (cases replay)
    case None
    with staged facts replay that show thesis
      by (auto simp: admit_staged_def res_simps Let_def ledger_validate_iff)
  next
    case (Some result)
    with staged facts replay that show thesis
      by (auto simp: admit_staged_def res_simps Let_def ledger_validate_iff)
  qed
qed

lemma admit_failure: "admit_child C L request a = (Inl e, L') \<Longrightarrow> L' = L"
  by (auto simp: admit_child_def split: sum.splits prod.splits)

lemma release_failure: "release C L t = (Inl e, L') \<Longrightarrow> L' = L"
  using transition_commit.commit_atomic [of C t L e]
  by (auto simp: release_def split: ReservationTerminalOutcome.splits)

lemma release_success:
  assumes "release C L t = (Inr res, L')"
  shows "transition_staged C L t = Inr (res, L')"
  using assms transition_commit.commit_success [of C t L res L']
  by (auto simp: release_def split: ReservationTerminalOutcome.splits)

lemma ledger_step_cases:
  assumes "ledger_step C L L'"
  obtains (same) "L' = L"
    | (reserve) q res where "reserve_staged C L q = Inr (res, L')"
    | (transition) t res where "transition_staged C L t = Inr (res, L')"
  using assms
proof cases
  case (step_admit request a result)
  then show thesis
    by (cases result) (auto elim!: admit_success dest: admit_failure intro: that)
next
  case (step_release t result)
  then show thesis
    by (cases result) (auto dest: release_failure release_success intro: that)
next
  case (step_finalize t digest result)
  then show thesis by (auto intro: that)
qed

text \<open>What later ledgers keep of an earlier one.\<close>

definition record_extends :: "ChildReservationRecord \<Rightarrow> ChildReservationRecord \<Rightarrow> bool" where
  "record_extends r r' \<longleftrightarrow>
     rec_request r' = rec_request r \<and> rec_request_digest r' = rec_request_digest r \<and>
     rec_generation r' = rec_generation r \<and> (rec_state r \<noteq> Reserved \<longrightarrow> r' = r)"

definition ledger_extends :: "SessionReservationLedger \<Rightarrow> SessionReservationLedger \<Rightarrow> bool" where
  "ledger_extends L L' \<longleftrightarrow>
     lg_session_id L' = lg_session_id L \<and>
     lg_session_capsule_digest L' = lg_session_capsule_digest L \<and>
     lg_session_fence L' = lg_session_fence L \<and>
     lg_limits L' = lg_limits L \<and>
     lg_maximum_concurrency L' = lg_maximum_concurrency L \<and>
     lg_maximum_child_count L' = lg_maximum_child_count L \<and>
     (\<forall>rid r. bt_get (lg_reservations L) rid = Some r \<longrightarrow>
        (\<exists>r'. bt_get (lg_reservations L') rid = Some r' \<and> record_extends r r')) \<and>
     (\<forall>k v. bt_get (lg_reserve_idempotency L) k = Some v \<longrightarrow>
        bt_get (lg_reserve_idempotency L') k = Some v) \<and>
     (\<forall>k v. bt_get (lg_transition_idempotency L) k = Some v \<longrightarrow>
        bt_get (lg_transition_idempotency L') k = Some v) \<and>
     (\<forall>d. cu_at (lg_cumulative_usage L) d \<le> cu_at (lg_cumulative_usage L') d) \<and>
     unat (lg_ledger_revision L) \<le> unat (lg_ledger_revision L')"

lemma record_extends_refl: "record_extends r r"
  by (simp add: record_extends_def)

lemma record_extends_trans: "record_extends p q \<Longrightarrow> record_extends q r \<Longrightarrow> record_extends p r"
  by (auto simp: record_extends_def)

lemma ledger_extends_refl: "ledger_extends L L"
  by (auto simp: ledger_extends_def intro: record_extends_refl)

lemma ledger_extends_trans:
  assumes "ledger_extends K L" "ledger_extends L M"
  shows "ledger_extends K M"
proof -
  have "\<exists>r'. bt_get (lg_reservations M) rid = Some r' \<and> record_extends r r'"
    if r: "bt_get (lg_reservations K) rid = Some r" for rid r
  proof -
    obtain q where "bt_get (lg_reservations L) rid = Some q" "record_extends r q"
      using assms(1) r unfolding ledger_extends_def by blast
    moreover from this obtain p where "bt_get (lg_reservations M) rid = Some p" "record_extends q p"
      using assms(2) unfolding ledger_extends_def by blast
    ultimately show ?thesis
      by (blast intro: record_extends_trans)
  qed
  moreover have "\<forall>d. cu_at (lg_cumulative_usage K) d \<le> cu_at (lg_cumulative_usage M) d"
    using assms unfolding ledger_extends_def by (meson order_trans)
  ultimately show ?thesis
    using assms by (simp add: ledger_extends_def)
qed

lemma reserve_extends:
  assumes "reserve_staged C L q = Inr (res, L')"
  shows "ledger_extends L L'"
  using assms
proof (cases rule: reserve_stagedE)
  case (replay rid r)
  then show ?thesis by (simp add: ledger_extends_refl)
next
  case (fresh digest)
  show ?thesis
    unfolding ledger_extends_def
    by (subst fresh(18), use fresh(1,7,16) in \<open>auto intro: record_extends_refl\<close>)+
qed

lemma transition_extends:
  assumes "transition_staged C L t = Inr (res, L')"
  shows "ledger_extends L L'"
  using assms
proof (cases rule: transition_stagedE)
  case (replay rid digest r)
  then show ?thesis by (simp add: ledger_extends_refl)
next
  case (fresh digest r)
  have L': "lg_session_id L' = lg_session_id L"
    "lg_session_capsule_digest L' = lg_session_capsule_digest L"
    "lg_session_fence L' = lg_session_fence L" "lg_limits L' = lg_limits L"
    "lg_maximum_concurrency L' = lg_maximum_concurrency L"
    "lg_maximum_child_count L' = lg_maximum_child_count L"
    "lg_reservations L' =
       bt_insert (tr_reservation_id t) (ended_record r t digest) (lg_reservations L)"
    "lg_reserve_idempotency L' = lg_reserve_idempotency L"
    "lg_transition_idempotency L' =
       bt_insert (tr_idempotency_key t) (tr_reservation_id t, digest) (lg_transition_idempotency L)"
    by (subst fresh(14), simp)+
  have "record_extends r (ended_record r t digest)"
    using fresh(7) by (simp add: record_extends_def ended_record_def)
  then show ?thesis
    using fresh(1,5,10,12) unfolding ledger_extends_def L'
    by (auto intro: record_extends_refl)
qed

lemma ledger_step_extends: "ledger_step C L L' \<Longrightarrow> ledger_extends L L'"
  by (erule ledger_step_cases) (auto intro: ledger_extends_refl reserve_extends transition_extends)

lemma ledger_step_ok: "ledger_step C L L' \<Longrightarrow> ledger_ok C L \<Longrightarrow> ledger_ok C L'"
  by (erule ledger_step_cases) (auto intro: reserve_keeps_ok transition_keeps_ok)

lemma ledger_reach_extends: "ledger_reach C L L' \<Longrightarrow> ledger_extends L L'"
  by (induction rule: rtranclp_induct)
    (auto intro: ledger_extends_refl ledger_extends_trans ledger_step_extends)

lemma ledger_reach_ok: "ledger_reach C L L' \<Longrightarrow> ledger_ok C L \<Longrightarrow> ledger_ok C L'"
  by (induction rule: rtranclp_induct) (auto intro: ledger_step_ok)

subsection \<open>Properties\<close>

text \<open>
  C29: validation of a durable reservation ledger is exact. It accepts a ledger just when every
  counter and index agrees with the canonical records: the allocation is the sum of what open
  reservations hold, the lifetime usage is the sum of what ended ones used, the two together stay
  within the sealed limits, and every index entry points to its record.
\<close>

theorem ledger_validation_exact: "ledger_validate C L = Inr () \<longleftrightarrow> ledger_ok C L"
  by (rule ledger_validate_iff)

text \<open>
  C1: a Session never spends more than its sealed budget. In every ledger reached from a new one by
  admissions, releases and finalizations, and in every dimension, what ended children used plus
  what open ones hold is at most the Session's own limit; open children never exceed its
  concurrency and admitted ones never its child count; and the ledger still validates.
\<close>

theorem session_budget_never_exceeded:
  assumes "ledger_new C session_id s fence = Inr L" "ledger_reach C L L'"
  shows "(\<forall>d. bt_sum (used d) (lg_reservations L') + bt_sum (held d) (lg_reservations L')
       \<le> rr_at (from_session s) d) \<and>
     bt_sum open_count (lg_reservations L') \<le> unat (sc_maximum_concurrency s) \<and>
     bt_len (lg_reservations L') \<le> unat (sc_maximum_child_count s) \<and>
     ledger_validate C L' = Inr ()"
proof -
  note new = ledger_new_ok [OF assms(1)]
  have ok: "ledger_ok C L'"
    using ledger_reach_ok [OF assms(2) new(1)] .
  have fixed: "lg_limits L' = from_session s"
    "lg_maximum_concurrency L' = sc_maximum_concurrency s"
    "lg_maximum_child_count L' = sc_maximum_child_count s"
    using ledger_reach_extends [OF assms(2)] new(2-4) by (simp_all add: ledger_extends_def)
  have within: "within_limits (lg_limits L') (lg_cumulative_usage L') (lg_allocated L')"
    and sums: "\<And>d. rr_at (lg_allocated L') d = bt_sum (held d) (lg_reservations L')"
      "\<And>d. cu_at (lg_cumulative_usage L') d = bt_sum (used d) (lg_reservations L')"
    and counts: "unat (lg_active_concurrency L') = bt_sum open_count (lg_reservations L')"
      "lg_active_concurrency L' \<le> lg_maximum_concurrency L'"
      "unat (lg_admitted_child_count L') = bt_len (lg_reservations L')"
      "lg_admitted_child_count L' \<le> lg_maximum_child_count L'"
    using ok by (simp_all add: ledger_ok_def)
  have "\<forall>d. bt_sum (used d) (lg_reservations L') + bt_sum (held d) (lg_reservations L')
       \<le> rr_at (from_session s) d"
    using within unfolding within_limits_def fixed(1) sums .
  then show ?thesis
    using counts fixed ok by (simp add: ledger_validate_iff word_le_nat_alt)
qed

text \<open>
  C2: a fresh admission is authorized and accounted. The admitted child lies inside the envelope
  of the Session the ledger belongs to, its tenant is the Session's, the seal was accepted at
  that moment under the current revocation generation, and the ledger gained exactly one open
  record, holding the resources of that child's Capsule.
\<close>

theorem admission_authorized_and_accounted:
  assumes "admit_child C L request a = (Inr res, L')" "\<not> rs_replayed res"
  shows "session_digest C (ac_session a) = Inr (lg_session_capsule_digest L) \<and>
     resources_contains (sc_maximum_resources (ac_session a)) (xc_resources (ac_child a)) \<and>
     capabilities_contains (sc_capabilities (ac_session a)) (xc_capabilities (ac_child a)) \<and>
     placement_contains (sc_placement (ac_session a)) (xc_placement (ac_child a)) \<and>
     xc_tenant_id (ac_child a) = sc_tenant_id (ac_session a) \<and>
     seal_validate_for_subject C (ac_verifier a) (ac_seal a) (ac_subject a) (ac_now_unix_ms a)
       (ac_current_seal_revocation_generation a) = Inr () \<and>
     rq_resources (rec_request (rs_record res)) = from_child (ac_child a) \<and>
     rec_state (rs_record res) = Reserved \<and>
     bt_get (lg_reservations L) (ca_reservation_id request) = None \<and>
     lg_reservations L' = bt_insert (ca_reservation_id request) (rs_record res) (lg_reservations L)"
proof -
  from assms(1) obtain cdigest sdigest where
    sdigest: "session_digest C (ac_session a) = Inr sdigest"
    and alternatives: "(L' = L \<and> exact_reservation_replay C L
          (derived_request request sdigest cdigest (ac_child a)) = Inr (Some res)) \<or>
        (admission_authorized C L a (derived_request request sdigest cdigest (ac_child a)) = Inr () \<and>
         reserve_staged C L (derived_request request sdigest cdigest (ac_child a)) = Inr (res, L'))"
    by (rule admit_success) blast
  have no_replay: "exact_reservation_replay C L q \<noteq> Inr (Some res)" for q
    using assms(2)
    by (auto simp: exact_reservation_replay_def res_simps split: option.splits if_splits)
  with alternatives have
    auth: "admission_authorized C L a (derived_request request sdigest cdigest (ac_child a)) = Inr ()"
    and reserve: "reserve_staged C L (derived_request request sdigest cdigest (ac_child a)) = Inr (res, L')"
    by blast+
  have parent: "validate_against_parent C (ac_grant a) (admission_context a) = Inr ()"
    and child: "contains_child C (ac_grant a) (ac_child a) = Inr ()"
    and ids: "sdigest = lg_session_capsule_digest L" "xc_tenant_id (ac_child a) = sc_tenant_id (ac_session a)"
    using auth by (simp_all add: admission_authorized_def res_simps derived_request_def)
  have same_session: "dv_session (admission_context a) = ac_session a"
    by (simp add: admission_context_def)
  have seal: "seal_validate_for_subject C (ac_verifier a) (ac_seal a) (ac_subject a) (ac_now_unix_ms a)
       (ac_current_seal_revocation_generation a) = Inr ()"
    using parent by (rule grant_envelope) (simp add: admission_context_def)
  from reserve show ?thesis
  proof (cases rule: reserve_stagedE)
    case (replay rid r)
    with assms(2) show ?thesis by simp
  next
    case (fresh digest)
    have "lg_reservations L' = bt_insert (ca_reservation_id request) (rs_record res) (lg_reservations L)"
      by (subst fresh(18)) (simp add: fresh(17) derived_request_def)
    then show ?thesis
      using sdigest ids seal fresh(7,17) delegated_child_envelope [OF parent child]
      by (simp add: same_session fresh_record_def derived_request_def)
  qed
qed

lemma admitted_entry:
  assumes "admit_child C L request a = (Inr res, L')"
  obtains cdigest sdigest rid where
    "execution_digest C (ac_child a) = Inr cdigest" "session_digest C (ac_session a) = Inr sdigest"
    "ledger_ok C L'"
    "bt_get (lg_reserve_idempotency L') (ca_idempotency_key request) = Some rid"
    "bt_get (lg_reservations L') rid = Some (rs_record res)"
    "request_digest C (derived_request request sdigest cdigest (ac_child a)) =
       Inr (rec_request_digest (rs_record res))"
proof -
  from assms obtain cdigest sdigest where
    digests: "execution_digest C (ac_child a) = Inr cdigest" "session_digest C (ac_session a) = Inr sdigest"
    and ok: "ledger_ok C L"
    and alternatives: "(L' = L \<and> exact_reservation_replay C L
          (derived_request request sdigest cdigest (ac_child a)) = Inr (Some res)) \<or>
        reserve_staged C L (derived_request request sdigest cdigest (ac_child a)) = Inr (res, L')"
    by (rule admit_success) blast
  let ?q = "derived_request request sdigest cdigest (ac_child a)"
  have key: "rq_idempotency_key ?q = ca_idempotency_key request"
    by (simp add: derived_request_def)
  from alternatives have "\<exists>rid. ledger_ok C L' \<and>
      bt_get (lg_reserve_idempotency L') (ca_idempotency_key request) = Some rid \<and>
      bt_get (lg_reservations L') rid = Some (rs_record res) \<and>
      request_digest C ?q = Inr (rec_request_digest (rs_record res))"
  proof
    assume "L' = L \<and> exact_reservation_replay C L ?q = Inr (Some res)"
    with ok show ?thesis
      by (auto simp: exact_reservation_replay_def key res_simps split: option.splits if_splits)
  next
    assume reserve: "reserve_staged C L ?q = Inr (res, L')"
    then show ?thesis
    proof (cases rule: reserve_stagedE)
      case (replay rid r)
      with ok show ?thesis by (auto simp: key)
    next
      case (fresh digest)
      have "bt_get (lg_reserve_idempotency L') (ca_idempotency_key request) = Some (rq_reservation_id ?q)"
        "bt_get (lg_reservations L') (rq_reservation_id ?q) = Some (rs_record res)"
        by (subst fresh(18), simp add: key fresh(17))+
      then show ?thesis
        using reserve_keeps_ok [OF ok reserve] fresh(2,17) by (auto simp: fresh_record_def)
    qed
  qed
  with digests that show thesis by blast
qed

lemma later_entry:
  assumes "admit_child C L request a = (Inr res, L')" "ledger_reach C L' L''"
  obtains cdigest sdigest rid r where
    "execution_digest C (ac_child a) = Inr cdigest" "session_digest C (ac_session a) = Inr sdigest"
    "ledger_ok C L''"
    "bt_get (lg_reserve_idempotency L'') (ca_idempotency_key request) = Some rid"
    "bt_get (lg_reservations L'') rid = Some r" "record_extends (rs_record res) r"
    "request_digest C (derived_request request sdigest cdigest (ac_child a)) =
       Inr (rec_request_digest r)"
proof -
  from assms(1) obtain cdigest sdigest rid where
    digests: "execution_digest C (ac_child a) = Inr cdigest" "session_digest C (ac_session a) = Inr sdigest"
    and ok: "ledger_ok C L'"
    and entry: "bt_get (lg_reserve_idempotency L') (ca_idempotency_key request) = Some rid"
      "bt_get (lg_reservations L') rid = Some (rs_record res)"
    and digest: "request_digest C (derived_request request sdigest cdigest (ac_child a)) =
       Inr (rec_request_digest (rs_record res))"
    by (rule admitted_entry)
  have ext: "ledger_extends L' L''"
    using assms(2) by (rule ledger_reach_extends)
  obtain r where r: "bt_get (lg_reservations L'') rid = Some r" "record_extends (rs_record res) r"
    using ext entry(2) unfolding ledger_extends_def by blast
  moreover have "bt_get (lg_reserve_idempotency L'') (ca_idempotency_key request) = Some rid"
    using ext entry(1) unfolding ledger_extends_def by blast
  moreover have "rec_request_digest r = rec_request_digest (rs_record res)"
    using r(2) by (simp add: record_extends_def)
  ultimately show thesis
    using that digests digest ledger_reach_ok [OF assms(2) ok] by simp
qed

text \<open>
  C25: admission is idempotent for ever. Once a request was admitted, submitting it again for the
  same Session and child, at any later state of the ledger and whatever has become of the grant,
  the seal or the clock, returns the record of the first admission (the same request and
  generation, ended or not) as a replay and changes nothing.
\<close>

theorem admission_replay:
  assumes "admit_child C L request a = (Inr res, L')" "ledger_reach C L' L''"
    and "ac_session a' = ac_session a" "ac_child a' = ac_child a"
  shows "\<exists>r. record_extends (rs_record res) r \<and>
     admit_child C L'' request a' = (Inr \<lparr>rs_record = r, rs_replayed = True\<rparr>, L'')"
proof -
  from assms(1) have valid: "admission_validate request = Inr ()"
    "session_validate C (ac_session a) = Inr ()" "execution_validate (ac_child a) = Inr ()"
    by (rule admit_success, blast)+
  from assms(1,2) obtain cdigest sdigest rid r where facts:
    "execution_digest C (ac_child a) = Inr cdigest" "session_digest C (ac_session a) = Inr sdigest"
    "ledger_ok C L''"
    "bt_get (lg_reserve_idempotency L'') (ca_idempotency_key request) = Some rid"
    "bt_get (lg_reservations L'') rid = Some r" "record_extends (rs_record res) r"
    "request_digest C (derived_request request sdigest cdigest (ac_child a)) =
       Inr (rec_request_digest r)"
    by (rule later_entry)
  let ?q = "derived_request request sdigest cdigest (ac_child a)"
  have "exact_reservation_replay C L'' ?q = Inr (Some \<lparr>rs_record = r, rs_replayed = True\<rparr>)"
    using facts(4,5,7) by (simp add: exact_reservation_replay_def derived_request_def)
  then have "admit_child C L'' request a' = (Inr \<lparr>rs_record = r, rs_replayed = True\<rparr>, L'')"
    using valid facts(1,2) facts(3) [folded ledger_validate_iff] assms(3,4)
    by (simp add: admit_child_def admit_staged_def Let_def)
  with facts(6) show ?thesis by blast
qed

text \<open>
  An idempotency key is bound to one request. Reusing the key of an admitted request for a
  request with another digest is refused as a conflict at every later state, and changes nothing.
\<close>

theorem admission_key_conflict:
  assumes "admit_child C L request a = (Inr res, L')" "ledger_reach C L' L''"
    and "admission_validate other = Inr ()" "ca_idempotency_key other = ca_idempotency_key request"
    and "execution_digest C (ac_child a') = Inr cdigest" "session_digest C (ac_session a') = Inr sdigest"
    and "request_digest C (derived_request other sdigest cdigest (ac_child a')) = Inr d"
    and "d \<noteq> rec_request_digest (rs_record res)"
  shows "admit_child C L'' other a' = (Inl IdempotencyConflict, L'')"
proof -
  from assms(1,2) obtain rid r where facts: "ledger_ok C L''"
    "bt_get (lg_reserve_idempotency L'') (ca_idempotency_key request) = Some rid"
    "bt_get (lg_reservations L'') rid = Some r" "record_extends (rs_record res) r"
    by (rule later_entry)
  have valid: "execution_validate (ac_child a') = Inr ()" "session_validate C (ac_session a') = Inr ()"
    using assms(5,6) by (auto simp: execution_digest_def session_digest_def res_simps)
  let ?q = "derived_request other sdigest cdigest (ac_child a')"
  have "rec_request_digest r \<noteq> d"
    using facts(4) assms(8) by (simp add: record_extends_def)
  then have "exact_reservation_replay C L'' ?q = Inl IdempotencyConflict"
    using facts(2,3) assms(4,7) by (simp add: exact_reservation_replay_def derived_request_def)
  then show ?thesis
    using valid facts(1) [folded ledger_validate_iff] assms(3,5,6)
    by (simp add: admit_child_def admit_staged_def Let_def)
qed

text \<open>
  C28: an ended reservation is final and its usage is never given back. No later operation changes
  a released or finalized record, and the lifetime usage of the Session only grows, in every
  dimension.
\<close>

theorem ended_reservations_final:
  assumes "ledger_reach C L L'" "bt_get (lg_reservations L) rid = Some r" "rec_state r \<noteq> Reserved"
  shows "bt_get (lg_reservations L') rid = Some r \<and>
     (\<forall>d. cu_at (lg_cumulative_usage L) d \<le> cu_at (lg_cumulative_usage L') d)"
  using ledger_reach_extends [OF assms(1)] assms(2,3)
  by (fastforce simp: ledger_extends_def record_extends_def)

text \<open>
  C26: no lost update. After a fresh admission, a request prepared against the ledger revision
  before it can only be a replay: no later state admits it as a new child.
\<close>

theorem stale_admission_refused:
  assumes "admit_child C L request a = (Inr res, L')" "\<not> rs_replayed res" "ledger_reach C L' L''"
    and "ca_expected_ledger_revision stale = lg_ledger_revision L"
    and "admit_child C L'' stale a' = (Inr res', L3)"
  shows "rs_replayed res' \<and> L3 = L''"
proof -
  from assms(1) obtain q where "(L' = L \<and> exact_reservation_replay C L q = Inr (Some res)) \<or>
      reserve_staged C L q = Inr (res, L')"
    by (rule admit_success) blast
  then have "reserve_staged C L q = Inr (res, L')"
    using assms(2)
    by (auto simp: exact_reservation_replay_def res_simps split: option.splits if_splits)
  then have "unat (lg_ledger_revision L') = unat (lg_ledger_revision L) + 1"
    using assms(2) by (cases rule: reserve_stagedE) auto
  moreover have "unat (lg_ledger_revision L') \<le> unat (lg_ledger_revision L'')"
    using ledger_reach_extends [OF assms(3)] by (simp add: ledger_extends_def)
  ultimately have moved: "lg_ledger_revision L'' \<noteq> lg_ledger_revision L"
    by auto
  from assms(5) obtain cdigest sdigest where
    alternatives: "(L3 = L'' \<and> exact_reservation_replay C L''
          (derived_request stale sdigest cdigest (ac_child a')) = Inr (Some res')) \<or>
        reserve_staged C L'' (derived_request stale sdigest cdigest (ac_child a')) = Inr (res', L3)"
    by (rule admit_success) blast
  then show ?thesis
  proof
    assume "L3 = L'' \<and> exact_reservation_replay C L''
          (derived_request stale sdigest cdigest (ac_child a')) = Inr (Some res')"
    then show ?thesis
      by (auto simp: exact_reservation_replay_def res_simps split: option.splits if_splits)
  next
    assume "reserve_staged C L'' (derived_request stale sdigest cdigest (ac_child a')) = Inr (res', L3)"
    then show ?thesis
    proof (cases rule: reserve_stagedE)
      case (replay rid r)
      then show ?thesis by simp
    next
      case (fresh digest)
      with moved assms(4) show ?thesis by (simp add: derived_request_def)
    qed
  qed
qed

lemma checked_add_fits:
  fixes a :: "'a::len word"
  assumes "unat a + unat b < 2 ^ LENGTH('a)"
  obtains c where "checked_add a b = Some c"
  using assms by (cases "checked_add a b") (auto simp: checked_add_None)

lemma ledger_counts_small:
  assumes "ledger_ok C L"
  shows "bt_len (lg_reservations L) < 2 ^ 32"
    and "unat (lg_ledger_revision L) + 1 < 2 ^ 64"
    and "bt_sum open_count (lg_reservations L) < 2 ^ 32"
proof -
  have len: "unat (lg_admitted_child_count L) = bt_len (lg_reservations L)"
    and rev: "unat (lg_ledger_revision L) =
      bt_len (lg_reservations L) + bt_sum ended_count (lg_reservations L)"
    and act: "unat (lg_active_concurrency L) = bt_sum open_count (lg_reservations L)"
    using assms by (simp_all add: ledger_ok_def)
  show small: "bt_len (lg_reservations L) < 2 ^ 32"
    using unat_less_size [of "lg_admitted_child_count L"] len by simp
  have "bt_sum ended_count (lg_reservations L) \<le> bt_len (lg_reservations L)"
    unfolding bt_len_sum by (rule bt_sum_mono) (simp add: ended_count_def)
  with small rev show "unat (lg_ledger_revision L) + 1 < 2 ^ 64"
    by simp
  show "bt_sum open_count (lg_reservations L) < 2 ^ 32"
    using unat_less_size [of "lg_active_concurrency L"] act by simp
qed

text \<open>
  C27: no reservation is stuck. In every valid ledger an open reservation can be released with any
  usage it was allowed: at the current fence and revision and under an unused key the release
  succeeds, no checked subtraction or addition fails, and exactly the resources it held return to
  the Session.
\<close>

theorem release_progress:
  assumes "ledger_ok C L" "transition_digest C t = Inr digest" "tr_outcome t = Outcome_Released reason"
    and "bt_get (lg_transition_idempotency L) (tr_idempotency_key t) = None"
    and "tr_session_fence t = lg_session_fence L"
    and "tr_expected_ledger_revision t = lg_ledger_revision L"
    and "bt_get (lg_reservations L) (tr_reservation_id t) = Some r" "rec_state r = Reserved"
    and "rq_child_execution_id (rec_request r) = tr_child_execution_id t"
    and "contains_usage (rq_resources (rec_request r)) (tr_actual_usage t)"
  shows "\<exists>L'. release C L t =
       (Inr \<lparr>rs_record = ended_record r t digest, rs_replayed = False\<rparr>, L') \<and>
     (\<forall>d. rr_at (lg_allocated L') d =
        rr_at (lg_allocated L) d - rr_at (rq_resources (rec_request r)) d)"
proof -
  note ok = assms(1)
  let ?res = "rq_resources (rec_request r)"
  have held: "rr_at ?res d \<le> rr_at (lg_allocated L) d" for d
    using ok bt_sum_member [OF assms(7), of "held d"] assms(8) by (simp add: ledger_ok_def held_def)
  obtain allocated where alloc: "rr_checked_sub (lg_allocated L) ?res = Inr allocated"
    "\<And>d. rr_at (lg_allocated L) d = rr_at ?res d + rr_at allocated d"
    using rr_checked_sub_ex [OF held] by blast
  have "cu_at (lg_cumulative_usage L) d + cu_at (tr_actual_usage t) d < 2 ^ 64" for d
  proof -
    have "within_limits (lg_limits L) (lg_cumulative_usage L) (lg_allocated L)"
      using ok by (simp add: ledger_ok_def)
    then have "cu_at (lg_cumulative_usage L) d + rr_at (lg_allocated L) d \<le> rr_at (lg_limits L) d"
      unfolding within_limits_def by blast
    moreover have "cu_at (tr_actual_usage t) d \<le> rr_at (lg_allocated L) d"
      using assms(10) held [of d] unfolding contains_usage_at by (meson order_trans)
    ultimately show ?thesis
      using rr_at_less [of "lg_limits L" d] by linarith
  qed
  then obtain usage where usage: "cu_checked_add (lg_cumulative_usage L) (tr_actual_usage t) = Inr usage"
    by (rule cu_checked_add_ex)
  have "1 \<le> unat (lg_active_concurrency L)"
    using ok bt_sum_member [OF assms(7), of open_count] assms(8)
    by (simp add: ledger_ok_def open_count_def)
  then obtain active where active: "checked_sub (lg_active_concurrency L) 1 = Some active"
    by (cases "checked_sub (lg_active_concurrency L) 1")
      (auto simp: checked_sub_def word_le_nat_alt split: if_splits)
  have "unat (lg_ledger_revision L) + unat (1 :: u64) < 2 ^ LENGTH(64)"
    using ledger_counts_small(2) [OF ok] by simp
  then obtain revision where revision: "checked_add (lg_ledger_revision L) 1 = Some revision"
    by (rule checked_add_fits)
  have validates: "transition_validate t = Inr ()"
    using assms(2) by (auto simp: transition_digest_def res_simps)
  obtain L' where staged: "transition_staged C L t =
      Inr (\<lparr>rs_record = ended_record r t digest, rs_replayed = False\<rparr>, L')"
    and L': "lg_allocated L' = allocated"
    using assms(2,4-10) validates alloc(1) usage active revision
    by (simp add: transition_staged_def Let_def ended_record_def)
  have "release C L t = (Inr \<lparr>rs_record = ended_record r t digest, rs_replayed = False\<rparr>, L')"
    using staged assms(3) transition_commit.commit_exact [of C L t] ok
    by (simp add: release_def ledger_validate_iff)
  then show ?thesis
    using alloc(2) L' by auto
qed

lemma reserve_succeeds:
  assumes ok: "ledger_ok C L" and digest: "request_digest C q = Inr digest"
    and fresh: "bt_get (lg_reserve_idempotency L) (rq_idempotency_key q) = None"
      "bt_get (lg_reservations L) (rq_reservation_id q) = None"
      "bt_get (lg_child_reservations L) (rq_child_execution_id q) = None"
    and current: "rq_session_fence q = lg_session_fence L" "rq_session_id q = lg_session_id L"
      "rq_session_capsule_digest q = lg_session_capsule_digest L"
      "rq_expected_ledger_revision q = lg_ledger_revision L"
    and generation: "unat (lg_next_generation L) + 1 < 2 ^ 64"
    and fits: "\<And>d. cu_at (lg_cumulative_usage L) d + rr_at (lg_allocated L) d + rr_at (rq_resources q) d
      \<le> rr_at (lg_limits L) d"
    and slots: "lg_active_concurrency L < lg_maximum_concurrency L"
      "lg_admitted_child_count L < lg_maximum_child_count L"
  shows "is_ok (reserve_staged C L q)"
proof -
  have "rr_at (lg_allocated L) d + rr_at (rq_resources q) d < 2 ^ 64" for d
    using fits [of d] rr_at_less [of "lg_limits L" d] by linarith
  then obtain allocated where alloc: "rr_checked_add (lg_allocated L) (rq_resources q) = Inr allocated"
    using rr_checked_add_ex by metis
  then have at: "\<And>d. rr_at allocated d = rr_at (lg_allocated L) d + rr_at (rq_resources q) d"
    by (simp add: rr_checked_add_at)
  have within: "within_limits (lg_limits L) (lg_cumulative_usage L) allocated"
    using fits by (simp add: within_limits_def at add.assoc)
  then obtain spent where spent: "cu_checked_add (lg_cumulative_usage L) (capability_usage allocated) = Inr spent"
    by (rule within_limits_fits)
  then have contained: "rr_contains (lg_limits L) allocated" "contains_usage (lg_limits L) spent"
    using within_limits_iff within by blast+
  have "unat (lg_next_generation L) + unat (1 :: u64) < 2 ^ LENGTH(64)"
    using generation by simp
  then obtain g where g: "checked_add (lg_next_generation L) 1 = Some g"
    by (rule checked_add_fits)
  have "unat (lg_active_concurrency L) + unat (1 :: u32) < 2 ^ LENGTH(32)"
    using slots(1) unat_less_size [of "lg_maximum_concurrency L"] by (simp add: word_less_nat_alt)
  then obtain n where n: "checked_add (lg_active_concurrency L) 1 = Some n"
    by (rule checked_add_fits)
  have "unat (lg_admitted_child_count L) + unat (1 :: u32) < 2 ^ LENGTH(32)"
    using slots(2) unat_less_size [of "lg_maximum_child_count L"] by (simp add: word_less_nat_alt)
  then obtain m where m: "checked_add (lg_admitted_child_count L) 1 = Some m"
    by (rule checked_add_fits)
  have "unat (lg_ledger_revision L) + unat (1 :: u64) < 2 ^ LENGTH(64)"
    using ledger_counts_small(2) [OF ok] by simp
  then obtain v where v: "checked_add (lg_ledger_revision L) 1 = Some v"
    by (rule checked_add_fits)
  have slots': "\<not> lg_maximum_concurrency L \<le> lg_active_concurrency L"
    "\<not> lg_maximum_child_count L \<le> lg_admitted_child_count L"
    using slots by simp_all
  show ?thesis
    unfolding reserve_staged_def exact_reservation_replay_def
    using request_digest_validates [OF digest] digest fresh current alloc spent contained g n m v slots'
    by (simp add: is_ok_def Let_def)
qed

text \<open>
  C24: capacity is decided exactly. For a well-formed request under unused identities, at the
  current fence and revision, the reservation is granted just when, in every dimension, what was
  used, what is held and what is asked for fit the limit together, and a concurrency slot and a
  child slot are free; no other arithmetic condition refuses it while generations last.
\<close>

theorem reservation_capacity_exact:
  assumes "ledger_ok C L" "request_digest C q = Inr digest"
    and "bt_get (lg_reserve_idempotency L) (rq_idempotency_key q) = None"
    and "bt_get (lg_reservations L) (rq_reservation_id q) = None"
    and "bt_get (lg_child_reservations L) (rq_child_execution_id q) = None"
    and "rq_session_fence q = lg_session_fence L" "rq_session_id q = lg_session_id L"
    and "rq_session_capsule_digest q = lg_session_capsule_digest L"
    and "rq_expected_ledger_revision q = lg_ledger_revision L"
    and "unat (lg_next_generation L) + 1 < 2 ^ 64"
  shows "is_ok (reserve_staged C L q) \<longleftrightarrow>
     (\<forall>d. bt_sum (used d) (lg_reservations L) + bt_sum (held d) (lg_reservations L)
        + rr_at (rq_resources q) d \<le> rr_at (lg_limits L) d) \<and>
     bt_sum open_count (lg_reservations L) < unat (lg_maximum_concurrency L) \<and>
     bt_len (lg_reservations L) < unat (lg_maximum_child_count L)" (is "?granted \<longleftrightarrow> ?fits")
proof -
  have sums: "\<And>d. rr_at (lg_allocated L) d = bt_sum (held d) (lg_reservations L)"
    "\<And>d. cu_at (lg_cumulative_usage L) d = bt_sum (used d) (lg_reservations L)"
    "unat (lg_active_concurrency L) = bt_sum open_count (lg_reservations L)"
    "unat (lg_admitted_child_count L) = bt_len (lg_reservations L)"
    using assms(1) by (simp_all add: ledger_ok_def)
  show ?thesis
  proof
    assume ?granted
    then obtain res L' where "reserve_staged C L q = Inr (res, L')"
      by (auto simp: is_ok_def split: sum.splits)
    then show ?fits
    proof (cases rule: reserve_stagedE)
      case (replay rid r)
      with assms(3) show ?thesis by simp
    next
      case (fresh digest)
      have "cu_at (lg_cumulative_usage L) d + rr_at (lg_allocated L') d \<le> rr_at (lg_limits L) d" for d
        using fresh(10) unfolding within_limits_def by blast
      then have "\<forall>d. cu_at (lg_cumulative_usage L) d + rr_at (lg_allocated L) d
          + rr_at (rq_resources q) d \<le> rr_at (lg_limits L) d"
        using fresh(9) by (simp add: add.assoc)
      then show ?thesis
        using fresh(11,13) unfolding sums word_less_nat_alt by simp
    qed
  next
    assume ?fits
    then show ?granted
      using assms by (intro reserve_succeeds) (simp_all add: sums word_less_nat_alt)
  qed
qed

end
