(* ===== verification/Workspace.thy ===== *)
theory Workspace
  imports Reservation_Safety
begin

text \<open>
  \<^verbatim>\<open>crates/execution/src/workspace.rs\<close>: the generation-fenced publication ledger and its one public
  operation, which publishes a workspace generation and finalizes the child reservation together.
\<close>

definition WORKSPACE_PUBLICATION_SCHEMA_VERSION :: u32 where
  "WORKSPACE_PUBLICATION_SCHEMA_VERSION = 1"

record WorkspaceGeneration =
  wg_generation :: u64
  wg_state_digest :: ContentDigest

record WorkspacePublicationRequest =
  wq_schema_version :: u32
  wq_session_id :: string
  wq_session_capsule_digest :: ContentDigest
  wq_reservation_id :: string
  wq_child_execution_id :: string
  wq_input_generation :: u64
  wq_input_workspace_digest :: ContentDigest
  wq_output_workspace_digest :: ContentDigest
  wq_output_manifest_digest :: ContentDigest
  wq_idempotency_key :: string
  wq_session_fence :: u64
  wq_expected_publication_revision :: u64
  wq_expected_reservation_revision :: u64
  wq_committed_unix_ms :: u64

record WorkspacePublicationRecord =
  wr_request :: WorkspacePublicationRequest
  wr_request_digest :: ContentDigest
  wr_reservation_id :: string
  wr_child_execution_id :: string
  wr_previous :: WorkspaceGeneration
  wr_current :: WorkspaceGeneration
  wr_output_manifest_digest :: ContentDigest
  wr_committed_unix_ms :: u64

record WorkspacePublicationResult =
  wp_record :: WorkspacePublicationRecord
  wp_replayed :: bool

record FinalizeAndPublishResult =
  fp_reservation :: ChildReservationRecord
  fp_publication :: WorkspacePublicationRecord
  fp_replayed :: bool

record canon_workspace = canon_ledger +
  ser_publication :: "WorkspacePublicationRequest \<Rightarrow> (string, json) result"
  ser_publication_record :: "WorkspacePublicationRecord \<Rightarrow> (string, json) result"

definition publication_validate :: "WorkspacePublicationRequest \<Rightarrow> unit outcome" where
  "publication_validate q =
     seq_checks
       [v_schema ''workspace publication schema version'' (wq_schema_version q)
          WORKSPACE_PUBLICATION_SCHEMA_VERSION,
        v_identifier ''Session identity'' (wq_session_id q),
        v_identifier ''reservation identity'' (wq_reservation_id q),
        v_identifier ''child Execution identity'' (wq_child_execution_id q),
        v_identifier ''publication idempotency key'' (wq_idempotency_key q),
        fail_if (wq_session_fence q = 0 \<or> wq_committed_unix_ms q = 0)
          (InvalidField ''publication fence or commit time'' ''must be greater than zero'')]"

definition publication_canonical_bytes ::
    "('z) canon_workspace_scheme \<Rightarrow> WorkspacePublicationRequest \<Rightarrow> u8 list outcome" where
  "publication_canonical_bytes C q =
     res_bind (publication_validate q) (\<lambda>_. canonical_bytes C (ser_publication C) q)"

definition publication_digest ::
    "('z) canon_workspace_scheme \<Rightarrow> WorkspacePublicationRequest \<Rightarrow> ContentDigest outcome" where
  "publication_digest C q =
     res_bind (publication_validate q) (\<lambda>_. canonical_digest C (ser_publication C) q)"

definition publication_record_canonical_bytes ::
    "('z) canon_workspace_scheme \<Rightarrow> WorkspacePublicationRecord \<Rightarrow> u8 list outcome" where
  "publication_record_canonical_bytes C r = canonical_bytes C (ser_publication_record C) r"

subsection \<open>The publication ledger\<close>

record WorkspacePublicationLedger =
  wl_session_id :: string
  wl_session_capsule_digest :: ContentDigest
  wl_session_fence :: u64
  wl_ledger_revision :: u64
  wl_initial_workspace_digest :: ContentDigest
  wl_current :: WorkspaceGeneration
  wl_publications :: "(u64, WorkspacePublicationRecord) btree"
  wl_idempotency :: "(string, u64 \<times> ContentDigest) btree"
  wl_published_by_child :: "(string, u64) btree"

definition workspace_new ::
    "string \<Rightarrow> ContentDigest \<Rightarrow> u64 \<Rightarrow> ContentDigest \<Rightarrow> WorkspacePublicationLedger outcome" where
  "workspace_new session_id sdigest session_fence initial_workspace_digest =
     res_bind
       (seq_checks
         [v_identifier ''Session identity'' session_id,
          fail_if (session_fence = 0) StaleSessionFence]) (\<lambda>_.
       Inr \<lparr>wl_session_id = session_id, wl_session_capsule_digest = sdigest,
            wl_session_fence = session_fence, wl_ledger_revision = 0,
            wl_initial_workspace_digest = initial_workspace_digest,
            wl_current = \<lparr>wg_generation = 0, wg_state_digest = initial_workspace_digest\<rparr>,
            wl_publications = bt_empty, wl_idempotency = bt_empty, wl_published_by_child = bt_empty\<rparr>)"

definition chain_step ::
    "('z) canon_workspace_scheme \<Rightarrow> WorkspacePublicationLedger \<Rightarrow> WorkspaceGeneration \<Rightarrow> u64
     \<Rightarrow> WorkspacePublicationRecord \<Rightarrow> WorkspaceGeneration outcome" where
  "chain_step C W expected generation r =
     res_bind (publication_validate (wr_request r)) (\<lambda>_.
     res_bind (ok_or (checked_add (wg_generation expected) 1) AccountingFailure) (\<lambda>next_generation.
     res_bind
       (fail_when
         (any_of
           [Inr (generation \<noteq> next_generation),
            res_bind (publication_digest C (wr_request r)) (\<lambda>d. Inr (wr_request_digest r \<noteq> d)),
            Inr (wq_session_id (wr_request r) \<noteq> wl_session_id W),
            Inr (wq_session_capsule_digest (wr_request r) \<noteq> wl_session_capsule_digest W),
            Inr (wq_session_fence (wr_request r) \<noteq> wl_session_fence W),
            Inr (wq_reservation_id (wr_request r) \<noteq> wr_reservation_id r),
            Inr (wq_child_execution_id (wr_request r) \<noteq> wr_child_execution_id r),
            Inr (wq_input_generation (wr_request r) \<noteq> wg_generation expected),
            Inr (wq_input_workspace_digest (wr_request r) \<noteq> wg_state_digest expected),
            Inr (wq_output_workspace_digest (wr_request r) \<noteq> wg_state_digest (wr_current r)),
            Inr (wq_output_manifest_digest (wr_request r) \<noteq> wr_output_manifest_digest r),
            Inr (wq_committed_unix_ms (wr_request r) \<noteq> wr_committed_unix_ms r),
            Inr (wr_previous r \<noteq> expected),
            Inr (wg_generation (wr_current r) \<noteq> generation),
            Inr (bt_get (wl_idempotency W) (wq_idempotency_key (wr_request r))
                   \<noteq> Some (generation, wr_request_digest r)),
            Inr (bt_get (wl_published_by_child W) (wr_child_execution_id r) \<noteq> Some generation)])
         AccountingFailure) (\<lambda>_. Inr (wr_current r))))"

fun chain ::
    "('z) canon_workspace_scheme \<Rightarrow> WorkspacePublicationLedger \<Rightarrow> WorkspaceGeneration
     \<Rightarrow> (u64 \<times> WorkspacePublicationRecord) list \<Rightarrow> WorkspaceGeneration outcome" where
  "chain C W expected [] = Inr expected"
| "chain C W expected ((generation, r) # rest) =
     res_bind (chain_step C W expected generation r) (\<lambda>current. chain C W current rest)"

definition workspace_validate ::
    "('z) canon_workspace_scheme \<Rightarrow> WorkspacePublicationLedger \<Rightarrow> unit outcome" where
  "workspace_validate C W =
     res_bind
       (seq_checks
         [v_identifier ''Session identity'' (wl_session_id W),
          fail_when
            (any_of
              [Inr (wl_session_fence W = 0),
               res_bind (ok_or (try_from_size (bt_len (wl_publications W))) AccountingFailure)
                 (\<lambda>count. Inr (wl_ledger_revision W \<noteq> count)),
               Inr (bt_len (wl_idempotency W) \<noteq> bt_len (wl_publications W)),
               Inr (bt_len (wl_published_by_child W) \<noteq> bt_len (wl_publications W))])
            AccountingFailure]) (\<lambda>_.
     res_bind
       (chain C W \<lparr>wg_generation = 0, wg_state_digest = wl_initial_workspace_digest W\<rparr>
         (bt_entries (wl_publications W))) (\<lambda>expected.
       fail_if (wl_current W \<noteq> expected) AccountingFailure))"

definition publish_staged ::
    "('z) canon_workspace_scheme \<Rightarrow> WorkspacePublicationLedger \<Rightarrow> WorkspacePublicationRequest
     \<Rightarrow> SessionReservationLedger \<Rightarrow> (WorkspacePublicationResult \<times> WorkspacePublicationLedger) outcome" where
  "publish_staged C W request reservations =
     res_bind (publication_validate request) (\<lambda>_.
     res_bind (publication_digest C request) (\<lambda>digest.
     (case bt_get (wl_idempotency W) (wq_idempotency_key request) of
        Some (generation, prior_digest) \<Rightarrow>
          if prior_digest \<noteq> digest then Inl IdempotencyConflict
          else res_bind (ok_or (bt_get (wl_publications W) generation) AccountingFailure) (\<lambda>r.
            Inr (\<lparr>wp_record = r, wp_replayed = True\<rparr>, W))
      | None \<Rightarrow>
     res_bind
       (seq_checks
         [fail_if (wq_session_fence request \<noteq> wl_session_fence W) StaleSessionFence,
          fail_if
            (wq_expected_publication_revision request \<noteq> wl_ledger_revision W \<or>
             wq_expected_reservation_revision request \<noteq> lg_ledger_revision reservations)
            StaleLedgerRevision,
          fail_if
            (wq_session_id request \<noteq> wl_session_id W \<or>
             wq_session_capsule_digest request \<noteq> wl_session_capsule_digest W)
            ReservationIdentityConflict]) (\<lambda>_.
     res_bind
       (ok_or (reservation reservations (wq_reservation_id request)) WorkspaceReservationInactive) (\<lambda>r.
     res_bind
       (seq_checks
         [fail_if
            (rec_state r \<noteq> Reserved \<or>
             rq_reservation_id (rec_request r) \<noteq> wq_reservation_id request \<or>
             rq_child_execution_id (rec_request r) \<noteq> wq_child_execution_id request \<or>
             rq_session_id (rec_request r) \<noteq> wq_session_id request \<or>
             rq_session_capsule_digest (rec_request r) \<noteq> wq_session_capsule_digest request)
            WorkspaceReservationInactive,
          fail_if
            (bt_contains_key (wl_published_by_child W) (wq_child_execution_id request) \<or>
             wq_input_generation request \<noteq> wg_generation (wl_current W) \<or>
             wq_input_workspace_digest request \<noteq> wg_state_digest (wl_current W))
            WorkspaceGenerationConflict]) (\<lambda>_.
     res_bind (ok_or (checked_add (wg_generation (wl_current W)) 1) AccountingFailure) (\<lambda>generation.
     res_bind (ok_or (checked_add (wl_ledger_revision W) 1) AccountingFailure) (\<lambda>next_revision.
       let current = \<lparr>wg_generation = generation,
                      wg_state_digest = wq_output_workspace_digest request\<rparr>;
           p = \<lparr>wr_request = request, wr_request_digest = digest,
                wr_reservation_id = wq_reservation_id request,
                wr_child_execution_id = wq_child_execution_id request,
                wr_previous = wl_current W, wr_current = current,
                wr_output_manifest_digest = wq_output_manifest_digest request,
                wr_committed_unix_ms = wq_committed_unix_ms request\<rparr> in
       Inr (\<lparr>wp_record = p, wp_replayed = False\<rparr>,
            W\<lparr>wl_current := current,
              wl_idempotency :=
                bt_insert (wq_idempotency_key request) (generation, digest) (wl_idempotency W),
              wl_published_by_child :=
                bt_insert (wq_child_execution_id request) generation (wl_published_by_child W),
              wl_publications := bt_insert generation p (wl_publications W),
              wl_ledger_revision := next_revision\<rparr>)))))))))"

text \<open>The pair of ledgers that \<^verbatim>\<open>finalize_and_publish\<close> validates, stages and replaces together.\<close>

definition pair_validate ::
    "('z) canon_workspace_scheme \<Rightarrow> WorkspacePublicationLedger \<times> SessionReservationLedger
     \<Rightarrow> unit outcome" where
  "pair_validate C p = seq_checks [workspace_validate C (fst p), ledger_validate C (snd p)]"

definition finalize_staged ::
    "('z) canon_workspace_scheme \<Rightarrow> ReservationTransitionRequest \<Rightarrow> WorkspacePublicationRequest
     \<Rightarrow> WorkspacePublicationLedger \<times> SessionReservationLedger
     \<Rightarrow> (FinalizeAndPublishResult \<times> WorkspacePublicationLedger \<times> SessionReservationLedger) outcome" where
  "finalize_staged C completion publication p =
     res_bind (publish_staged C (fst p) publication (snd p)) (\<lambda>(published, staged_publications).
     res_bind (transition_staged C (snd p) completion) (\<lambda>(finalized, staged_reservations).
     res_bind (fail_if (wp_replayed published \<noteq> rs_replayed finalized) AccountingFailure) (\<lambda>_.
       Inr (\<lparr>fp_reservation = rs_record finalized, fp_publication = wp_record published,
             fp_replayed = wp_replayed published\<rparr>, staged_publications, staged_reservations))))"

definition finalize_and_publish ::
    "('z) canon_workspace_scheme \<Rightarrow> WorkspacePublicationLedger \<Rightarrow> SessionReservationLedger
     \<Rightarrow> ReservationTransitionRequest \<Rightarrow> WorkspacePublicationRequest
     \<Rightarrow> FinalizeAndPublishResult outcome \<times> WorkspacePublicationLedger \<times> SessionReservationLedger" where
  "finalize_and_publish C W reservations completion publication =
     (if (case tr_outcome completion of Outcome_Finalized _ \<Rightarrow> False | Outcome_Released _ \<Rightarrow> True) \<or>
         tr_reservation_id completion \<noteq> wq_reservation_id publication \<or>
         tr_child_execution_id completion \<noteq> wq_child_execution_id publication \<or>
         tr_session_fence completion \<noteq> wq_session_fence publication
      then (Inl InvalidReservationTransition, W, reservations)
      else staged_commit (pair_validate C) (finalize_staged C completion publication) (W, reservations))"

end
