(* ===== verification/Workspace_Safety.thy ===== *)
theory Workspace_Safety
  imports Workspace
begin

text \<open>
  The publication ledger as a chain of generations, and the pair of ledgers of one Session: a
  child's workspace is published just when its reservation is finalized.
\<close>

subsection \<open>The chain\<close>

definition publication_ok ::
    "('z) canon_workspace_scheme \<Rightarrow> WorkspacePublicationLedger \<Rightarrow> u64 \<Rightarrow> WorkspacePublicationRecord \<Rightarrow> bool" where
  "publication_ok C W g r \<longleftrightarrow>
     publication_digest C (wr_request r) = Inr (wr_request_digest r) \<and>
     wq_session_id (wr_request r) = wl_session_id W \<and>
     wq_session_capsule_digest (wr_request r) = wl_session_capsule_digest W \<and>
     wq_session_fence (wr_request r) = wl_session_fence W \<and>
     wq_reservation_id (wr_request r) = wr_reservation_id r \<and>
     wq_child_execution_id (wr_request r) = wr_child_execution_id r \<and>
     wq_input_generation (wr_request r) = wg_generation (wr_previous r) \<and>
     wq_input_workspace_digest (wr_request r) = wg_state_digest (wr_previous r) \<and>
     wq_output_workspace_digest (wr_request r) = wg_state_digest (wr_current r) \<and>
     wq_output_manifest_digest (wr_request r) = wr_output_manifest_digest r \<and>
     wq_committed_unix_ms (wr_request r) = wr_committed_unix_ms r \<and>
     wg_generation (wr_current r) = g \<and>
     bt_get (wl_idempotency W) (wq_idempotency_key (wr_request r)) = Some (g, wr_request_digest r) \<and>
     bt_get (wl_published_by_child W) (wr_child_execution_id r) = Some g"

fun linked :: "WorkspaceGeneration \<Rightarrow> (u64 \<times> WorkspacePublicationRecord) list \<Rightarrow> WorkspaceGeneration \<Rightarrow> bool" where
  "linked e [] e' \<longleftrightarrow> e = e'"
| "linked e (x # xs) e' \<longleftrightarrow>
     unat (fst x) = unat (wg_generation e) + 1 \<and> wr_previous (snd x) = e \<and>
     wg_generation (wr_current (snd x)) = fst x \<and> linked (wr_current (snd x)) xs e'"

abbreviation initial_generation :: "WorkspacePublicationLedger \<Rightarrow> WorkspaceGeneration" where
  "initial_generation W \<equiv> \<lparr>wg_generation = 0, wg_state_digest = wl_initial_workspace_digest W\<rparr>"

definition workspace_ok :: "('z) canon_workspace_scheme \<Rightarrow> WorkspacePublicationLedger \<Rightarrow> bool" where
  "workspace_ok C W \<longleftrightarrow>
     v_identifier ''Session identity'' (wl_session_id W) = Inr () \<and> wl_session_fence W \<noteq> 0 \<and>
     unat (wl_ledger_revision W) = bt_len (wl_publications W) \<and>
     bt_len (wl_idempotency W) = bt_len (wl_publications W) \<and>
     bt_len (wl_published_by_child W) = bt_len (wl_publications W) \<and>
     (\<forall>g r. bt_get (wl_publications W) g = Some r \<longrightarrow> publication_ok C W g r) \<and>
     linked (initial_generation W) (bt_entries (wl_publications W)) (wl_current W)"

lemma publication_digest_validates: "publication_digest C q = Inr d \<Longrightarrow> publication_validate q = Inr ()"
  by (auto simp: publication_digest_def res_simps)

lemma chain_step_iff:
  "chain_step C W e g r = Inr e' \<longleftrightarrow>
     publication_ok C W g r \<and> unat g = unat (wg_generation e) + 1 \<and> wr_previous r = e \<and>
     e' = wr_current r"
  by (auto simp: chain_step_def publication_ok_def res_simps num_simps word_unat_eq_iff
      dest: publication_digest_validates)

lemma chain_iff:
  "chain C W e xs = Inr e' \<longleftrightarrow>
     (\<forall>x \<in> set xs. publication_ok C W (fst x) (snd x)) \<and> linked e xs e'"
proof (induction xs arbitrary: e)
  case (Cons x xs)
  obtain g r where "x = (g, r)" by force
  then show ?case
    using Cons.IH by (auto simp: res_simps chain_step_iff publication_ok_def)
qed auto

lemma workspace_validate_iff: "workspace_validate C W = Inr () \<longleftrightarrow> workspace_ok C W"
proof -
  have "(\<forall>x \<in> set (bt_entries (wl_publications W)). publication_ok C W (fst x) (snd x)) \<longleftrightarrow>
      (\<forall>g r. bt_get (wl_publications W) g = Some r \<longrightarrow> publication_ok C W g r)"
    by (auto simp: bt_get_entries)
  moreover have "(\<exists>e. chain C W (initial_generation W) (bt_entries (wl_publications W)) = Inr e \<and>
      wl_current W = e) \<longleftrightarrow>
    (\<forall>x \<in> set (bt_entries (wl_publications W)). publication_ok C W (fst x) (snd x)) \<and>
    linked (initial_generation W) (bt_entries (wl_publications W)) (wl_current W)"
    by (simp add: chain_iff)
  ultimately show ?thesis
    by (auto simp: workspace_validate_def workspace_ok_def res_simps num_simps chain_iff)
qed

lemma linked_append: "linked e (xs @ ys) e' \<longleftrightarrow> (\<exists>m. linked e xs m \<and> linked m ys e')"
  by (induction xs arbitrary: e) auto

lemma linked_bounds:
  "linked e xs e' \<Longrightarrow>
     unat (wg_generation e') = unat (wg_generation e) + length xs \<and>
     (\<forall>x \<in> set xs. unat (wg_generation e) < unat (fst x) \<and> unat (fst x) \<le> unat (wg_generation e'))"
proof (induction xs arbitrary: e)
  case (Cons x xs)
  then have "unat (wg_generation e') = unat (fst x) + length xs"
    "\<forall>y \<in> set xs. unat (fst x) < unat (fst y) \<and> unat (fst y) \<le> unat (wg_generation e')"
    by fastforce+
  with Cons.prems show ?case by fastforce
qed simp

lemma linked_nth:
  "linked e xs e' \<Longrightarrow> k < length xs \<Longrightarrow>
     unat (fst (xs ! k)) = unat (wg_generation e) + k + 1 \<and>
     wr_previous (snd (xs ! k)) = (if k = 0 then e else wr_current (snd (xs ! (k - 1))))"
proof (induction xs arbitrary: e k)
  case (Cons x xs)
  then show ?case
    by (cases k; cases "k - 1") (auto simp: nth_Cons')
qed simp

text \<open>Appending the generation above every other one.\<close>

lemma al_insert_above:
  "\<forall>x \<in> set xs. fst x < k \<Longrightarrow> al_insert k v xs = xs @ [(k, v)]"
  by (induction k v xs rule: al_insert.induct) auto

subsection \<open>Publishing keeps the chain\<close>

definition next_publication ::
    "WorkspacePublicationLedger \<Rightarrow> WorkspacePublicationRequest \<Rightarrow> ContentDigest \<Rightarrow> u64
     \<Rightarrow> WorkspacePublicationRecord" where
  "next_publication W q digest g =
     \<lparr>wr_request = q, wr_request_digest = digest, wr_reservation_id = wq_reservation_id q,
      wr_child_execution_id = wq_child_execution_id q, wr_previous = wl_current W,
      wr_current = \<lparr>wg_generation = g, wg_state_digest = wq_output_workspace_digest q\<rparr>,
      wr_output_manifest_digest = wq_output_manifest_digest q,
      wr_committed_unix_ms = wq_committed_unix_ms q\<rparr>"

lemma publish_stagedE:
  assumes "publish_staged C W q L = Inr (res, W')"
  obtains (replay) g digest p where
      "bt_get (wl_idempotency W) (wq_idempotency_key q) = Some (g, digest)"
      "publication_digest C q = Inr digest" "bt_get (wl_publications W) g = Some p"
      "res = \<lparr>wp_record = p, wp_replayed = True\<rparr>" "W' = W"
    | (fresh) digest g r where
      "bt_get (wl_idempotency W) (wq_idempotency_key q) = None"
      "publication_digest C q = Inr digest"
      "wq_session_fence q = wl_session_fence W" "wq_session_id q = wl_session_id W"
      "wq_session_capsule_digest q = wl_session_capsule_digest W"
      "wq_expected_publication_revision q = wl_ledger_revision W"
      "wq_expected_reservation_revision q = lg_ledger_revision L"
      "bt_get (lg_reservations L) (wq_reservation_id q) = Some r" "rec_state r = Reserved"
      "rq_child_execution_id (rec_request r) = wq_child_execution_id q"
      "bt_get (wl_published_by_child W) (wq_child_execution_id q) = None"
      "wq_input_generation q = wg_generation (wl_current W)"
      "wq_input_workspace_digest q = wg_state_digest (wl_current W)"
      "unat g = unat (wg_generation (wl_current W)) + 1"
      "unat (wl_ledger_revision W') = unat (wl_ledger_revision W) + 1"
      "res = \<lparr>wp_record = next_publication W q digest g, wp_replayed = False\<rparr>"
      "W' = W\<lparr>wl_current := wr_current (next_publication W q digest g),
         wl_idempotency := bt_insert (wq_idempotency_key q) (g, digest) (wl_idempotency W),
         wl_published_by_child := bt_insert (wq_child_execution_id q) g (wl_published_by_child W),
         wl_publications := bt_insert g (next_publication W q digest g) (wl_publications W),
         wl_ledger_revision := wl_ledger_revision W'\<rparr>"
proof (cases "bt_get (wl_idempotency W) (wq_idempotency_key q)")
  case (Some entry)
  moreover obtain g digest where "entry = (g, digest)" by force
  ultimately show thesis
    using assms
    by (intro replay [of g digest "wp_record res"])
      (auto simp: publish_staged_def res_simps split: if_splits)
next
  case None
  with assms show thesis
    by (auto simp: publish_staged_def res_simps Let_def next_publication_def reservation_def
        num_simps intro!: fresh)
qed

lemma publication_ok_mono:
  assumes "publication_ok C W g r"
    and "wl_session_id W' = wl_session_id W"
    and "wl_session_capsule_digest W' = wl_session_capsule_digest W"
    and "wl_session_fence W' = wl_session_fence W"
    and "\<And>k v. bt_get (wl_idempotency W) k = Some v \<Longrightarrow> bt_get (wl_idempotency W') k = Some v"
    and "\<And>k v. bt_get (wl_published_by_child W) k = Some v \<Longrightarrow>
           bt_get (wl_published_by_child W') k = Some v"
  shows "publication_ok C W' g r"
  using assms by (auto simp: publication_ok_def)

lemma publish_keeps_ok:
  assumes ok: "workspace_ok C W" and step: "publish_staged C W q L = Inr (res, W')"
  shows "workspace_ok C W'"
  using step
proof (cases rule: publish_stagedE)
  case (replay g digest p)
  with ok show ?thesis by simp
next
  case (fresh digest g r)
  let ?p = "next_publication W q digest g"
  have W': "wl_session_id W' = wl_session_id W"
    "wl_session_capsule_digest W' = wl_session_capsule_digest W"
    "wl_session_fence W' = wl_session_fence W"
    "wl_initial_workspace_digest W' = wl_initial_workspace_digest W"
    "wl_current W' = wr_current ?p"
    "wl_idempotency W' = bt_insert (wq_idempotency_key q) (g, digest) (wl_idempotency W)"
    "wl_published_by_child W' = bt_insert (wq_child_execution_id q) g (wl_published_by_child W)"
    "wl_publications W' = bt_insert g ?p (wl_publications W)"
    by (subst fresh(17), simp)+
  have linked: "linked (initial_generation W) (bt_entries (wl_publications W)) (wl_current W)"
    and each: "\<And>g r. bt_get (wl_publications W) g = Some r \<Longrightarrow> publication_ok C W g r"
    and sizes: "unat (wl_ledger_revision W) = bt_len (wl_publications W)"
      "bt_len (wl_idempotency W) = bt_len (wl_publications W)"
      "bt_len (wl_published_by_child W) = bt_len (wl_publications W)"
    using ok by (simp_all add: workspace_ok_def)
  have above: "\<forall>x \<in> set (bt_entries (wl_publications W)). fst x < g"
    using linked_bounds [OF linked] fresh(14) by (auto simp: word_less_nat_alt)
  then have entries: "bt_entries (wl_publications W') = bt_entries (wl_publications W) @ [(g, ?p)]"
    by (simp add: W' al_insert_above)
  have new: "bt_get (wl_publications W) g = None"
  proof (cases "bt_get (wl_publications W) g")
    case (Some r)
    then have "(g, r) \<in> set (bt_entries (wl_publications W))"
      by (simp add: bt_get_entries)
    with above show ?thesis by auto
  qed
  have "publication_ok C W' h r" if "bt_get (wl_publications W') h = Some r" for h r
  proof (cases "h = g")
    case True
    with that fresh(2-5,12,13) show ?thesis
      by (simp add: W' publication_ok_def) (auto simp: next_publication_def)
  next
    case False
    with that have "publication_ok C W h r"
      by (intro each) (simp add: W')
    then show ?thesis
      by (rule publication_ok_mono) (use fresh(1,11) in \<open>auto simp: W'\<close>)
  qed
  moreover have "linked (initial_generation W') (bt_entries (wl_publications W')) (wl_current W')"
    unfolding entries linked_append W'(4,5)
    by (rule exI [of _ "wl_current W"])
      (use linked fresh(14) in \<open>simp add: next_publication_def\<close>)
  moreover have "bt_len (wl_publications W') = bt_len (wl_publications W) + 1"
    "bt_len (wl_idempotency W') = bt_len (wl_idempotency W) + 1"
    "bt_len (wl_published_by_child W') = bt_len (wl_published_by_child W) + 1"
    using new fresh(1,11) by (simp_all add: W' bt_len_insert)
  ultimately show ?thesis
    using ok sizes fresh(15) unfolding workspace_ok_def W'(1-3) by simp
qed

lemma finalize_keeps_valid:
  assumes "pair_validate C p = Inr ()" "finalize_staged C t q p = Inr (res, p')"
  shows "pair_validate C p' = Inr ()"
proof -
  obtain pub W' fin L' where "publish_staged C (fst p) q (snd p) = Inr (pub, W')"
    "transition_staged C (snd p) t = Inr (fin, L')" "p' = (W', L')"
    using assms(2) by (auto simp: finalize_staged_def res_simps split: prod.splits)
  then show ?thesis
    using assms(1)
    by (auto simp: pair_validate_def res_simps workspace_validate_iff ledger_validate_iff
        intro: publish_keeps_ok transition_keeps_ok)
qed

interpretation finalize_commit:
  staged_ledger "pair_validate C" "finalize_staged C t q" for C t q
  by unfold_locales (rule finalize_keeps_valid)

subsection \<open>The two ledgers of a Session\<close>

lemma finalize_failure: "finalize_and_publish C W L t q = (Inl e, p') \<Longrightarrow> p' = (W, L)"
  using finalize_commit.commit_atomic [of C t q "(W, L)" e]
  by (auto simp: finalize_and_publish_def split: if_splits)

lemma finalize_success:
  assumes "finalize_and_publish C W L t q = (Inr res, W', L')"
  obtains pub fin digest where
    "workspace_ok C W" "ledger_ok C L" "workspace_ok C W'" "ledger_ok C L'"
    "tr_outcome t = Outcome_Finalized digest"
    "tr_reservation_id t = wq_reservation_id q" "tr_child_execution_id t = wq_child_execution_id q"
    "publish_staged C W q L = Inr (pub, W')" "transition_staged C L t = Inr (fin, L')"
    "wp_replayed pub = rs_replayed fin"
    "res = \<lparr>fp_reservation = rs_record fin, fp_publication = wp_record pub, fp_replayed = wp_replayed pub\<rparr>"
proof -
  have guard: "\<not> ((case tr_outcome t of Outcome_Finalized _ \<Rightarrow> False | Outcome_Released _ \<Rightarrow> True) \<or>
         tr_reservation_id t \<noteq> wq_reservation_id q \<or>
         tr_child_execution_id t \<noteq> wq_child_execution_id q \<or>
         tr_session_fence t \<noteq> wq_session_fence q)"
    and commit: "staged_commit (pair_validate C) (finalize_staged C t q) (W, L) = (Inr res, W', L')"
    using assms by (auto simp: finalize_and_publish_def split: if_splits)
  note success = finalize_commit.commit_success [OF commit]
  from success(2) obtain pub fin where "publish_staged C W q L = Inr (pub, W')"
    "transition_staged C L t = Inr (fin, L')" "wp_replayed pub = rs_replayed fin"
    "res = \<lparr>fp_reservation = rs_record fin, fp_publication = wp_record pub, fp_replayed = wp_replayed pub\<rparr>"
    by (auto simp: finalize_staged_def res_simps split: prod.splits)
  moreover have "workspace_ok C W" "ledger_ok C L" "workspace_ok C W'" "ledger_ok C L'"
    using success(1,3)
    by (simp_all add: pair_validate_def res_simps workspace_validate_iff ledger_validate_iff)
  moreover obtain digest where "tr_outcome t = Outcome_Finalized digest"
    using guard by (cases "tr_outcome t") auto
  ultimately show thesis
    using guard that by blast
qed

inductive session_step ::
    "('z) canon_workspace_scheme \<Rightarrow> WorkspacePublicationLedger \<times> SessionReservationLedger
     \<Rightarrow> WorkspacePublicationLedger \<times> SessionReservationLedger \<Rightarrow> bool"
  for C :: "('z) canon_workspace_scheme" where
  session_admit: "admit_child C L request a = (result, L') \<Longrightarrow> session_step C (W, L) (W, L')"
| session_release: "release C L t = (result, L') \<Longrightarrow> session_step C (W, L) (W, L')"
| session_finalize: "finalize_and_publish C W L t q = (result, p') \<Longrightarrow> session_step C (W, L) p'"

abbreviation session_reach ::
    "('z) canon_workspace_scheme \<Rightarrow> WorkspacePublicationLedger \<times> SessionReservationLedger
     \<Rightarrow> WorkspacePublicationLedger \<times> SessionReservationLedger \<Rightarrow> bool" where
  "session_reach C \<equiv> (session_step C)\<^sup>*\<^sup>*"

text \<open>Publications and finalized reservations describe the same children.\<close>

definition ledgers_agree :: "WorkspacePublicationLedger \<Rightarrow> SessionReservationLedger \<Rightarrow> bool" where
  "ledgers_agree W L \<longleftrightarrow>
     (\<forall>g p. bt_get (wl_publications W) g = Some p \<longrightarrow>
        (\<exists>r. bt_get (lg_reservations L) (wr_reservation_id p) = Some r \<and> rec_state r = Finalized \<and>
             rq_child_execution_id (rec_request r) = wr_child_execution_id p)) \<and>
     (\<forall>rid r. bt_get (lg_reservations L) rid = Some r \<and> rec_state r = Finalized \<longrightarrow>
        (\<exists>g p. bt_get (wl_publications W) g = Some p \<and> wr_reservation_id p = rid))"

lemma agree_published:
  assumes "ledgers_agree W L" "bt_get (wl_publications W) g = Some p"
  obtains r where "bt_get (lg_reservations L) (wr_reservation_id p) = Some r"
    "rec_state r = Finalized" "rq_child_execution_id (rec_request r) = wr_child_execution_id p"
  using assms unfolding ledgers_agree_def by blast

lemma agree_finalized:
  assumes "ledgers_agree W L" "bt_get (lg_reservations L) rid = Some r" "rec_state r = Finalized"
  obtains g p where "bt_get (wl_publications W) g = Some p" "wr_reservation_id p = rid"
  using assms unfolding ledgers_agree_def by blast

text \<open>An operation that finalizes nothing and keeps what is final keeps the agreement.\<close>

lemma agree_unchanged:
  assumes "ledgers_agree W L"
    and "\<And>rid r. rec_state r = Finalized \<Longrightarrow>
           bt_get (lg_reservations L') rid = Some r \<longleftrightarrow> bt_get (lg_reservations L) rid = Some r"
  shows "ledgers_agree W L'"
  unfolding ledgers_agree_def
proof (intro conjI allI impI)
  fix g p
  assume "bt_get (wl_publications W) g = Some p"
  with assms(1) obtain r where "bt_get (lg_reservations L) (wr_reservation_id p) = Some r"
    "rec_state r = Finalized" "rq_child_execution_id (rec_request r) = wr_child_execution_id p"
    by (rule agree_published)
  with assms(2) show "\<exists>r. bt_get (lg_reservations L') (wr_reservation_id p) = Some r \<and>
      rec_state r = Finalized \<and> rq_child_execution_id (rec_request r) = wr_child_execution_id p"
    by blast
next
  fix rid r
  assume "bt_get (lg_reservations L') rid = Some r \<and> rec_state r = Finalized"
  with assms(2) have "bt_get (lg_reservations L) rid = Some r" "rec_state r = Finalized"
    by blast+
  with assms(1) show "\<exists>g p. bt_get (wl_publications W) g = Some p \<and> wr_reservation_id p = rid"
    by (blast elim: agree_finalized)
qed

lemma reserve_agrees:
  assumes agree: "ledgers_agree W L" and step: "reserve_staged C L q = Inr (res, L')"
  shows "ledgers_agree W L'"
  using step
proof (cases rule: reserve_stagedE)
  case (replay rid r)
  with agree show ?thesis by simp
next
  case (fresh digest)
  have "lg_reservations L' =
      bt_insert (rq_reservation_id q) (fresh_record L q digest) (lg_reservations L)"
    by (subst fresh(18)) simp
  with agree fresh(7) show ?thesis
    by (intro agree_unchanged [OF agree]) (auto simp: fresh_record_def)
qed

lemma release_agrees:
  assumes agree: "ledgers_agree W L" and step: "transition_staged C L t = Inr (res, L')"
    and outcome: "tr_outcome t = Outcome_Released reason"
  shows "ledgers_agree W L'"
  using step
proof (cases rule: transition_stagedE)
  case (replay rid digest r)
  with agree show ?thesis by simp
next
  case (fresh digest r)
  have "lg_reservations L' =
      bt_insert (tr_reservation_id t) (ended_record r t digest) (lg_reservations L)"
    by (subst fresh(14)) simp
  with agree fresh(5,7) show ?thesis
    by (intro agree_unchanged [OF agree]) (auto simp: ended_record_def outcome outcome_state_def)
qed

lemma finalize_agrees:
  assumes agree: "ledgers_agree W L" and step: "finalize_and_publish C W L t q = (Inr res, W', L')"
  shows "ledgers_agree W' L'"
proof -
  from step obtain pub fin digest where outcome: "tr_outcome t = Outcome_Finalized digest"
    and ids: "tr_reservation_id t = wq_reservation_id q"
      "tr_child_execution_id t = wq_child_execution_id q"
    and publish: "publish_staged C W q L = Inr (pub, W')"
    and finalize: "transition_staged C L t = Inr (fin, L')"
    and same: "wp_replayed pub = rs_replayed fin"
    and linked: "linked (initial_generation W) (bt_entries (wl_publications W)) (wl_current W)"
    by (rule finalize_success) (simp add: workspace_ok_def)
  from finalize show ?thesis
  proof (cases rule: transition_stagedE)
    case (replay rid d r)
    with same have "wp_replayed pub" by simp
    with publish have "W' = W"
      by (cases rule: publish_stagedE) auto
    with replay agree show ?thesis by simp
  next
    case t: (fresh d r)
    from publish show ?thesis
    proof (cases rule: publish_stagedE)
      case (replay g d' p)
      with same t(13) show ?thesis by simp
    next
      case p: (fresh d' g r')
      let ?p = "next_publication W q d' g"
      let ?r = "ended_record r t d"
      have W': "wl_publications W' = bt_insert g ?p (wl_publications W)"
        by (subst p(17)) simp
      have L': "lg_reservations L' = bt_insert (tr_reservation_id t) ?r (lg_reservations L)"
        by (subst t(14)) simp
      have new: "rec_state ?r = Finalized" "rq_child_execution_id (rec_request ?r) = wr_child_execution_id ?p"
        "wr_reservation_id ?p = tr_reservation_id t"
        using outcome t(6) ids
        by (simp_all add: ended_record_def outcome_state_def next_publication_def)
      have unused: "bt_get (wl_publications W) g = None"
        using linked_bounds [OF linked] p(14)
        by (cases "bt_get (wl_publications W) g") (auto simp: bt_get_entries)
      show ?thesis
        unfolding ledgers_agree_def
      proof (intro conjI allI impI)
        fix h s
        assume s: "bt_get (wl_publications W') h = Some s"
        show "\<exists>u. bt_get (lg_reservations L') (wr_reservation_id s) = Some u \<and>
            rec_state u = Finalized \<and> rq_child_execution_id (rec_request u) = wr_child_execution_id s"
        proof (cases "h = g")
          case True
          with s new show ?thesis by (auto simp: W' L')
        next
          case False
          with s have "bt_get (wl_publications W) h = Some s" by (simp add: W')
          with agree obtain u where "bt_get (lg_reservations L) (wr_reservation_id s) = Some u"
            "rec_state u = Finalized" "rq_child_execution_id (rec_request u) = wr_child_execution_id s"
            by (rule agree_published)
          then show ?thesis
            using t(5,7) by (auto simp: L')
        qed
      next
        fix rid u
        assume u: "bt_get (lg_reservations L') rid = Some u \<and> rec_state u = Finalized"
        show "\<exists>h s. bt_get (wl_publications W') h = Some s \<and> wr_reservation_id s = rid"
        proof (cases "rid = tr_reservation_id t")
          case True
          with new(3) show ?thesis by (auto simp: W')
        next
          case False
          with u have "bt_get (lg_reservations L) rid = Some u" "rec_state u = Finalized"
            by (simp_all add: L')
          with agree obtain h s where "bt_get (wl_publications W) h = Some s" "wr_reservation_id s = rid"
            by (rule agree_finalized)
          then show ?thesis
            using unused by (auto simp: W' intro!: exI [of _ h])
        qed
      qed
    qed
  qed
qed

definition session_ok ::
    "('z) canon_workspace_scheme \<Rightarrow> WorkspacePublicationLedger \<times> SessionReservationLedger \<Rightarrow> bool" where
  "session_ok C p \<longleftrightarrow>
     workspace_ok C (fst p) \<and> ledger_ok C (snd p) \<and> ledgers_agree (fst p) (snd p)"

lemma admit_agrees:
  assumes "ledgers_agree W L" "admit_child C L request a = (result, L')"
  shows "ledgers_agree W L'"
proof (cases result)
  case (Inl e)
  with assms show ?thesis by (auto dest: admit_failure)
next
  case (Inr res)
  with assms(2) have "admit_child C L request a = (Inr res, L')" by simp
  then show ?thesis
    using assms(1) by (rule_tac admit_success) (auto intro: reserve_agrees)
qed

lemma session_step_ok: "session_step C p p' \<Longrightarrow> session_ok C p \<Longrightarrow> session_ok C p'"
proof (induction rule: session_step.induct)
  case (session_admit L request a result L' W)
  then show ?case
    by (auto simp: session_ok_def intro: admit_agrees ledger_step_ok step_admit)
next
  case (session_release L t result L' W)
  show ?case
  proof (cases result)
    case (Inl e)
    with session_release show ?thesis by (auto dest: release_failure)
  next
    case (Inr res)
    with session_release.hyps have "transition_staged C L t = Inr (res, L')"
      by (auto dest: release_success)
    moreover obtain reason where "tr_outcome t = Outcome_Released reason"
      using session_release.hyps Inr
      by (auto simp: release_def split: ReservationTerminalOutcome.splits)
    ultimately show ?thesis
      using session_release.prems by (auto simp: session_ok_def intro: release_agrees transition_keeps_ok)
  qed
next
  case (session_finalize W L t q result p')
  show ?case
  proof (cases result)
    case (Inl e)
    with session_finalize show ?thesis by (auto dest: finalize_failure)
  next
    case (Inr res)
    moreover obtain W' L' where "p' = (W', L')" by force
    ultimately have step: "finalize_and_publish C W L t q = (Inr res, W', L')"
      using session_finalize.hyps by simp
    then have "workspace_ok C W'" "ledger_ok C L'"
      by (auto elim: finalize_success)
    moreover have "ledgers_agree W' L'"
      using finalize_agrees [OF _ step] session_finalize.prems by (simp add: session_ok_def)
    ultimately show ?thesis
      using \<open>p' = (W', L')\<close> by (simp add: session_ok_def)
  qed
qed

lemma session_reach_ok: "session_reach C p p' \<Longrightarrow> session_ok C p \<Longrightarrow> session_ok C p'"
  by (induction rule: rtranclp_induct) (auto intro: session_step_ok)

lemma workspace_new_ok:
  assumes "workspace_new session_id sdigest fence initial = Inr W"
  shows "workspace_ok C W" "wl_publications W = bt_empty" "wl_initial_workspace_digest W = initial"
  using assms by (auto simp: workspace_new_def res_simps workspace_ok_def)

lemma session_new_ok:
  assumes "workspace_new session_id sdigest fence initial = Inr W" "ledger_new C sid s f = Inr L"
  shows "session_ok C (W, L)"
proof -
  have "lg_reservations L = bt_empty"
    using assms(2) by (auto simp: ledger_new_def res_simps)
  then show ?thesis
    using workspace_new_ok [OF assms(1)] ledger_new_ok(1) [OF assms(2)]
    by (simp add: session_ok_def ledgers_agree_def)
qed

subsection \<open>Properties\<close>

text \<open>
  C4: a workspace is published just when its child is finalized. Along every run of a Session from
  two new ledgers, a reservation is finalized if and only if some generation was published for it,
  and no reservation is published twice.
\<close>

theorem published_iff_finalized:
  assumes "workspace_new session_id sdigest fence initial = Inr W" "ledger_new C sid s f = Inr L"
    and "session_reach C (W, L) (W', L')"
  shows "(\<forall>rid r. bt_get (lg_reservations L') rid = Some r \<longrightarrow>
       (rec_state r = Finalized \<longleftrightarrow>
        (\<exists>g p. bt_get (wl_publications W') g = Some p \<and> wr_reservation_id p = rid))) \<and>
     (\<forall>g p h q. bt_get (wl_publications W') g = Some p \<and> bt_get (wl_publications W') h = Some q \<and>
        wr_reservation_id p = wr_reservation_id q \<longrightarrow> g = h)"
proof -
  have ok: "session_ok C (W', L')"
    using session_reach_ok [OF assms(3) session_new_ok [OF assms(1,2)]] .
  then have agree: "ledgers_agree W' L'"
    and index: "\<And>g p. bt_get (wl_publications W') g = Some p \<Longrightarrow>
      bt_get (wl_published_by_child W') (wr_child_execution_id p) = Some g"
    by (simp_all add: session_ok_def workspace_ok_def publication_ok_def)
  have "g = h" if "bt_get (wl_publications W') g = Some p" "bt_get (wl_publications W') h = Some q"
    "wr_reservation_id p = wr_reservation_id q" for g p h q
  proof -
    have "wr_child_execution_id p = wr_child_execution_id q"
      using agree_published [OF agree that(1)] agree_published [OF agree that(2)] that(3)
      by (metis option.inject)
    then show ?thesis
      using index [OF that(1)] index [OF that(2)] by simp
  qed
  moreover have "rec_state r = Finalized \<longleftrightarrow>
      (\<exists>g p. bt_get (wl_publications W') g = Some p \<and> wr_reservation_id p = rid)"
    if r: "bt_get (lg_reservations L') rid = Some r" for rid r
  proof
    assume "rec_state r = Finalized"
    with agree r show "\<exists>g p. bt_get (wl_publications W') g = Some p \<and> wr_reservation_id p = rid"
      by (blast elim: agree_finalized)
  next
    assume "\<exists>g p. bt_get (wl_publications W') g = Some p \<and> wr_reservation_id p = rid"
    then show "rec_state r = Finalized"
      using agree r by (metis agree_published option.inject)
  qed
  ultimately show ?thesis by blast
qed

lemma published_entry:
  assumes "linked (initial_generation W) (bt_entries (wl_publications W)) (wl_current W)"
    "j < length (bt_entries (wl_publications W))"
  shows "bt_get (wl_publications W) (of_nat (j + 1)) = Some (snd (bt_entries (wl_publications W) ! j))"
proof -
  let ?x = "bt_entries (wl_publications W) ! j"
  have "unat (fst ?x) = j + 1"
    using linked_nth [OF assms] by simp
  moreover have "of_nat (unat (fst ?x)) = fst ?x" by simp
  ultimately have "fst ?x = of_nat (j + 1)" by simp
  then show ?thesis
    using assms(2) by (metis bt_get_entries nth_mem prod.collapse)
qed

lemma linked_last:
  assumes "linked g xs h" "length xs = k + 1"
  shows "wr_current (snd (xs ! k)) = h"
proof -
  have "xs = take k xs @ [xs ! k]"
    using assms(2) by (metis add_diff_cancel_right' lessI less_add_one take_Suc_conv_app_nth
        Suc_eq_plus1 order_refl take_all)
  then have "\<exists>m. linked m [xs ! k] h"
    using assms(1) linked_append by metis
  then show ?thesis by auto
qed

text \<open>
  C7: the durable workspace history is one unbroken chain. In every ledger that validates, the
  published generations are exactly 1 up to the current one, the first was computed from the
  initial workspace, each later one from the output of the generation before it, and the last
  output is the current workspace.
\<close>

theorem workspace_history_unbroken:
  assumes "workspace_validate C W = Inr ()" "k < bt_len (wl_publications W)"
  shows "unat (wg_generation (wl_current W)) = bt_len (wl_publications W) \<and>
     (\<exists>r. bt_get (wl_publications W) (of_nat (k + 1)) = Some r \<and>
        unat (wq_input_generation (wr_request r)) = k \<and>
        (k = 0 \<longrightarrow> wq_input_workspace_digest (wr_request r) = wl_initial_workspace_digest W) \<and>
        (0 < k \<longrightarrow> (\<exists>p. bt_get (wl_publications W) (of_nat k) = Some p \<and>
           wq_input_workspace_digest (wr_request r) = wq_output_workspace_digest (wr_request p))) \<and>
        (k + 1 = bt_len (wl_publications W) \<longrightarrow>
           wq_output_workspace_digest (wr_request r) = wg_state_digest (wl_current W)))"
proof -
  let ?xs = "bt_entries (wl_publications W)"
  have ok: "workspace_ok C W"
    using assms(1) by (simp add: workspace_validate_iff)
  then have linked: "linked (initial_generation W) ?xs (wl_current W)"
    and each: "\<And>g r. bt_get (wl_publications W) g = Some r \<Longrightarrow> publication_ok C W g r"
    by (simp_all add: workspace_ok_def)
  have len: "length ?xs = bt_len (wl_publications W)"
    by (simp add: bt_len_def)
  note key = published_entry [OF linked]
  define r where "r = snd (?xs ! k)"
  have r: "bt_get (wl_publications W) (of_nat (k + 1)) = Some r"
    using key [of k] assms(2) len by (simp add: r_def)
  note r_ok = each [OF r]
  have prev: "wr_previous r = (if k = 0 then initial_generation W else wr_current (snd (?xs ! (k - 1))))"
    using linked_nth [OF linked, of k] assms(2) len by (simp add: r_def)
  have current: "unat (wg_generation (wl_current W)) = bt_len (wl_publications W)"
    using linked_bounds [OF linked] len by simp
  have later: "\<exists>p. bt_get (wl_publications W) (of_nat k) = Some p \<and> wr_previous r = wr_current p \<and>
      wg_generation (wr_current p) = of_nat k \<and>
      wq_output_workspace_digest (wr_request p) = wg_state_digest (wr_current p)" if "0 < k"
  proof -
    have p: "bt_get (wl_publications W) (of_nat k) = Some (snd (?xs ! (k - 1)))"
      using key [of "k - 1"] assms(2) len that by simp
    show ?thesis
      using p each [OF p] prev that by (auto simp: publication_ok_def)
  qed
  have pos: "unat (wg_generation (wr_previous r)) = k"
  proof (cases "k = 0")
    case False
    then have "wg_generation (wr_previous r) = of_nat k"
      using later by auto
    moreover have "k < 2 ^ 64"
      using assms(2) current unat_less_size [of "wg_generation (wl_current W)"] by simp
    ultimately show ?thesis
      by (simp add: unat_of_fitting)
  qed (simp add: prev)
  have last: "wr_current r = wl_current W" if "k + 1 = bt_len (wl_publications W)"
    using linked_last [OF linked, of k] that len by (simp add: r_def)
  have fields: "wq_input_generation (wr_request r) = wg_generation (wr_previous r)"
      "wq_input_workspace_digest (wr_request r) = wg_state_digest (wr_previous r)"
      "wq_output_workspace_digest (wr_request r) = wg_state_digest (wr_current r)"
    using r_ok by (simp_all add: publication_ok_def)
  show ?thesis
  proof (rule conjI [OF current], rule exI [of _ r], intro conjI impI)
    show "bt_get (wl_publications W) (of_nat (k + 1)) = Some r" by (rule r)
    show "unat (wq_input_generation (wr_request r)) = k" by (simp only: fields(1) pos)
    show "wq_input_workspace_digest (wr_request r) = wl_initial_workspace_digest W" if "k = 0"
      using prev that by (simp add: fields(2))
    show "\<exists>p. bt_get (wl_publications W) (of_nat k) = Some p \<and>
        wq_input_workspace_digest (wr_request r) = wq_output_workspace_digest (wr_request p)" if "0 < k"
      using later [OF that] by (auto simp: fields(2))
    show "wq_output_workspace_digest (wr_request r) = wg_state_digest (wl_current W)"
      if "k + 1 = bt_len (wl_publications W)"
      using last [OF that] by (simp only: fields(3))
  qed
qed

lemma publish_advances:
  assumes "publish_staged C W q L = Inr (pub, W')"
  shows "wp_replayed pub \<and> W' = W \<or>
     \<not> wp_replayed pub \<and> wq_input_generation q = wg_generation (wl_current W) \<and>
     unat (wg_generation (wl_current W')) = unat (wg_generation (wl_current W)) + 1 \<and>
     wg_state_digest (wl_current W') = wq_output_workspace_digest q \<and>
     unat (wl_ledger_revision W') = unat (wl_ledger_revision W) + 1"
  using assms
proof (cases rule: publish_stagedE)
  case (fresh digest g r)
  have "wl_current W' = \<lparr>wg_generation = g, wg_state_digest = wq_output_workspace_digest q\<rparr>"
    by (subst fresh(17)) (simp add: next_publication_def)
  with fresh(12,14,15,16) show ?thesis by simp
qed simp

lemma session_step_generation:
  "session_step C p p' \<Longrightarrow>
     unat (wg_generation (wl_current (fst p))) \<le> unat (wg_generation (wl_current (fst p')))"
proof (induction rule: session_step.induct)
  case (session_finalize W L t q result p')
  show ?case
  proof (cases result)
    case (Inl e)
    with session_finalize show ?thesis by (auto dest: finalize_failure)
  next
    case (Inr res)
    moreover obtain W' L' where p': "p' = (W', L')" by force
    ultimately have "finalize_and_publish C W L t q = (Inr res, W', L')"
      using session_finalize by simp
    then obtain pub where "publish_staged C W q L = Inr (pub, W')"
      by (rule finalize_success)
    then show ?thesis
      using publish_advances [of C W q L pub W'] p' by auto
  qed
qed simp_all

lemma session_reach_generation:
  "session_reach C p p' \<Longrightarrow>
     unat (wg_generation (wl_current (fst p))) \<le> unat (wg_generation (wl_current (fst p')))"
  by (induction rule: rtranclp_induct) (auto dest: session_step_generation)

text \<open>
  C5: completing a child is all or nothing. When the call fails, both ledgers are as they were.
  When it succeeds, either it replays a completion recorded before and again changes nothing, or
  both ledgers move by exactly one revision: the reservation is now finalized and the Session's
  workspace is the next generation, with the child's output as its content.
\<close>

theorem completion_all_or_nothing:
  assumes "finalize_and_publish C W L t q = (result, W', L')"
  shows "case result of
       Inl e \<Rightarrow> W' = W \<and> L' = L
     | Inr res \<Rightarrow> if fp_replayed res then W' = W \<and> L' = L
         else unat (wl_ledger_revision W') = unat (wl_ledger_revision W) + 1 \<and>
           unat (lg_ledger_revision L') = unat (lg_ledger_revision L) + 1 \<and>
           unat (wg_generation (wl_current W')) = unat (wg_generation (wl_current W)) + 1 \<and>
           wg_state_digest (wl_current W') = wq_output_workspace_digest q \<and>
           bt_get (lg_reservations L') (tr_reservation_id t) = Some (fp_reservation res) \<and>
           rec_state (fp_reservation res) = Finalized"
proof (cases result)
  case (Inl e)
  with assms show ?thesis by (auto dest: finalize_failure)
next
  case (Inr res)
  with assms have "finalize_and_publish C W L t q = (Inr res, W', L')" by simp
  then obtain pub fin digest where outcome: "tr_outcome t = Outcome_Finalized digest"
    and publish: "publish_staged C W q L = Inr (pub, W')"
    and finalize: "transition_staged C L t = Inr (fin, L')"
    and same: "wp_replayed pub = rs_replayed fin"
    and res: "res = \<lparr>fp_reservation = rs_record fin, fp_publication = wp_record pub,
                fp_replayed = wp_replayed pub\<rparr>"
    by (rule finalize_success)
  note advanced = publish_advances [OF publish]
  from finalize show ?thesis
  proof (cases rule: transition_stagedE)
    case (replay rid d r)
    with advanced same res Inr show ?thesis by auto
  next
    case (fresh d r)
    have "bt_get (lg_reservations L') (tr_reservation_id t) = Some (ended_record r t d)"
      by (subst fresh(14)) simp
    moreover have "rec_state (ended_record r t d) = Finalized"
      using outcome by (simp add: ended_record_def outcome_state_def)
    ultimately show ?thesis
      using advanced same res Inr fresh by auto
  qed
qed

text \<open>
  C6: of several children that started from the same workspace generation, only the first to
  complete publishes. Once one completion has advanced the workspace, every later completion that
  names the same input generation fails or replays a recorded result, whatever happened between;
  either way it changes neither ledger.
\<close>

theorem first_writer_wins:
  assumes "finalize_and_publish C W L t q = (Inr res, W1, L1)" "\<not> fp_replayed res"
    and "session_reach C (W1, L1) (W2, L2)"
    and "wq_input_generation q' = wq_input_generation q"
    and "finalize_and_publish C W2 L2 t' q' = (result, W3, L3)"
  shows "(case result of Inl _ \<Rightarrow> True | Inr res' \<Rightarrow> fp_replayed res') \<and> W3 = W2 \<and> L3 = L2"
proof -
  from assms(1) obtain pub where publish: "publish_staged C W q L = Inr (pub, W1)"
    and "fp_replayed res = wp_replayed pub"
    by (rule finalize_success) simp
  then have later: "unat (wq_input_generation q) < unat (wg_generation (wl_current W2))"
    using publish_advances [OF publish] assms(2) session_reach_generation [OF assms(3)] by auto
  show ?thesis
  proof (cases result)
    case (Inl e)
    with assms(5) show ?thesis by (auto dest: finalize_failure)
  next
    case (Inr res')
    with assms(5) have "finalize_and_publish C W2 L2 t' q' = (Inr res', W3, L3)" by simp
    then obtain pub' fin' where publish': "publish_staged C W2 q' L2 = Inr (pub', W3)"
      and finalize': "transition_staged C L2 t' = Inr (fin', L3)"
      and same: "wp_replayed pub' = rs_replayed fin'" "fp_replayed res' = wp_replayed pub'"
      by (rule finalize_success) simp
    have again: "wp_replayed pub'" "W3 = W2"
      using publish_advances [OF publish'] later assms(4) by auto
    moreover have "L3 = L2"
      using finalize' same again(1) by (cases rule: transition_stagedE) auto
    ultimately show ?thesis
      using same Inr by simp
  qed
qed

end
