(* ===== verification/Ledger_Examples.thy ===== *)
theory Ledger_Examples
  imports Workspace_Safety
begin

text \<open>
  A concrete Session run: a new ledger for the example Session of \<open>Capsule\<close>, the admission of its
  child, and the two ways the child can end, by release and by publishing its workspace. The run
  instantiates the theorems on the two ledgers, whose hypotheses it shows to hold.
\<close>

subsection \<open>A run of a Session\<close>

definition example_codec :: canon_workspace where
  "example_codec =
     example_canon_capsule
       \<lparr>ser_reservation = (\<lambda>q. Inr (JString (rq_reservation_id q))),
        ser_transition = (\<lambda>t. Inr (JString (tr_idempotency_key t))),
        ser_record = (\<lambda>r. Inr (JString (rq_reservation_id (rec_request r)))),
        ser_publication = (\<lambda>q. Inr (JString (wq_idempotency_key q))),
        ser_publication_record = (\<lambda>p. Inr (JString (wr_reservation_id p)))\<rparr>"

definition example_ledger :: SessionReservationLedger where
  "example_ledger =
     \<lparr>lg_session_id = ''sess'', lg_session_capsule_digest = ContentDigest ''sha256:a'',
      lg_session_fence = 1, lg_ledger_revision = 0, lg_limits = from_session example_session,
      lg_allocated = rr_default, lg_cumulative_usage = cu_default, lg_maximum_concurrency = 2,
      lg_maximum_child_count = 4, lg_active_concurrency = 0, lg_admitted_child_count = 0,
      lg_next_generation = 1, lg_reservations = bt_empty, lg_child_reservations = bt_empty,
      lg_reserve_idempotency = bt_empty, lg_transition_idempotency = bt_empty\<rparr>"

definition example_admission :: ChildAdmissionRequest where
  "example_admission =
     \<lparr>ca_schema_version = 1, ca_reservation_id = ''res1'', ca_session_id = ''sess'',
      ca_child_execution_id = ''child1'', ca_idempotency_key = ''key1'', ca_session_fence = 1,
      ca_expected_ledger_revision = 0, ca_created_unix_ms = 1\<rparr>"

definition example_authority :: AdmissionContext where
  "example_authority =
     \<lparr>ac_session = example_session, ac_subject = example_subject (ContentDigest ''sha256:a''),
      ac_seal = example_seal (ContentDigest ''sha256:aaaaaaaa'') (ContentDigest ''sha256:a''),
      ac_verifier = example_verifier, ac_grant = example_delegation, ac_child = example_child,
      ac_now_unix_ms = 50, ac_current_policy_digest = ContentDigest ''p'',
      ac_current_seal_revocation_generation = 3, ac_current_grant_revocation_generation = 7\<rparr>"

definition example_request :: ChildReservationRequest where
  "example_request =
     derived_request example_admission (ContentDigest ''sha256:a'') (ContentDigest ''sha256:a'') example_child"

definition example_record :: ChildReservationRecord where
  "example_record =
     \<lparr>rec_request = example_request, rec_request_digest = ContentDigest ''sha256:aaaa'',
      rec_generation = 1, rec_state = Reserved, rec_terminal_request_digest = None,
      rec_terminal_request = None, rec_terminal_outcome = None\<rparr>"

definition example_admitted :: SessionReservationLedger where
  "example_admitted =
     example_ledger
       \<lparr>lg_allocated := from_child example_child, lg_active_concurrency := 1,
        lg_admitted_child_count := 1, lg_next_generation := 2, lg_ledger_revision := 1,
        lg_child_reservations := bt_insert ''child1'' ''res1'' bt_empty,
        lg_reserve_idempotency := bt_insert ''key1'' ''res1'' bt_empty,
        lg_reservations := bt_insert ''res1'' example_record bt_empty\<rparr>"

lemma example_codec_digest:
  "ser x = Inr (JString text) \<Longrightarrow>
     canonical_digest example_codec ser x =
       Inr (ContentDigest (''sha256:'' @ replicate (length text) CHR ''a''))"
  by (simp add: example_codec_def example_canonical_capsule)

lemma example_ledger_new: "ledger_new example_codec ''sess'' example_session 1 = Inr example_ledger"
  unfolding ledger_new_def example_codec_def
  by (simp add: example_session_valid example_digests)
    (simp add: example_validation example_ledger_def example_session_def)

lemma example_child_digest:
  "execution_digest example_codec example_child = Inr (ContentDigest ''sha256:a'')"
proof -
  have "ser_execution example_codec example_child = Inr (JString ''u'')"
    by (simp add: example_codec_def example_canon_capsule_def example_canon_def example_child_def)
  then show ?thesis
    by (simp add: execution_digest_def example_child_valid example_codec_digest [of _ _ "''u''"])
qed

lemma example_child_account:
  "from_child example_child =
     \<lparr>rr_cpu_millis = 1000, rr_memory_bytes = 4096, rr_storage_bytes = 4096, rr_task_count = 4,
      rr_capability_calls = 4, rr_capability_request_bytes = 64, rr_capability_response_bytes = 64,
      rr_external_effect_count = 2\<rparr>"
  by (simp add: from_child_def Let_def example_child_def example_resources_def u64_from_u32_def
      example_contracts)

lemma example_accounts:
  "from_session example_session = from_child example_child"
  "rr_checked_add rr_default (from_child example_child) = Inr (from_child example_child)"
  "rr_validate (from_child example_child) = Inr ()"
proof -
  show "from_session example_session = from_child example_child"
    unfolding example_child_account
    by (simp add: from_session_def Let_def example_session_def example_resources_def
        u64_from_u32_def example_contracts)
qed (simp_all add: example_child_account rr_default_def rr_checked_add_def checked_add_def
      rr_validate_def)

lemma example_request_digest:
  "request_digest example_codec example_request = Inr (ContentDigest ''sha256:aaaa'')"
proof -
  have "ser_reservation example_codec example_request = Inr (JString ''res1'')"
    by (simp add: example_codec_def example_canon_capsule_def example_canon_def example_request_def
        derived_request_def example_admission_def)
  moreover have "request_validate example_request = Inr ()"
    by (simp add: request_validate_def example_request_def derived_request_def
        example_admission_def example_accounts SESSION_RESERVATION_SCHEMA_VERSION_def
        example_validation)
  ultimately show ?thesis
    by (simp add: request_digest_def example_codec_digest [of _ _ "''res1''"] numeral_eq_Suc)
qed

lemma example_reserved:
  "reserve_staged example_codec example_ledger example_request =
     Inr (\<lparr>rs_record = example_record, rs_replayed = False\<rparr>, example_admitted)"
proof -
  have "cu_checked_add cu_default (capability_usage (from_child example_child)) =
      Inr (capability_usage (from_child example_child))"
    by (simp add: example_child_account capability_usage_def cu_default_def cu_checked_add_def
        checked_add_def)
  moreover have "contains_usage (from_child example_child) (capability_usage (from_child example_child))"
    "rr_contains (from_child example_child) (from_child example_child)"
    by (simp_all add: contains_usage_def capability_usage_def rr_contains_def)
  ultimately show ?thesis
    using request_digest_validates [OF example_request_digest]
    by (simp add: reserve_staged_def exact_reservation_replay_def example_request_digest)
      (simp add: example_ledger_def example_request_def derived_request_def example_admission_def
        example_accounts checked_add_def example_admitted_def example_record_def Let_def)
qed

lemma example_ledger_ok: "ledger_ok example_codec example_ledger"
  by (rule ledger_new_ok [OF example_ledger_new])

lemma example_admitted_ok: "ledger_ok example_codec example_admitted"
  using example_ledger_ok example_reserved by (rule reserve_keeps_ok)

lemma example_authorized:
  "admission_authorized example_codec example_ledger example_authority example_request = Inr ()"
proof -
  have "admission_context example_authority = example_context"
    by (simp add: admission_context_def example_authority_def example_context_def)
  then have "validate_against_parent example_codec example_delegation (admission_context example_authority) = Inr ()"
    "contains_child example_codec example_delegation example_child = Inr ()"
    by (simp_all add: example_codec_def example_delegation_accepted example_child_contained)
  then show ?thesis
    by (simp add: admission_authorized_def example_authority_def)
      (simp add: example_request_def derived_request_def example_admission_def example_ledger_def
        example_child_def example_session_def example_subject_def)
qed

lemma example_admission_valid: "admission_validate example_admission = Inr ()"
  by (simp add: admission_validate_def example_admission_def SESSION_RESERVATION_SCHEMA_VERSION_def
      example_validation)

lemma example_authority_valid:
  "session_validate example_codec example_session = Inr ()"
  "session_digest example_codec example_session = Inr (ContentDigest ''sha256:a'')"
  by (simp_all add: example_codec_def example_session_valid example_digests)

lemma example_admit:
  "admit_child example_codec example_ledger example_admission example_authority =
     (Inr \<lparr>rs_record = example_record, rs_replayed = False\<rparr>, example_admitted)"
proof -
  have "exact_reservation_replay example_codec example_ledger example_request = Inr None"
    by (simp add: exact_reservation_replay_def example_ledger_def)
  moreover have "ac_session example_authority = example_session" "ac_child example_authority = example_child"
    by (simp_all add: example_authority_def)
  ultimately show ?thesis
    using example_ledger_ok [folded ledger_validate_iff] example_admitted_ok [folded ledger_validate_iff]
    by (simp add: admit_child_def admit_staged_def example_admission_valid example_authority_valid
        example_child_valid example_child_digest example_request_def [symmetric] Let_def
        example_authorized example_reserved)
qed

lemma example_reach: "ledger_reach example_codec example_ledger example_admitted"
  using step_admit [OF example_admit] by (rule r_into_rtranclp)

subsection \<open>The child ends\<close>

definition example_ending :: "ReservationTerminalOutcome \<Rightarrow> ReservationTransitionRequest" where
  "example_ending outcome =
     \<lparr>tr_schema_version = 1, tr_reservation_id = ''res1'', tr_child_execution_id = ''child1'',
      tr_idempotency_key = ''end1'', tr_session_fence = 1, tr_expected_ledger_revision = 1,
      tr_outcome = outcome,
      tr_actual_usage = \<lparr>cu_capability_calls = 3, cu_capability_request_bytes = 10,
        cu_capability_response_bytes = 20, cu_external_effect_count = 1\<rparr>,
      tr_observed_unix_ms = 60\<rparr>"

definition example_ended :: "ReservationTerminalOutcome \<Rightarrow> SessionReservationLedger" where
  "example_ended outcome =
     example_admitted
       \<lparr>lg_reservations := bt_insert ''res1''
          (ended_record example_record (example_ending outcome) (ContentDigest ''sha256:aaaa''))
          (lg_reservations example_admitted),
        lg_allocated := rr_default, lg_cumulative_usage := tr_actual_usage (example_ending outcome),
        lg_active_concurrency := 0,
        lg_transition_idempotency := bt_insert ''end1'' (''res1'', ContentDigest ''sha256:aaaa'') bt_empty,
        lg_ledger_revision := 2\<rparr>"

lemma example_ending_digest:
  "transition_digest example_codec (example_ending outcome) = Inr (ContentDigest ''sha256:aaaa'')"
proof -
  have "ser_transition example_codec (example_ending outcome) = Inr (JString ''end1'')"
    by (simp add: example_codec_def example_canon_capsule_def example_canon_def example_ending_def)
  moreover have "transition_validate (example_ending outcome) = Inr ()"
    by (simp add: transition_validate_def example_ending_def SESSION_RESERVATION_SCHEMA_VERSION_def
        example_validation)
  ultimately show ?thesis
    by (simp add: transition_digest_def example_codec_digest [of _ _ "''end1''"] numeral_eq_Suc)
qed

lemma example_admitted_fields:
  "bt_get (lg_reservations example_admitted) ''res1'' = Some example_record"
  "lg_session_fence example_admitted = 1" "lg_ledger_revision example_admitted = 1"
  "lg_transition_idempotency example_admitted = bt_empty" "lg_cumulative_usage example_admitted = cu_default"
  "lg_allocated example_admitted = from_child example_child" "lg_active_concurrency example_admitted = 1"
  "lg_reserve_idempotency example_admitted = bt_insert ''key1'' ''res1'' bt_empty"
  by (simp_all add: example_admitted_def example_ledger_def)

lemma example_record_fields:
  "rq_child_execution_id (rec_request example_record) = ''child1''" "rec_state example_record = Reserved"
  "rq_resources (rec_request example_record) = from_child example_child"
  "rq_reservation_id (rec_request example_record) = ''res1''"
  "rq_session_id (rec_request example_record) = ''sess''"
  "rq_session_capsule_digest (rec_request example_record) = ContentDigest ''sha256:a''"
  "rec_request_digest example_record = ContentDigest ''sha256:aaaa''"
  by (simp_all add: example_record_def example_request_def derived_request_def example_admission_def)

lemma example_usage_fits: "contains_usage (from_child example_child) (tr_actual_usage (example_ending outcome))"
  by (simp add: contains_usage_def example_child_account example_ending_def)

lemma example_transition:
  "transition_staged example_codec example_admitted (example_ending outcome) =
     Inr (\<lparr>rs_record = ended_record example_record (example_ending outcome) (ContentDigest ''sha256:aaaa''),
          rs_replayed = False\<rparr>, example_ended outcome)"
proof -
  have "transition_validate (example_ending outcome) = Inr ()"
    using example_ending_digest [of outcome] by (auto simp: transition_digest_def res_simps)
  moreover have "rr_checked_sub (from_child example_child) (from_child example_child) = Inr rr_default"
    by (simp add: example_child_account rr_default_def rr_checked_sub_def checked_sub_def)
  moreover have "cu_checked_add cu_default (tr_actual_usage (example_ending outcome)) =
      Inr (tr_actual_usage (example_ending outcome))"
    by (simp add: example_ending_def cu_default_def cu_checked_add_def checked_add_def)
  moreover have "tr_idempotency_key (example_ending outcome) = ''end1''"
    "tr_session_fence (example_ending outcome) = 1" "tr_expected_ledger_revision (example_ending outcome) = 1"
    "tr_reservation_id (example_ending outcome) = ''res1''"
    "tr_child_execution_id (example_ending outcome) = ''child1''"
    by (simp_all add: example_ending_def)
  ultimately show ?thesis
    by (simp add: transition_staged_def example_ending_digest example_admitted_fields
        example_record_fields example_usage_fits)
      (simp add: checked_sub_def checked_add_def ended_record_def Let_def example_ended_def
        example_admitted_fields)
qed

lemma example_release:
  "release example_codec example_admitted (example_ending (Outcome_Released (ContentDigest ''r''))) =
     (Inr \<lparr>rs_record = ended_record example_record (example_ending (Outcome_Released (ContentDigest ''r'')))
         (ContentDigest ''sha256:aaaa''), rs_replayed = False\<rparr>,
      example_ended (Outcome_Released (ContentDigest ''r'')))"
  using example_transition [of "Outcome_Released (ContentDigest ''r'')"]
    transition_commit.commit_exact [OF example_admitted_ok [folded ledger_validate_iff]]
  by (simp add: release_def) (simp add: example_ending_def)

subsection \<open>The reservation ledger\<close>

theorem session_budget_never_exceeded_witness:
  "(\<forall>d. bt_sum (used d) (lg_reservations example_admitted) + bt_sum (held d) (lg_reservations example_admitted)
       \<le> rr_at (from_session example_session) d) \<and>
   bt_sum open_count (lg_reservations example_admitted) \<le> unat (sc_maximum_concurrency example_session) \<and>
   ledger_validate example_codec example_admitted = Inr ()"
  using session_budget_never_exceeded [OF example_ledger_new example_reach] by blast

theorem admission_authorized_and_accounted_witness:
  "rq_resources (rec_request example_record) = from_child example_child \<and>
   lg_reservations example_admitted = bt_insert ''res1'' example_record (lg_reservations example_ledger)"
  using admission_authorized_and_accounted [OF example_admit]
  by (simp add: example_authority_def example_admission_def)

theorem admission_replay_witness:
  "\<exists>r. record_extends example_record r \<and>
     admit_child example_codec (example_ended (Outcome_Released (ContentDigest ''r''))) example_admission
       (example_authority\<lparr>ac_now_unix_ms := 1000\<rparr>) =
     (Inr \<lparr>rs_record = r, rs_replayed = True\<rparr>, example_ended (Outcome_Released (ContentDigest ''r'')))"
proof -
  have "ledger_reach example_codec example_admitted (example_ended (Outcome_Released (ContentDigest ''r'')))"
    using step_release [OF example_release] by (rule r_into_rtranclp)
  from admission_replay [OF example_admit this, of "example_authority\<lparr>ac_now_unix_ms := 1000\<rparr>"]
  show ?thesis by simp
qed

theorem admission_key_conflict_witness:
  "admit_child example_codec example_admitted (example_admission\<lparr>ca_reservation_id := ''other''\<rparr>)
     example_authority = (Inl IdempotencyConflict, example_admitted)"
proof -
  let ?other = "example_admission\<lparr>ca_reservation_id := ''other''\<rparr>"
  let ?q = "derived_request ?other (ContentDigest ''sha256:a'') (ContentDigest ''sha256:a'') example_child"
  have "ser_reservation example_codec ?q = Inr (JString ''other'')"
    by (simp add: example_codec_def example_canon_capsule_def example_canon_def derived_request_def)
  moreover have "request_validate ?q = Inr ()"
    by (simp add: request_validate_def derived_request_def example_admission_def example_accounts
        SESSION_RESERVATION_SCHEMA_VERSION_def example_validation)
  ultimately have "request_digest example_codec ?q = Inr (ContentDigest ''sha256:aaaaa'')"
    by (simp add: request_digest_def example_codec_digest [of _ _ "''other''"] numeral_eq_Suc)
  moreover have "admission_validate ?other = Inr ()"
    by (simp add: admission_validate_def example_admission_def SESSION_RESERVATION_SCHEMA_VERSION_def
        example_validation)
  ultimately show ?thesis
    using admission_key_conflict [OF example_admit rtranclp.rtrancl_refl, of ?other example_authority]
    by (simp add: example_authority_def example_child_digest example_authority_valid example_record_fields)
qed

theorem ended_reservations_final_witness:
  "bt_get (lg_reservations (example_ended (Outcome_Released (ContentDigest ''r'')))) ''res1'' =
     Some (ended_record example_record (example_ending (Outcome_Released (ContentDigest ''r'')))
       (ContentDigest ''sha256:aaaa''))"
  using ended_reservations_final [OF rtranclp.rtrancl_refl [of "ledger_step example_codec"
      "example_ended (Outcome_Released (ContentDigest ''r''))"], of "''res1''"]
  by (simp add: example_ended_def ended_record_def outcome_state_def example_ending_def)

theorem stale_admission_refused_witness:
  "\<not> (\<exists>r L. admit_child example_codec example_admitted (example_admission\<lparr>ca_idempotency_key := ''k2''\<rparr>)
      example_authority = (Inr \<lparr>rs_record = r, rs_replayed = False\<rparr>, L))"
  using stale_admission_refused [OF example_admit _ rtranclp.rtrancl_refl,
      of "example_admission\<lparr>ca_idempotency_key := ''k2''\<rparr>" example_authority]
  by (auto simp: example_admission_def example_ledger_def)

theorem release_progress_witness:
  "\<exists>L'. release example_codec example_admitted (example_ending (Outcome_Released (ContentDigest ''r''))) =
     (Inr \<lparr>rs_record = ended_record example_record (example_ending (Outcome_Released (ContentDigest ''r'')))
         (ContentDigest ''sha256:aaaa''), rs_replayed = False\<rparr>, L') \<and>
     (\<forall>d. rr_at (lg_allocated L') d = 0)"
  using release_progress [OF example_admitted_ok example_ending_digest, of "Outcome_Released (ContentDigest ''r'')"
      "ContentDigest ''r''" example_record]
    example_usage_fits [of "Outcome_Released (ContentDigest ''r'')"]
  by (simp add: example_ending_def example_admitted_fields example_record_fields)

theorem reservation_capacity_exact_witness:
  "is_ok (reserve_staged example_codec example_ledger example_request)"
proof -
  have "rr_at (rq_resources example_request) d \<le> rr_at (lg_limits example_ledger) d" for d
    by (simp add: example_request_def derived_request_def example_ledger_def example_accounts)
  then show ?thesis
    using reservation_capacity_exact [OF example_ledger_ok example_request_digest]
    by (simp add: example_ledger_def example_request_def derived_request_def example_admission_def)
qed

subsection \<open>The workspace ledger\<close>

definition example_workspace :: WorkspacePublicationLedger where
  "example_workspace =
     \<lparr>wl_session_id = ''sess'', wl_session_capsule_digest = ContentDigest ''sha256:a'',
      wl_session_fence = 1, wl_ledger_revision = 0, wl_initial_workspace_digest = ContentDigest ''w'',
      wl_current = \<lparr>wg_generation = 0, wg_state_digest = ContentDigest ''w''\<rparr>,
      wl_publications = bt_empty, wl_idempotency = bt_empty, wl_published_by_child = bt_empty\<rparr>"

definition example_publication :: WorkspacePublicationRequest where
  "example_publication =
     \<lparr>wq_schema_version = 1, wq_session_id = ''sess'',
      wq_session_capsule_digest = ContentDigest ''sha256:a'', wq_reservation_id = ''res1'',
      wq_child_execution_id = ''child1'', wq_input_generation = 0,
      wq_input_workspace_digest = ContentDigest ''w'', wq_output_workspace_digest = ContentDigest ''w2'',
      wq_output_manifest_digest = ContentDigest ''m'', wq_idempotency_key = ''pub1'',
      wq_session_fence = 1, wq_expected_publication_revision = 0, wq_expected_reservation_revision = 1,
      wq_committed_unix_ms = 60\<rparr>"

abbreviation example_completion :: ReservationTransitionRequest where
  "example_completion \<equiv> example_ending (Outcome_Finalized (ContentDigest ''w2''))"

abbreviation example_entry :: WorkspacePublicationRecord where
  "example_entry \<equiv> next_publication example_workspace example_publication (ContentDigest ''sha256:aaaa'') 1"

definition example_published :: WorkspacePublicationLedger where
  "example_published =
     example_workspace
       \<lparr>wl_current := wr_current example_entry,
        wl_idempotency := bt_insert ''pub1'' (1, ContentDigest ''sha256:aaaa'') bt_empty,
        wl_published_by_child := bt_insert ''child1'' 1 bt_empty,
        wl_publications := bt_insert 1 example_entry bt_empty, wl_ledger_revision := 1\<rparr>"

lemma example_workspace_new:
  "workspace_new ''sess'' (ContentDigest ''sha256:a'') 1 (ContentDigest ''w'') = Inr example_workspace"
  by (simp add: workspace_new_def example_workspace_def example_validation)

lemma example_publish:
  "publish_staged example_codec example_workspace example_publication example_admitted =
     Inr (\<lparr>wp_record = example_entry, wp_replayed = False\<rparr>, example_published)"
proof -
  have valid: "publication_validate example_publication = Inr ()"
    by (simp add: publication_validate_def example_publication_def
        WORKSPACE_PUBLICATION_SCHEMA_VERSION_def example_validation)
  have "ser_publication example_codec example_publication = Inr (JString ''pub1'')"
    by (simp add: example_codec_def example_canon_capsule_def example_canon_def example_publication_def)
  then have digest: "publication_digest example_codec example_publication = Inr (ContentDigest ''sha256:aaaa'')"
    by (simp add: publication_digest_def valid example_codec_digest [of _ _ "''pub1''"] numeral_eq_Suc)
  show ?thesis
    by (simp add: publish_staged_def valid digest)
      (simp add: reservation_def example_workspace_def example_publication_def example_admitted_fields
        example_record_fields checked_add_def Let_def next_publication_def example_published_def)
qed

lemma example_complete:
  "finalize_and_publish example_codec example_workspace example_admitted example_completion example_publication =
     (Inr \<lparr>fp_reservation = ended_record example_record example_completion (ContentDigest ''sha256:aaaa''),
          fp_publication = example_entry, fp_replayed = False\<rparr>,
      example_published, example_ended (Outcome_Finalized (ContentDigest ''w2'')))"
proof -
  have "pair_validate example_codec (example_workspace, example_admitted) = Inr ()"
    using workspace_new_ok(1) [OF example_workspace_new] example_admitted_ok
    by (simp add: pair_validate_def res_simps workspace_validate_iff ledger_validate_iff)
  moreover have "finalize_staged example_codec example_completion example_publication
      (example_workspace, example_admitted) =
      Inr (\<lparr>fp_reservation = ended_record example_record example_completion (ContentDigest ''sha256:aaaa''),
          fp_publication = example_entry, fp_replayed = False\<rparr>,
        example_published, example_ended (Outcome_Finalized (ContentDigest ''w2'')))"
    by (simp add: finalize_staged_def example_publish example_transition)
  moreover have "tr_outcome example_completion = Outcome_Finalized (ContentDigest ''w2'')"
    "tr_reservation_id example_completion = wq_reservation_id example_publication"
    "tr_child_execution_id example_completion = wq_child_execution_id example_publication"
    "tr_session_fence example_completion = wq_session_fence example_publication"
    by (simp_all add: example_ending_def example_publication_def)
  ultimately show ?thesis
    by (simp add: finalize_and_publish_def finalize_commit.commit_exact)
qed

lemma example_session_reach:
  "session_reach example_codec (example_workspace, example_ledger)
     (example_published, example_ended (Outcome_Finalized (ContentDigest ''w2'')))"
  using session_admit [OF example_admit] session_finalize [OF example_complete]
  by (meson converse_rtranclp_into_rtranclp r_into_rtranclp)

theorem published_iff_finalized_witness:
  "\<exists>g p. bt_get (wl_publications example_published) g = Some p \<and> wr_reservation_id p = ''res1''"
proof -
  let ?L = "example_ended (Outcome_Finalized (ContentDigest ''w2''))"
  let ?r = "ended_record example_record example_completion (ContentDigest ''sha256:aaaa'')"
  have "bt_get (lg_reservations ?L) ''res1'' = Some ?r" "rec_state ?r = Finalized"
    by (simp_all add: example_ended_def ended_record_def outcome_state_def example_ending_def)
  then show ?thesis
    using published_iff_finalized [OF example_workspace_new example_ledger_new example_session_reach]
    by blast
qed

theorem workspace_history_unbroken_witness:
  "unat (wg_generation (wl_current example_published)) = bt_len (wl_publications example_published) \<and>
   (\<exists>r. bt_get (wl_publications example_published) 1 = Some r \<and>
      wq_input_workspace_digest (wr_request r) = ContentDigest ''w'' \<and>
      wq_output_workspace_digest (wr_request r) = wg_state_digest (wl_current example_published))"
proof -
  have "workspace_validate example_codec example_published = Inr ()"
    using example_complete by (rule finalize_success) (simp add: workspace_validate_iff)
  moreover have "bt_len (wl_publications example_published) = 1"
    "wl_initial_workspace_digest example_published = ContentDigest ''w''"
    by (simp_all add: example_published_def bt_len_insert example_workspace_def)
  ultimately show ?thesis
    using workspace_history_unbroken [of example_codec example_published 0] by auto
qed

theorem completion_all_or_nothing_witness:
  "unat (wg_generation (wl_current example_published)) = unat (wg_generation (wl_current example_workspace)) + 1 \<and>
   unat (lg_ledger_revision (example_ended (Outcome_Finalized (ContentDigest ''w2''))))
     = unat (lg_ledger_revision example_admitted) + 1"
  using completion_all_or_nothing [OF example_complete] by simp

theorem first_writer_wins_witness:
  "snd (finalize_and_publish example_codec example_published
      (example_ended (Outcome_Finalized (ContentDigest ''w2''))) example_completion
      (example_publication\<lparr>wq_idempotency_key := ''pub2''\<rparr>)) =
   (example_published, example_ended (Outcome_Finalized (ContentDigest ''w2'')))"
proof -
  obtain result W L where again: "finalize_and_publish example_codec example_published
      (example_ended (Outcome_Finalized (ContentDigest ''w2''))) example_completion
      (example_publication\<lparr>wq_idempotency_key := ''pub2''\<rparr>) = (result, W, L)"
    by (metis prod.collapse)
  then show ?thesis
    using first_writer_wins [OF example_complete _ rtranclp.rtrancl_refl _ again] by simp
qed

end
