(* ===== verification/Scheduler_Model.thy ===== *)
theory Scheduler_Model
  imports Model_Primitives "HOL-Library.Product_Lexorder"
begin

text \<open>
  The data and the pure functions of \<^verbatim>\<open>crates/scheduler\<close>: runner and job records (\<^verbatim>\<open>model.rs\<close>),
  validation, quotas, resource accounting, the hard filters and the placement score
  (\<^verbatim>\<open>validation.rs\<close>, \<^verbatim>\<open>quota.rs\<close>, \<^verbatim>\<open>resources.rs\<close>, \<^verbatim>\<open>matching.rs\<close>). Platform and isolation
  types come from \<^verbatim>\<open>crates/workflow-ir\<close>. Signed integers are integers with the bounds of their
  width written out.
\<close>

subsection \<open>Data\<close>

datatype IR_OperatingSystem = IR_Linux | IR_Windows | IR_Macos

datatype IR_Architecture = IR_Amd64 | IR_Arm64

datatype Isolation = Wasm | Oci | Microvm | Native_Isolation

fun isolation_rank :: "Isolation \<Rightarrow> nat" where
  "isolation_rank Wasm = 0"
| "isolation_rank Oci = 1"
| "isolation_rank Microvm = 2"
| "isolation_rank Native_Isolation = 3"

lemma isolation_rank_inject: "isolation_rank a = isolation_rank b \<Longrightarrow> a = b"
  by (cases a; cases b) simp_all

instantiation Isolation :: linorder
begin

definition less_eq_Isolation :: "Isolation \<Rightarrow> Isolation \<Rightarrow> bool" where
  "less_eq_Isolation a b \<longleftrightarrow> isolation_rank a \<le> isolation_rank b"

definition less_Isolation :: "Isolation \<Rightarrow> Isolation \<Rightarrow> bool" where
  "less_Isolation a b \<longleftrightarrow> isolation_rank a < isolation_rank b"

instance
  by intro_classes
    (auto simp: less_eq_Isolation_def less_Isolation_def intro: isolation_rank_inject)

end

datatype PackagePreparationTier = Warmish | Warm

fun placement_rank :: "PackagePreparationTier \<Rightarrow> u8" where
  "placement_rank Warmish = 1"
| "placement_rank Warm = 2"

datatype RunnerStatus = Probationary | Online | Draining | Quarantined | Offline | Revoked

record RunnerRecord =
  rn_id :: string
  rn_tenant_id :: string
  rn_pool_id :: string
  rn_ephemeral :: bool
  rn_retired :: bool
  rn_os :: IR_OperatingSystem
  rn_arch :: IR_Architecture
  rn_isolation_backends :: "Isolation bset"
  rn_logical_cpus :: u32
  rn_memory_bytes :: u64
  rn_storage_bytes :: u64
  rn_max_concurrent_wasm_jobs :: u32
  rn_region :: "string option"
  rn_verified_capabilities :: "string bset"
  rn_self_reported_capabilities :: "string bset"
  rn_status :: RunnerStatus
  rn_active_jobs :: u32
  rn_active_wasm_jobs :: u32
  rn_used_cpus :: u32
  rn_used_memory_bytes :: u64
  rn_used_storage_bytes :: u64
  rn_locality :: "ContentDigest bset"
  rn_package_tiers :: "(ContentDigest, PackagePreparationTier) btree"
  rn_last_heartbeat_unix_ms :: u64

record SchedulingRequirements =
  sr_os :: IR_OperatingSystem
  sr_arch :: IR_Architecture
  sr_isolation :: Isolation
  sr_cpu :: u32
  sr_memory_bytes :: u64
  sr_storage_bytes :: u64
  sr_region :: "string option"
  sr_required_capabilities :: "string bset"
  sr_allowed_pools :: "string bset"

record QueuedJob =
  qj_id :: string
  qj_tenant_id :: string
  qj_repository_id :: string
  qj_capsule_digest :: ContentDigest
  qj_requirements :: SchedulingRequirements
  qj_priority :: int
  qj_queued_unix_ms :: u64
  qj_preferred_content :: "ContentDigest bset"
  qj_retryable_after_runner_loss :: bool

datatype LeaseState =
  Offered | Active | CancelRequested | Completed | Rejected | Expired

record Lease =
  le_id :: string
  le_job_id :: string
  le_tenant_id :: string
  le_runner_id :: string
  le_fencing_generation :: u64
  le_installation_fencing_epoch :: u64
  le_capsule_digest :: ContentDigest
  le_issued_unix_ms :: u64
  le_accept_by_unix_ms :: u64
  le_expires_unix_ms :: u64
  le_state :: LeaseState
  le_terminal_result_digest :: "ContentDigest option"

record PlacementScoreObservation =
  po_fair_share :: u64
  po_effective_priority :: int
  po_preferred_content_hits :: u64
  po_preferred_package_tier :: u8
  po_runner_active_jobs :: u32

record PlacementObservation =
  pl_runner_id :: string
  pl_queued_jobs :: u64
  pl_compatible_jobs :: u64
  pl_selected_job_id :: "string option"
  pl_selected_score :: "PlacementScoreObservation option"
  pl_duration_ns :: u64

record ObservedLeaseOffer =
  of_lease :: "Lease option"
  of_placement :: PlacementObservation

datatype SchedulerError =
    InvalidRunner
  | InvalidJob
  | InvalidQuota
  | UnknownRunner string
  | DuplicateRunner string
  | RunnerRevoked string
  | UnknownJob string
  | DuplicateJob string
  | UnknownLease string
  | InvalidLeaseState LeaseState LeaseState
  | LeaseNotActive LeaseState
  | OfferExpired
  | WrongRunner
  | StaleGeneration u64 u64
  | StaleInstallationEpoch u64 u64
  | ConflictingCompletion
  | EpochMustIncrease
  | GenerationOverflow
  | LeaseIdOverflow

type_synonym 'a scheduled = "(SchedulerError, 'a) result"

subsection \<open>Validation\<close>

record TenantQuota =
  tq_maximum_running_jobs :: u32
  tq_weight :: u32

definition quota_default :: TenantQuota where
  "quota_default = \<lparr>tq_maximum_running_jobs = - 1, tq_weight = 1\<rparr>"

definition runner_validate :: "RunnerRecord \<Rightarrow> unit scheduled" where
  "runner_validate r =
     fail_if
       (rn_id r = [] \<or> rn_tenant_id r = [] \<or> rn_pool_id r = [] \<or> rn_logical_cpus r = 0 \<or>
        rn_max_concurrent_wasm_jobs r = 0 \<or> rn_max_concurrent_wasm_jobs r > 64 \<or>
        (rn_max_concurrent_wasm_jobs r > 1 \<and> \<not> bs_mem Wasm (rn_isolation_backends r)) \<or>
        rn_active_wasm_jobs r > rn_active_jobs r \<or>
        rn_active_wasm_jobs r > rn_max_concurrent_wasm_jobs r \<or>
        rn_memory_bytes r = 0 \<or> rn_storage_bytes r = 0 \<or> bt_len (rn_isolation_backends r) = 0)
       InvalidRunner"

definition job_validate :: "QueuedJob \<Rightarrow> unit scheduled" where
  "job_validate j =
     fail_if
       (qj_id j = [] \<or> qj_tenant_id j = [] \<or> qj_repository_id j = [] \<or>
        sr_cpu (qj_requirements j) = 0 \<or> sr_memory_bytes (qj_requirements j) = 0)
       InvalidJob"

definition quota_validate :: "TenantQuota \<Rightarrow> unit scheduled" where
  "quota_validate q = fail_if (tq_maximum_running_jobs q = 0 \<or> tq_weight q = 0) InvalidQuota"

subsection \<open>Quotas\<close>

definition has_capacity :: "TenantQuota \<Rightarrow> u32 \<Rightarrow> bool" where
  "has_capacity quota running \<longleftrightarrow> running < tq_maximum_running_jobs quota"

text \<open>Accepted quotas and the default one have a positive weight, so the division is defined.\<close>

definition fair_share :: "TenantQuota \<Rightarrow> u32 \<Rightarrow> u64" where
  "fair_share quota running =
     saturating_mul (u64_from_u32 running) 1000 div u64_from_u32 (tq_weight quota)"

subsection \<open>Resources of a runner\<close>

definition isolation_available :: "RunnerRecord \<Rightarrow> Isolation \<Rightarrow> bool" where
  "isolation_available runner isolation =
     (case isolation of
        Wasm \<Rightarrow> rn_active_jobs runner = rn_active_wasm_jobs runner \<and>
                rn_active_wasm_jobs runner < rn_max_concurrent_wasm_jobs runner
      | _ \<Rightarrow> rn_active_jobs runner = 0)"

definition available :: "RunnerRecord \<Rightarrow> SchedulingRequirements \<Rightarrow> bool" where
  "available runner req \<longleftrightarrow>
     isolation_available runner (sr_isolation req) \<and>
     sr_cpu req \<le> saturating_sub (rn_logical_cpus runner) (rn_used_cpus runner) \<and>
     sr_memory_bytes req \<le> saturating_sub (rn_memory_bytes runner) (rn_used_memory_bytes runner) \<and>
     sr_storage_bytes req \<le> saturating_sub (rn_storage_bytes runner) (rn_used_storage_bytes runner)"

definition resources_reserve :: "RunnerRecord \<Rightarrow> SchedulingRequirements \<Rightarrow> RunnerRecord" where
  "resources_reserve runner req =
     runner\<lparr>rn_active_jobs := saturating_add (rn_active_jobs runner) 1,
       rn_active_wasm_jobs :=
         (if sr_isolation req = Wasm then saturating_add (rn_active_wasm_jobs runner) 1
          else rn_active_wasm_jobs runner),
       rn_used_cpus := saturating_add (rn_used_cpus runner) (sr_cpu req),
       rn_used_memory_bytes := saturating_add (rn_used_memory_bytes runner) (sr_memory_bytes req),
       rn_used_storage_bytes := saturating_add (rn_used_storage_bytes runner) (sr_storage_bytes req)\<rparr>"

definition resources_release :: "RunnerRecord \<Rightarrow> SchedulingRequirements option \<Rightarrow> RunnerRecord" where
  "resources_release runner requirements =
     (let runner' = runner\<lparr>rn_active_jobs := saturating_sub (rn_active_jobs runner) 1\<rparr> in
      case requirements of
        None \<Rightarrow> runner'
      | Some req \<Rightarrow>
          runner'\<lparr>rn_active_wasm_jobs :=
              (if sr_isolation req = Wasm then saturating_sub (rn_active_wasm_jobs runner) 1
               else rn_active_wasm_jobs runner),
            rn_used_cpus := saturating_sub (rn_used_cpus runner) (sr_cpu req),
            rn_used_memory_bytes := saturating_sub (rn_used_memory_bytes runner) (sr_memory_bytes req),
            rn_used_storage_bytes := saturating_sub (rn_used_storage_bytes runner) (sr_storage_bytes req)\<rparr>)"

definition resources_reset :: "RunnerRecord \<Rightarrow> RunnerRecord" where
  "resources_reset runner =
     runner\<lparr>rn_active_jobs := 0, rn_active_wasm_jobs := 0, rn_used_cpus := 0,
       rn_used_memory_bytes := 0, rn_used_storage_bytes := 0\<rparr>"

subsection \<open>Hard filters and the score\<close>

definition passes_hard_filters :: "QueuedJob \<Rightarrow> RunnerRecord \<Rightarrow> TenantQuota \<Rightarrow> u32 \<Rightarrow> bool" where
  "passes_hard_filters job runner quota running \<longleftrightarrow>
     (let req = qj_requirements job in
      rn_status runner = Online \<and> rn_tenant_id runner = qj_tenant_id job \<and>
      has_capacity quota running \<and> sr_os req = rn_os runner \<and> sr_arch req = rn_arch runner \<and>
      bs_mem (sr_isolation req) (rn_isolation_backends runner) \<and>
      (bt_len (sr_allowed_pools req) = 0 \<or> bs_mem (rn_pool_id runner) (sr_allowed_pools req)) \<and>
      (case sr_region req of None \<Rightarrow> True | Some region \<Rightarrow> rn_region runner = Some region) \<and>
      bs_subset (sr_required_capabilities req) (rn_verified_capabilities runner) \<and>
      available runner req)"

text \<open>\<^verbatim>\<open>i64::try_from(n).unwrap_or(MAX)\<close> and \<^verbatim>\<open>i64::saturating_add\<close>.\<close>

definition i64_from_u64 :: "u64 \<Rightarrow> int" where
  "i64_from_u64 n = min (uint n) (2 ^ 63 - 1)"

definition i64_saturating_add :: "int \<Rightarrow> int \<Rightarrow> int" where
  "i64_saturating_add a b = max (- (2 ^ 63)) (min (2 ^ 63 - 1) (a + b))"

definition score_observation ::
    "QueuedJob \<Rightarrow> RunnerRecord \<Rightarrow> TenantQuota \<Rightarrow> u32 \<Rightarrow> u64 \<Rightarrow> u64 \<Rightarrow> PlacementScoreObservation" where
  "score_observation job runner quota running now_unix_ms priority_aging_interval_ms =
     (let age = saturating_sub now_unix_ms (qj_queued_unix_ms job) div priority_aging_interval_ms;
          locality_hits =
            length (filter (\<lambda>d. bs_mem d (rn_locality runner)) (bt_keys (qj_preferred_content job)));
          tiers = List.map_filter (\<lambda>d. bt_get (rn_package_tiers runner) d)
                    (bt_keys (qj_preferred_content job)) in
      \<lparr>po_fair_share = fair_share quota running,
       po_effective_priority = i64_saturating_add (qj_priority job) (i64_from_u64 age),
       po_preferred_content_hits = try_from_size_or_max locality_hits,
       po_preferred_package_tier = foldr max (map placement_rank tiers) 0,
       po_runner_active_jobs = rn_active_jobs runner\<rparr>)"

text \<open>
  \<^verbatim>\<open>std::cmp::Reverse\<close>: the same values in the opposite order. A score is compared component by
  component; on the 64-bit targets the conversion of a hit count to \<^verbatim>\<open>usize\<close> keeps its value.
\<close>

datatype 'a Reverse = Reverse (reversed: 'a)

instantiation Reverse :: (linorder) linorder
begin

definition less_eq_Reverse :: "'a Reverse \<Rightarrow> 'a Reverse \<Rightarrow> bool" where
  "less_eq_Reverse a b \<longleftrightarrow> reversed b \<le> reversed a"

definition less_Reverse :: "'a Reverse \<Rightarrow> 'a Reverse \<Rightarrow> bool" where
  "less_Reverse a b \<longleftrightarrow> reversed b < reversed a"

instance
  by intro_classes (auto simp: less_eq_Reverse_def less_Reverse_def intro: Reverse.expand)

end

type_synonym ScoreKey = "u64 \<times> int Reverse \<times> u8 Reverse \<times> u64 Reverse \<times> u32 \<times> string"

definition score :: "QueuedJob \<Rightarrow> RunnerRecord \<Rightarrow> TenantQuota \<Rightarrow> u32 \<Rightarrow> u64 \<Rightarrow> u64 \<Rightarrow> ScoreKey" where
  "score job runner quota running now_unix_ms priority_aging_interval_ms =
     (let observation =
            score_observation job runner quota running now_unix_ms priority_aging_interval_ms in
      (po_fair_share observation, Reverse (po_effective_priority observation),
       Reverse (po_preferred_package_tier observation),
       Reverse (po_preferred_content_hits observation), po_runner_active_jobs observation, qj_id job))"

text \<open>\<^verbatim>\<open>Iterator::min_by_key\<close>: the first of the elements with the least key.\<close>

fun min_by_key :: "('a \<Rightarrow> 'k::linorder) \<Rightarrow> 'a list \<Rightarrow> 'a option" where
  "min_by_key key [] = None"
| "min_by_key key (x # xs) =
     (case min_by_key key xs of
        None \<Rightarrow> Some x
      | Some y \<Rightarrow> if key x \<le> key y then Some x else Some y)"

lemma min_by_key_None [simp]: "min_by_key key xs = None \<longleftrightarrow> xs = []"
  by (cases xs) (auto split: option.split)

lemma min_by_key_Some:
  "min_by_key key xs = Some x \<Longrightarrow> x \<in> set xs \<and> (\<forall>y \<in> set xs. key x \<le> key y)"
  by (induction xs arbitrary: x) (auto split: option.splits if_splits intro: order_trans)

subsection \<open>Reserving and releasing\<close>

text \<open>What a runner has in use never exceeds what it has, in any of the three dimensions.\<close>

definition within_capacity :: "RunnerRecord \<Rightarrow> bool" where
  "within_capacity r \<longleftrightarrow>
     rn_used_cpus r \<le> rn_logical_cpus r \<and> rn_used_memory_bytes r \<le> rn_memory_bytes r \<and>
     rn_used_storage_bytes r \<le> rn_storage_bytes r"

lemma saturating_room:
  fixes used :: "'a::len word"
  assumes "used \<le> room" "ask \<le> saturating_sub room used"
  shows "saturating_add used ask = used + ask" "used + ask \<le> room"
    and "saturating_sub (saturating_add used ask) ask = used"
proof -
  have fits: "unat used + unat ask \<le> unat room"
    using assms by (simp add: saturating_sub_def word_le_nat_alt unat_sub)
  then have bound: "unat used + unat ask < 2 ^ LENGTH('a)"
    using unat_less_size [of room] by linarith
  then show add: "saturating_add used ask = used + ask"
    by (simp add: saturating_add_def)
  have sum: "unat (used + ask) = unat used + unat ask"
    using bound by (rule unat_plus_if_fits)
  then show "used + ask \<le> room"
    using fits by (simp add: word_le_nat_alt)
  show "saturating_sub (saturating_add used ask) ask = used"
    using sum by (simp add: add saturating_sub_def word_le_nat_alt)
qed

end
