(* ===== verification/Scheduler.thy ===== *)
theory Scheduler
  imports Scheduler_Model
begin

text \<open>
  The scheduler of \<^verbatim>\<open>crates/scheduler/src/scheduler.rs\<close>: its state and its operations. Every operation
  returns its result and the state the scheduler is left in, also when it fails: an early return
  keeps the changes made before it. Lease identifiers are printed numbers. The time a placement
  took is a parameter of the offer, and the per-tenant counter wraps as a release build does.
\<close>

definition DEFAULT_ACCEPT_WINDOW_MS :: u64 where
  "DEFAULT_ACCEPT_WINDOW_MS = 15000"

definition DEFAULT_LEASE_DURATION_MS :: u64 where
  "DEFAULT_LEASE_DURATION_MS = 60000"

definition PRIORITY_AGING_INTERVAL_MS :: u64 where
  "PRIORITY_AGING_INTERVAL_MS = 60000"

record Scheduler =
  s_installation_fencing_epoch :: u64
  s_runners :: "(string, RunnerRecord) btree"
  s_queue :: "(string, QueuedJob) btree"
  s_leases :: "(string, Lease) btree"
  s_leased_jobs :: "(string, QueuedJob) btree"
  s_active_lease_by_job :: "(string, string) btree"
  s_generation_by_job :: "(string, u64) btree"
  s_quotas :: "(string, TenantQuota) btree"
  s_running_by_tenant :: "(string, u32) btree"
  s_next_lease_id :: u64

text \<open>\<^verbatim>\<open>?\<close> in an operation on the state.\<close>

fun and_then :: "'a scheduled \<times> Scheduler \<Rightarrow> ('a \<Rightarrow> Scheduler \<Rightarrow> 'b scheduled \<times> Scheduler) \<Rightarrow> 'b scheduled \<times> Scheduler" where
  "and_then (Inl e, S) f = (Inl e, S)"
| "and_then (Inr x, S) f = f x S"

definition scheduler_new :: "u64 \<Rightarrow> Scheduler" where
  "scheduler_new epoch =
     \<lparr>s_installation_fencing_epoch = epoch, s_runners = bt_empty, s_queue = bt_empty,
      s_leases = bt_empty, s_leased_jobs = bt_empty, s_active_lease_by_job = bt_empty,
      s_generation_by_job = bt_empty, s_quotas = bt_empty, s_running_by_tenant = bt_empty,
      s_next_lease_id = 1\<rparr>"

definition set_quota :: "Scheduler \<Rightarrow> string \<Rightarrow> TenantQuota \<Rightarrow> unit scheduled \<times> Scheduler" where
  "set_quota S tenant_id quota =
     and_then (quota_validate quota, S) (\<lambda>_ S.
       (Inr (), S\<lparr>s_quotas := bt_insert tenant_id quota (s_quotas S)\<rparr>))"

definition register_runner :: "Scheduler \<Rightarrow> RunnerRecord \<Rightarrow> unit scheduled \<times> Scheduler" where
  "register_runner S runner =
     and_then (runner_validate runner, S) (\<lambda>_ S.
       if bt_contains_key (s_runners S) (rn_id runner) then (Inl (DuplicateRunner (rn_id runner)), S)
       else (Inr (), S\<lparr>s_runners := bt_insert (rn_id runner) runner (s_runners S)\<rparr>))"

definition update_runner_status ::
    "Scheduler \<Rightarrow> string \<Rightarrow> RunnerStatus \<Rightarrow> unit scheduled \<times> Scheduler" where
  "update_runner_status S runner_id status =
     (case bt_get (s_runners S) runner_id of
        None \<Rightarrow> (Inl (UnknownRunner runner_id), S)
      | Some runner \<Rightarrow>
          if rn_status runner = Revoked \<and> status \<noteq> Revoked then (Inl (RunnerRevoked runner_id), S)
          else (Inr (), S\<lparr>s_runners := bt_insert runner_id (runner\<lparr>rn_status := status\<rparr>) (s_runners S)\<rparr>))"

definition enqueue :: "Scheduler \<Rightarrow> QueuedJob \<Rightarrow> unit scheduled \<times> Scheduler" where
  "enqueue S job =
     and_then (job_validate job, S) (\<lambda>_ S.
       if bt_contains_key (s_queue S) (qj_id job) \<or> bt_contains_key (s_active_lease_by_job S) (qj_id job)
       then (Inl (DuplicateJob (qj_id job)), S)
       else (Inr (), S\<lparr>s_queue := bt_insert (qj_id job) job (s_queue S)\<rparr>))"

definition validate_fence ::
    "Scheduler \<Rightarrow> string \<Rightarrow> string \<Rightarrow> u64 \<Rightarrow> u64 \<Rightarrow> unit scheduled" where
  "validate_fence S lease_id runner_id generation epoch =
     res_bind
       (fail_if (epoch \<noteq> s_installation_fencing_epoch S)
         (StaleInstallationEpoch (s_installation_fencing_epoch S) epoch)) (\<lambda>_.
     res_bind (ok_or (bt_get (s_leases S) lease_id) (UnknownLease lease_id)) (\<lambda>lease.
       seq_checks
         [fail_if (le_runner_id lease \<noteq> runner_id) WrongRunner,
          fail_if (le_fencing_generation lease \<noteq> generation)
            (StaleGeneration (le_fencing_generation lease) generation)]))"

definition is_live :: "LeaseState \<Rightarrow> bool" where
  "is_live state \<longleftrightarrow> state = Offered \<or> state = Active \<or> state = CancelRequested"

definition is_running :: "LeaseState \<Rightarrow> bool" where
  "is_running state \<longleftrightarrow> state = Active \<or> state = CancelRequested"

definition decrement :: "(string, u32) btree \<Rightarrow> string \<Rightarrow> (string, u32) btree" where
  "decrement counts key =
     (case bt_get counts key of
        None \<Rightarrow> counts
      | Some n \<Rightarrow>
          let n' = saturating_sub n 1 in
          if n' = 0 then bt_remove key counts else bt_insert key n' counts)"

text \<open>The effect of \<^verbatim>\<open>resources::release\<close> on a runner that may have been removed.\<close>

definition release_on ::
    "(string, RunnerRecord) btree \<Rightarrow> string \<Rightarrow> SchedulingRequirements option \<Rightarrow> (string, RunnerRecord) btree" where
  "release_on runners runner_id requirements =
     (case bt_get runners runner_id of
        None \<Rightarrow> runners
      | Some runner \<Rightarrow> bt_insert runner_id (resources_release runner requirements) runners)"

subsection \<open>Expiry\<close>

definition lease_deadline :: "Lease \<Rightarrow> u64" where
  "lease_deadline lease =
     (if le_state lease = Offered then le_accept_by_unix_ms lease else le_expires_unix_ms lease)"

definition expired_ids :: "Scheduler \<Rightarrow> u64 \<Rightarrow> string list" where
  "expired_ids S now_unix_ms =
     map fst (filter (\<lambda>(_, lease). is_live (le_state lease) \<and> now_unix_ms > lease_deadline lease)
       (bt_entries (s_leases S)))"

definition expire_lease :: "Scheduler \<Rightarrow> string \<Rightarrow> unit scheduled \<times> Scheduler" where
  "expire_lease S lease_id =
     (case bt_get (s_leases S) lease_id of
        None \<Rightarrow> (Inl (UnknownLease lease_id), S)
      | Some lease \<Rightarrow>
          let was_running = is_running (le_state lease);
              was_cancel_requested = (le_state lease = CancelRequested);
              S1 = S\<lparr>s_leases := bt_insert lease_id (lease\<lparr>le_state := Expired\<rparr>) (s_leases S),
                     s_active_lease_by_job := bt_remove (le_job_id lease) (s_active_lease_by_job S)\<rparr>;
              S2 = (if was_running
                    then S1\<lparr>s_running_by_tenant := decrement (s_running_by_tenant S) (le_tenant_id lease),
                            s_runners := release_on (s_runners S) (le_runner_id lease)
                              (map_option qj_requirements (bt_get (s_leased_jobs S) lease_id))\<rparr>
                    else S1) in
          (Inr (),
           case bt_get (s_leased_jobs S) lease_id of
             None \<Rightarrow> S2
           | Some job \<Rightarrow>
               S2\<lparr>s_leased_jobs := bt_remove lease_id (s_leased_jobs S),
                  s_queue :=
                    (if qj_retryable_after_runner_loss job \<and> \<not> was_cancel_requested
                     then bt_insert (qj_id job) job (s_queue S) else s_queue S)\<rparr>))"

fun expire_each :: "string list \<Rightarrow> Scheduler \<Rightarrow> unit scheduled \<times> Scheduler" where
  "expire_each [] S = (Inr (), S)"
| "expire_each (lease_id # ids) S = and_then (expire_lease S lease_id) (\<lambda>_ S. expire_each ids S)"

definition expire :: "Scheduler \<Rightarrow> u64 \<Rightarrow> string list scheduled \<times> Scheduler" where
  "expire S now_unix_ms =
     (let expired = expired_ids S now_unix_ms in
      and_then (expire_each expired S) (\<lambda>_ S. (Inr expired, S)))"

subsection \<open>Offers\<close>

definition unwrap_or :: "'a option \<Rightarrow> 'a \<Rightarrow> 'a" where
  "unwrap_or x d = (case x of None \<Rightarrow> d | Some v \<Rightarrow> v)"

definition hard_filters :: "Scheduler \<Rightarrow> QueuedJob \<Rightarrow> RunnerRecord \<Rightarrow> bool" where
  "hard_filters S job runner =
     passes_hard_filters job runner
       (unwrap_or (bt_get (s_quotas S) (qj_tenant_id job)) quota_default)
       (unwrap_or (bt_get (s_running_by_tenant S) (qj_tenant_id job)) 0)"

definition score_key :: "Scheduler \<Rightarrow> QueuedJob \<Rightarrow> RunnerRecord \<Rightarrow> u64 \<Rightarrow> ScoreKey" where
  "score_key S job runner now_unix_ms =
     score job runner
       (unwrap_or (bt_get (s_quotas S) (qj_tenant_id job)) quota_default)
       (unwrap_or (bt_get (s_running_by_tenant S) (qj_tenant_id job)) 0)
       now_unix_ms PRIORITY_AGING_INTERVAL_MS"

definition scheduler_score_observation ::
    "Scheduler \<Rightarrow> QueuedJob \<Rightarrow> RunnerRecord \<Rightarrow> u64 \<Rightarrow> PlacementScoreObservation" where
  "scheduler_score_observation S job runner now_unix_ms =
     score_observation job runner
       (unwrap_or (bt_get (s_quotas S) (qj_tenant_id job)) quota_default)
       (unwrap_or (bt_get (s_running_by_tenant S) (qj_tenant_id job)) 0)
       now_unix_ms PRIORITY_AGING_INTERVAL_MS"

definition placement_observation ::
    "string \<Rightarrow> u64 \<Rightarrow> u64 \<Rightarrow> string option \<Rightarrow> PlacementScoreObservation option \<Rightarrow> nat \<Rightarrow> PlacementObservation" where
  "placement_observation runner_id queued_jobs compatible_jobs selected_job_id selected_score elapsed_ns =
     \<lparr>pl_runner_id = runner_id, pl_queued_jobs = queued_jobs, pl_compatible_jobs = compatible_jobs,
      pl_selected_job_id = selected_job_id, pl_selected_score = selected_score,
      pl_duration_ns = try_from_size_or_max elapsed_ns\<rparr>"

definition lease_name :: "u64 \<Rightarrow> string" where
  "lease_name n = ''lease-'' @ show_u64 n"

definition new_lease :: "Scheduler \<Rightarrow> QueuedJob \<Rightarrow> string \<Rightarrow> string \<Rightarrow> u64 \<Rightarrow> u64 \<Rightarrow> Lease" where
  "new_lease S job lease_id runner_id generation now_unix_ms =
     \<lparr>le_id = lease_id, le_job_id = qj_id job, le_tenant_id = qj_tenant_id job,
      le_runner_id = runner_id, le_fencing_generation = generation,
      le_installation_fencing_epoch = s_installation_fencing_epoch S,
      le_capsule_digest = qj_capsule_digest job, le_issued_unix_ms = now_unix_ms,
      le_accept_by_unix_ms = saturating_add now_unix_ms DEFAULT_ACCEPT_WINDOW_MS,
      le_expires_unix_ms = saturating_add now_unix_ms DEFAULT_LEASE_DURATION_MS,
      le_state = Offered, le_terminal_result_digest = None\<rparr>"

text \<open>The part of \<^verbatim>\<open>offer_for_runner_observed\<close> from taking the chosen job off the queue.\<close>

definition issue_lease :: "Scheduler \<Rightarrow> string \<Rightarrow> string \<Rightarrow> u64 \<Rightarrow> Lease scheduled \<times> Scheduler" where
  "issue_lease S job_id runner_id now_unix_ms =
     (case bt_get (s_queue S) job_id of
        None \<Rightarrow> (Inl (UnknownJob job_id), S)
      | Some job \<Rightarrow>
          let S1 = S\<lparr>s_queue := bt_remove job_id (s_queue S)\<rparr>;
              current = unwrap_or (bt_get (s_generation_by_job S) (qj_id job)) 0 in
          (case checked_add current 1 of
             None \<Rightarrow> (Inl GenerationOverflow, S1)
           | Some generation \<Rightarrow>
               let S2 = S1\<lparr>s_generation_by_job :=
                          bt_insert (qj_id job) generation (s_generation_by_job S)\<rparr>;
                   lease_id = lease_name (s_next_lease_id S) in
               (case checked_add (s_next_lease_id S) 1 of
                  None \<Rightarrow> (Inl LeaseIdOverflow, S2)
                | Some next_id \<Rightarrow>
                    let lease = new_lease S job lease_id runner_id generation now_unix_ms in
                    (Inr lease,
                     S2\<lparr>s_next_lease_id := next_id,
                        s_active_lease_by_job := bt_insert (qj_id job) lease_id (s_active_lease_by_job S),
                        s_leased_jobs := bt_insert lease_id job (s_leased_jobs S),
                        s_leases := bt_insert lease_id lease (s_leases S)\<rparr>))))"

definition choose_job :: "Scheduler \<Rightarrow> RunnerRecord \<Rightarrow> u64 \<Rightarrow> string option" where
  "choose_job S runner now_unix_ms =
     map_option qj_id
       (min_by_key (\<lambda>job. score_key S job runner now_unix_ms)
         (filter (\<lambda>job. hard_filters S job runner) (bt_values (s_queue S))))"

definition offer_for_runner_observed ::
    "Scheduler \<Rightarrow> string \<Rightarrow> u64 \<Rightarrow> nat \<Rightarrow> ObservedLeaseOffer scheduled \<times> Scheduler" where
  "offer_for_runner_observed S runner_id now_unix_ms elapsed_ns =
     and_then (expire S now_unix_ms) (\<lambda>_ S.
     (case bt_get (s_runners S) runner_id of
        None \<Rightarrow> (Inl (UnknownRunner runner_id), S)
      | Some runner \<Rightarrow>
          let queued_jobs = try_from_size_or_max (bt_len (s_queue S)) in
          if rn_status runner \<noteq> Online then
            (Inr \<lparr>of_lease = None,
                  of_placement = placement_observation runner_id queued_jobs 0 None None elapsed_ns\<rparr>, S)
          else
            let compatible_jobs =
                  try_from_size_or_max
                    (length (filter (\<lambda>job. hard_filters S job runner) (bt_values (s_queue S)))) in
            (case choose_job S runner now_unix_ms of
               None \<Rightarrow>
                 (Inr \<lparr>of_lease = None,
                       of_placement =
                         placement_observation runner_id queued_jobs compatible_jobs None None elapsed_ns\<rparr>, S)
             | Some job_id \<Rightarrow>
                 let selected_score =
                       map_option (\<lambda>job. scheduler_score_observation S job runner now_unix_ms)
                         (bt_get (s_queue S) job_id) in
                 and_then (issue_lease S job_id runner_id now_unix_ms) (\<lambda>lease S'.
                   (Inr \<lparr>of_lease = Some lease,
                         of_placement =
                           placement_observation runner_id queued_jobs compatible_jobs (Some job_id)
                             selected_score elapsed_ns\<rparr>, S')))))"

definition offer_for_runner :: "Scheduler \<Rightarrow> string \<Rightarrow> u64 \<Rightarrow> nat \<Rightarrow> Lease option scheduled \<times> Scheduler" where
  "offer_for_runner S runner_id now_unix_ms elapsed_ns =
     and_then (offer_for_runner_observed S runner_id now_unix_ms elapsed_ns) (\<lambda>offer S.
       (Inr (of_lease offer), S))"

subsection \<open>The life of a lease\<close>

text \<open>
  The shared tail of a lease that ends without a result: its job, if still recorded, goes back to
  the queue.
\<close>

definition return_offer :: "Scheduler \<Rightarrow> string \<Rightarrow> Lease \<Rightarrow> LeaseState \<Rightarrow> Scheduler" where
  "return_offer S lease_id lease state =
     (let S1 = S\<lparr>s_leases := bt_insert lease_id (lease\<lparr>le_state := state\<rparr>) (s_leases S),
                 s_active_lease_by_job := bt_remove (le_job_id lease) (s_active_lease_by_job S)\<rparr> in
      case bt_get (s_leased_jobs S) lease_id of
        None \<Rightarrow> S1
      | Some job \<Rightarrow>
          S1\<lparr>s_leased_jobs := bt_remove lease_id (s_leased_jobs S),
             s_queue := bt_insert (qj_id job) job (s_queue S)\<rparr>)"

definition decide_offer ::
    "Scheduler \<Rightarrow> string \<Rightarrow> string \<Rightarrow> u64 \<Rightarrow> bool \<Rightarrow> u64 \<Rightarrow> LeaseState scheduled \<times> Scheduler" where
  "decide_offer S lease_id runner_id generation accepted now_unix_ms =
     and_then (validate_fence S lease_id runner_id generation (s_installation_fencing_epoch S), S) (\<lambda>_ S.
     (case bt_get (s_leases S) lease_id of
        None \<Rightarrow> (Inl (UnknownLease lease_id), S)
      | Some lease \<Rightarrow>
          if le_state lease \<noteq> Offered then (Inl (InvalidLeaseState Offered (le_state lease)), S)
          else if now_unix_ms > le_accept_by_unix_ms lease
          then (Inl OfferExpired, return_offer S lease_id lease Expired)
          else if accepted then
            let S1 = S\<lparr>s_leases := bt_insert lease_id (lease\<lparr>le_state := Active\<rparr>) (s_leases S),
                       s_running_by_tenant :=
                         bt_insert (le_tenant_id lease)
                           (unwrap_or (bt_get (s_running_by_tenant S) (le_tenant_id lease)) 0 + 1)
                           (s_running_by_tenant S)\<rparr> in
            (case bt_get (s_runners S) runner_id of
               None \<Rightarrow> (Inl (UnknownRunner runner_id), S1)
             | Some runner \<Rightarrow>
                 (case bt_get (s_leased_jobs S) lease_id of
                    None \<Rightarrow> (Inl (UnknownLease lease_id), S1)
                  | Some job \<Rightarrow>
                      (Inr Active,
                       S1\<lparr>s_runners :=
                          bt_insert runner_id (resources_reserve runner (qj_requirements job)) (s_runners S)\<rparr>)))
          else (Inr Rejected, return_offer S lease_id lease Rejected)))"

definition heartbeat ::
    "Scheduler \<Rightarrow> string \<Rightarrow> string \<Rightarrow> u64 \<Rightarrow> u64 \<Rightarrow> u64 \<Rightarrow> u64 scheduled \<times> Scheduler" where
  "heartbeat S lease_id runner_id generation epoch now_unix_ms =
     and_then (validate_fence S lease_id runner_id generation epoch, S) (\<lambda>_ S.
     (case bt_get (s_leases S) lease_id of
        None \<Rightarrow> (Inl (UnknownLease lease_id), S)
      | Some lease \<Rightarrow>
          if \<not> is_running (le_state lease) then (Inl (LeaseNotActive (le_state lease)), S)
          else
            let expires = saturating_add now_unix_ms DEFAULT_LEASE_DURATION_MS in
            (Inr expires,
             S\<lparr>s_leases := bt_insert lease_id (lease\<lparr>le_expires_unix_ms := expires\<rparr>) (s_leases S),
               s_runners :=
                 (case bt_get (s_runners S) runner_id of
                    None \<Rightarrow> s_runners S
                  | Some runner \<Rightarrow>
                      bt_insert runner_id (runner\<lparr>rn_last_heartbeat_unix_ms := now_unix_ms\<rparr>) (s_runners S))\<rparr>)))"

definition request_cancel :: "Scheduler \<Rightarrow> string \<Rightarrow> unit scheduled \<times> Scheduler" where
  "request_cancel S job_id =
     (case bt_get (s_active_lease_by_job S) job_id of
        None \<Rightarrow> (Inl (UnknownJob job_id), S)
      | Some lease_id \<Rightarrow>
          (case bt_get (s_leases S) lease_id of
             None \<Rightarrow> (Inl (UnknownLease lease_id), S)
           | Some lease \<Rightarrow>
               if le_state lease = Offered \<or> le_state lease = Active then
                 (Inr (), S\<lparr>s_leases :=
                    bt_insert lease_id (lease\<lparr>le_state := CancelRequested\<rparr>) (s_leases S)\<rparr>)
               else (Inl (LeaseNotActive (le_state lease)), S)))"

definition complete ::
    "Scheduler \<Rightarrow> string \<Rightarrow> string \<Rightarrow> u64 \<Rightarrow> u64 \<Rightarrow> ContentDigest \<Rightarrow> unit scheduled \<times> Scheduler" where
  "complete S lease_id runner_id generation epoch result_digest =
     and_then (validate_fence S lease_id runner_id generation epoch, S) (\<lambda>_ S.
     (case bt_get (s_leases S) lease_id of
        None \<Rightarrow> (Inl (UnknownLease lease_id), S)
      | Some lease \<Rightarrow>
          if le_state lease = Completed then
            (if le_terminal_result_digest lease = Some result_digest then (Inr (), S)
             else (Inl ConflictingCompletion, S))
          else if \<not> is_running (le_state lease) then (Inl (LeaseNotActive (le_state lease)), S)
          else
            (Inr (),
             S\<lparr>s_leases :=
                 bt_insert lease_id
                   (lease\<lparr>le_state := Completed, le_terminal_result_digest := Some result_digest\<rparr>)
                   (s_leases S),
               s_active_lease_by_job := bt_remove (le_job_id lease) (s_active_lease_by_job S),
               s_running_by_tenant := decrement (s_running_by_tenant S) (le_tenant_id lease),
               s_leased_jobs := bt_remove lease_id (s_leased_jobs S),
               s_runners := release_on (s_runners S) runner_id
                 (map_option qj_requirements (bt_get (s_leased_jobs S) lease_id))\<rparr>)))"

subsection \<open>Restoring an installation\<close>

definition fence_lease :: "Lease \<Rightarrow> Lease" where
  "fence_lease lease = (if is_live (le_state lease) then lease\<lparr>le_state := Expired\<rparr> else lease)"

fun requeue_each :: "string list \<Rightarrow> Scheduler \<Rightarrow> Scheduler" where
  "requeue_each [] S = S"
| "requeue_each (lease_id # ids) S =
     requeue_each ids
       (case bt_get (s_leased_jobs S) lease_id of
          None \<Rightarrow> S
        | Some job \<Rightarrow>
            S\<lparr>s_leased_jobs := bt_remove lease_id (s_leased_jobs S),
              s_queue :=
                (if qj_retryable_after_runner_loss job then bt_insert (qj_id job) job (s_queue S)
                 else s_queue S)\<rparr>)"

definition restore_fencing_epoch :: "Scheduler \<Rightarrow> u64 \<Rightarrow> unit scheduled \<times> Scheduler" where
  "restore_fencing_epoch S new_epoch =
     (if new_epoch \<le> s_installation_fencing_epoch S then (Inl EpochMustIncrease, S)
      else
        let affected =
              map fst (filter (\<lambda>(_, lease). is_live (le_state lease)) (bt_entries (s_leases S))) in
        (Inr (),
         requeue_each affected
           (S\<lparr>s_installation_fencing_epoch := new_epoch,
              s_leases := bt_map_values fence_lease (s_leases S),
              s_active_lease_by_job := bt_empty, s_running_by_tenant := bt_empty,
              s_runners := bt_map_values resources_reset (s_runners S)\<rparr>)))"

definition scheduler_lease :: "Scheduler \<Rightarrow> string \<Rightarrow> Lease option" where
  "scheduler_lease S lease_id = bt_get (s_leases S) lease_id"

end
