(* ===== verification/Scheduler_Safety.thy ===== *)
theory Scheduler_Safety
  imports Scheduler
begin

text \<open>
  What holds of the scheduler along every sequence of calls. A lease is live while it is offered,
  active or being canceled. The invariant ties the lease table to its indexes and to the queue;
  \<open>scheduler_extends\<close> says what a call can do to a lease. Every operation is a composition of five
  changes (ending a lease, queueing a job, adjusting a live lease, issuing a lease and restoring),
  for which both are shown once; the locale \<open>growing_machine\<close> carries them to sequences of calls.
\<close>

subsection \<open>Machines that keep an invariant and grow\<close>

locale growing_machine =
  fixes perform :: "'c \<Rightarrow> 's \<Rightarrow> 's"
    and ok :: "'s \<Rightarrow> bool"
    and grows :: "'s \<Rightarrow> 's \<Rightarrow> bool"
  assumes step_ok: "ok s \<Longrightarrow> ok (perform c s)"
    and step_grows: "ok s \<Longrightarrow> grows s (perform c s)"
    and grows_refl: "grows s s"
    and grows_trans: "grows s t \<Longrightarrow> grows t u \<Longrightarrow> grows s u"
begin

lemma run_ok: "ok s \<Longrightarrow> ok (fold perform cs s)"
  by (induction cs arbitrary: s) (simp_all add: step_ok)

lemma run_grows: "ok s \<Longrightarrow> grows s (fold perform cs s)"
proof (induction cs arbitrary: s)
  case (Cons c cs)
  then show ?case
    using grows_trans [OF step_grows [OF Cons.prems] Cons.IH [OF step_ok [OF Cons.prems]]] by simp
qed (simp add: grows_refl)

end

subsection \<open>The invariant\<close>

definition holds_job :: "Scheduler \<Rightarrow> string \<Rightarrow> Lease \<Rightarrow> bool" where
  "holds_job S lid l \<longleftrightarrow>
     le_installation_fencing_epoch l = s_installation_fencing_epoch S \<and>
     bt_get (s_generation_by_job S) (le_job_id l) = Some (le_fencing_generation l) \<and>
     bt_get (s_active_lease_by_job S) (le_job_id l) = Some lid \<and>
     (\<exists>job. bt_get (s_leased_jobs S) lid = Some job \<and> qj_id job = le_job_id l \<and>
        qj_tenant_id job = le_tenant_id l)"

definition lease_ok :: "Scheduler \<Rightarrow> string \<Rightarrow> Lease \<Rightarrow> bool" where
  "lease_ok S lid l \<longleftrightarrow>
     le_id l = lid \<and> (\<exists>n. lid = lease_name n \<and> n < s_next_lease_id S) \<and>
     le_installation_fencing_epoch l \<le> s_installation_fencing_epoch S \<and>
     (\<exists>g. bt_get (s_generation_by_job S) (le_job_id l) = Some g \<and> le_fencing_generation l \<le> g) \<and>
     (is_live (le_state l) \<longrightarrow> holds_job S lid l)"

definition index_ok :: "Scheduler \<Rightarrow> bool" where
  "index_ok S \<longleftrightarrow>
     (\<forall>j lid. bt_get (s_active_lease_by_job S) j = Some lid \<longrightarrow>
        (\<exists>l. bt_get (s_leases S) lid = Some l \<and> is_live (le_state l) \<and> le_job_id l = j)) \<and>
     (\<forall>lid job. bt_get (s_leased_jobs S) lid = Some job \<longrightarrow>
        (\<exists>l. bt_get (s_leases S) lid = Some l \<and> is_live (le_state l)))"

definition queue_ok :: "Scheduler \<Rightarrow> bool" where
  "queue_ok S \<longleftrightarrow>
     (\<forall>j job. bt_get (s_queue S) j = Some job \<longrightarrow>
        qj_id job = j \<and> bt_get (s_active_lease_by_job S) j = None)"

definition generations_increase :: "(string, Lease) btree \<Rightarrow> bool" where
  "generations_increase leases \<longleftrightarrow>
     (\<forall>m n lm ln. m < n \<longrightarrow> bt_get leases (lease_name m) = Some lm \<longrightarrow>
        bt_get leases (lease_name n) = Some ln \<longrightarrow> le_job_id lm = le_job_id ln \<longrightarrow>
        le_fencing_generation lm < le_fencing_generation ln)"

definition scheduler_ok :: "Scheduler \<Rightarrow> bool" where
  "scheduler_ok S \<longleftrightarrow>
     (\<forall>lid l. bt_get (s_leases S) lid = Some l \<longrightarrow> lease_ok S lid l) \<and>
     index_ok S \<and> queue_ok S \<and> generations_increase (s_leases S)"

text \<open>What a call may do to a lease: nothing at all once it has ended, and never to its identity.\<close>

definition lease_later :: "Lease \<Rightarrow> Lease \<Rightarrow> bool" where
  "lease_later l l' \<longleftrightarrow>
     l' = l\<lparr>le_state := le_state l', le_expires_unix_ms := le_expires_unix_ms l',
            le_terminal_result_digest := le_terminal_result_digest l'\<rparr> \<and>
     (is_live (le_state l) \<or> l' = l)"

definition scheduler_extends :: "Scheduler \<Rightarrow> Scheduler \<Rightarrow> bool" where
  "scheduler_extends S S' \<longleftrightarrow>
     s_installation_fencing_epoch S \<le> s_installation_fencing_epoch S' \<and>
     s_next_lease_id S \<le> s_next_lease_id S' \<and>
     (\<forall>lid l. bt_get (s_leases S) lid = Some l \<longrightarrow>
        (\<exists>l'. bt_get (s_leases S') lid = Some l' \<and> lease_later l l'))"

definition keeps :: "Scheduler \<Rightarrow> Scheduler \<Rightarrow> bool" where
  "keeps S S' \<longleftrightarrow> (scheduler_ok S \<longrightarrow> scheduler_ok S' \<and> scheduler_extends S S')"

lemma lease_name_inject [simp]: "lease_name m = lease_name n \<longleftrightarrow> m = n"
  by (simp add: lease_name_def show_u64_def show_nat_inject word_unat_eq_iff)

lemma lease_later_refl [simp]: "lease_later l l"
  by (simp add: lease_later_def)

lemma lease_later_fields:
  assumes "lease_later l l'"
  shows "le_id l' = le_id l" "le_job_id l' = le_job_id l" "le_tenant_id l' = le_tenant_id l"
    "le_runner_id l' = le_runner_id l" "le_fencing_generation l' = le_fencing_generation l"
    "le_installation_fencing_epoch l' = le_installation_fencing_epoch l"
  using assms unfolding lease_later_def by (auto dest: arg_cong [where f = le_id]
      arg_cong [where f = le_job_id] arg_cong [where f = le_tenant_id] arg_cong [where f = le_runner_id]
      arg_cong [where f = le_fencing_generation] arg_cong [where f = le_installation_fencing_epoch])

lemma lease_later_trans: "lease_later l l' \<Longrightarrow> lease_later l' l'' \<Longrightarrow> lease_later l l''"
  by (cases l; cases l'; cases l'') (auto simp: lease_later_def)

lemma scheduler_extends_refl: "scheduler_extends S S"
  by (auto simp: scheduler_extends_def)

lemma scheduler_extends_trans:
  "scheduler_extends S S' \<Longrightarrow> scheduler_extends S' S'' \<Longrightarrow> scheduler_extends S S''"
  unfolding scheduler_extends_def by (meson lease_later_trans order_trans)

lemma keeps_refl [simp, intro]: "keeps S S"
  by (simp add: keeps_def scheduler_extends_refl)

lemma keeps_trans: "keeps S S' \<Longrightarrow> keeps S' S'' \<Longrightarrow> keeps S S''"
  unfolding keeps_def by (meson scheduler_extends_trans)

subsection \<open>The five changes\<close>

lemmas scheduler_ok_defs =
  scheduler_ok_def lease_ok_def holds_job_def index_ok_def queue_ok_def

text \<open>Runners, quotas and counters are outside the invariant.\<close>

lemma same_core_keeps:
  assumes "s_installation_fencing_epoch S' = s_installation_fencing_epoch S"
    "s_queue S' = s_queue S" "s_leases S' = s_leases S" "s_leased_jobs S' = s_leased_jobs S"
    "s_active_lease_by_job S' = s_active_lease_by_job S"
    "s_generation_by_job S' = s_generation_by_job S" "s_next_lease_id S' = s_next_lease_id S"
  shows "keeps S S'"
  unfolding keeps_def scheduler_ok_defs scheduler_extends_def assms by auto

lemma index_active:
  assumes "scheduler_ok S" "bt_get (s_active_lease_by_job S) j = Some lid"
  obtains l where "bt_get (s_leases S) lid = Some l" "is_live (le_state l)" "le_job_id l = j"
  using assms unfolding scheduler_ok_def index_ok_def by blast

lemma index_leased:
  assumes "scheduler_ok S" "bt_get (s_leased_jobs S) lid = Some job"
  obtains l where "bt_get (s_leases S) lid = Some l" "is_live (le_state l)"
  using assms unfolding scheduler_ok_def index_ok_def by blast

lemma live_holds:
  assumes "scheduler_ok S" "bt_get (s_leases S) lid = Some l" "is_live (le_state l)"
  shows "holds_job S lid l"
  using assms by (simp add: scheduler_ok_def lease_ok_def)

lemma live_unique:
  assumes "scheduler_ok S"
    and "bt_get (s_leases S) lid = Some l" "is_live (le_state l)"
    and "bt_get (s_leases S) lid' = Some l'" "is_live (le_state l')" "le_job_id l = le_job_id l'"
  shows "lid = lid'"
proof -
  have "holds_job S lid l" "holds_job S lid' l'"
    using assms(1-5) by (auto intro: live_holds)
  then show ?thesis
    using assms(6) by (simp add: holds_job_def)
qed

lemma end_lease_keeps:
  assumes l: "bt_get (s_leases S) lid = Some l" "is_live (le_state l)" and ended: "\<not> is_live st"
  shows "keeps S (S\<lparr>s_leases := bt_insert lid (l\<lparr>le_state := st, le_terminal_result_digest := d\<rparr>) (s_leases S),
      s_active_lease_by_job := bt_remove (le_job_id l) (s_active_lease_by_job S),
      s_leased_jobs := bt_remove lid (s_leased_jobs S)\<rparr>)" (is "keeps S ?S'")
  unfolding keeps_def
proof (intro impI conjI)
  assume ok: "scheduler_ok S"
  let ?l' = "l\<lparr>le_state := st, le_terminal_result_digest := d\<rparr>"
  have other: "le_job_id m \<noteq> le_job_id l"
    if "bt_get (s_leases S) k = Some m" "is_live (le_state m)" "k \<noteq> lid" for k m
    using live_unique [OF ok l that(1,2)] that(3) by auto
  have each: "lease_ok ?S' k m" if "bt_get (s_leases ?S') k = Some m" for k m
  proof (cases "k = lid")
    case True
    with that l ok ended show ?thesis by (auto simp: scheduler_ok_def lease_ok_def)
  next
    case False
    with that have m: "bt_get (s_leases S) k = Some m" by simp
    with ok have "lease_ok S k m" by (simp add: scheduler_ok_def)
    with other [OF m] False show ?thesis by (auto simp: lease_ok_def holds_job_def)
  qed
  moreover have "index_ok ?S'"
    unfolding index_ok_def
  proof (intro conjI allI impI)
    fix j k
    assume "bt_get (s_active_lease_by_job ?S') j = Some k"
    then have j: "j \<noteq> le_job_id l" "bt_get (s_active_lease_by_job S) j = Some k"
      by (simp_all split: if_splits)
    from ok j(2) obtain m where "bt_get (s_leases S) k = Some m" "is_live (le_state m)" "le_job_id m = j"
      by (rule index_active)
    then show "\<exists>m. bt_get (s_leases ?S') k = Some m \<and> is_live (le_state m) \<and> le_job_id m = j"
      using j l by auto
  next
    fix k job
    assume "bt_get (s_leased_jobs ?S') k = Some job"
    then have k: "k \<noteq> lid" "bt_get (s_leased_jobs S) k = Some job"
      by (simp_all split: if_splits)
    from ok k(2) obtain m where "bt_get (s_leases S) k = Some m" "is_live (le_state m)"
      by (rule index_leased)
    with k(1) show "\<exists>m. bt_get (s_leases ?S') k = Some m \<and> is_live (le_state m)" by simp
  qed
  moreover have "queue_ok ?S'"
    using ok by (auto simp: scheduler_ok_def queue_ok_def)
  moreover have "generations_increase (s_leases ?S')"
    using ok l by (auto simp: scheduler_ok_def generations_increase_def)
  ultimately show "scheduler_ok ?S'"
    by (simp add: scheduler_ok_def)
  show "scheduler_extends S ?S'"
    using l by (auto simp: scheduler_extends_def lease_later_def)
qed

lemma queue_job_keeps:
  assumes "bt_get (s_active_lease_by_job S) (qj_id job) = None"
  shows "keeps S (S\<lparr>s_queue := bt_insert (qj_id job) job (s_queue S)\<rparr>)"
  using assms by (auto simp: keeps_def scheduler_ok_defs scheduler_extends_def)

lemma adjust_lease_keeps:
  assumes l: "bt_get (s_leases S) lid = Some l" "is_live (le_state l)" and live: "is_live st"
  shows "keeps S (S\<lparr>s_leases := bt_insert lid (l\<lparr>le_state := st, le_expires_unix_ms := e\<rparr>) (s_leases S)\<rparr>)"
    (is "keeps S ?S'")
  unfolding keeps_def
proof (intro impI conjI)
  assume ok: "scheduler_ok S"
  have "lease_ok ?S' k m" if "bt_get (s_leases ?S') k = Some m" for k m
    using that ok l live
    by (cases "k = lid") (auto simp: scheduler_ok_def lease_ok_def holds_job_def)
  moreover have "index_ok ?S'"
    using ok l live by (force simp: scheduler_ok_def index_ok_def)
  moreover have "queue_ok ?S'" "generations_increase (s_leases ?S')"
    using ok l by (auto simp: scheduler_ok_def queue_ok_def generations_increase_def)
  ultimately show "scheduler_ok ?S'"
    by (simp add: scheduler_ok_def)
  show "scheduler_extends S ?S'"
    using l by (auto simp: scheduler_extends_def lease_later_def)
qed

lemma drop_job_keeps: "keeps S (S\<lparr>s_queue := bt_remove j (s_queue S)\<rparr>)"
  by (auto simp: keeps_def scheduler_ok_defs scheduler_extends_def)

lemma bump_generation_keeps:
  assumes "bt_get (s_active_lease_by_job S) j = None"
    and "unwrap_or (bt_get (s_generation_by_job S) j) 0 \<le> g"
  shows "keeps S (S\<lparr>s_generation_by_job := bt_insert j g (s_generation_by_job S)\<rparr>)" (is "keeps S ?S'")
  unfolding keeps_def
proof (intro impI conjI)
  assume ok: "scheduler_ok S"
  have "lease_ok ?S' k m" if "bt_get (s_leases ?S') k = Some m" for k m
  proof -
    have m: "lease_ok S k m"
      using that ok by (simp add: scheduler_ok_def)
    show ?thesis
      using m assms by (auto simp: lease_ok_def holds_job_def unwrap_or_def)
  qed
  then show "scheduler_ok ?S'"
    using ok by (simp add: scheduler_ok_def index_ok_def queue_ok_def)
  show "scheduler_extends S ?S'"
    by (auto simp: scheduler_extends_def)
qed

lemma next_name_unused:
  assumes "scheduler_ok S" "s_next_lease_id S \<le> n"
  shows "bt_get (s_leases S) (lease_name n) = None"
proof (rule ccontr)
  assume "bt_get (s_leases S) (lease_name n) \<noteq> None"
  then obtain l where "lease_ok S (lease_name n) l"
    using assms(1) by (auto simp: scheduler_ok_def)
  then show False
    using assms(2) by (auto simp: lease_ok_def)
qed

lemma add_lease_keeps:
  assumes l: "le_id l = lease_name n" "n = s_next_lease_id S" "le_state l = Offered"
      "le_installation_fencing_epoch l = s_installation_fencing_epoch S"
    and job: "qj_id job = le_job_id l" "qj_tenant_id job = le_tenant_id l"
    and free: "bt_get (s_active_lease_by_job S) (le_job_id l) = None"
      "bt_get (s_queue S) (le_job_id l) = None"
    and generation: "bt_get (s_generation_by_job S) (le_job_id l) = Some (le_fencing_generation l)"
      "\<And>k m. bt_get (s_leases S) k = Some m \<Longrightarrow> le_job_id m = le_job_id l \<Longrightarrow>
        le_fencing_generation m < le_fencing_generation l"
    and next_id: "n < n'"
  shows "keeps S (S\<lparr>s_next_lease_id := n',
      s_active_lease_by_job := bt_insert (le_job_id l) (lease_name n) (s_active_lease_by_job S),
      s_leased_jobs := bt_insert (lease_name n) job (s_leased_jobs S),
      s_leases := bt_insert (lease_name n) l (s_leases S)\<rparr>)" (is "keeps S ?S'")
  unfolding keeps_def
proof (intro impI conjI)
  assume ok: "scheduler_ok S"
  have fresh: "bt_get (s_leases S) (lease_name k) = None" if "n \<le> k" for k
    using next_name_unused [OF ok] that l(2) by simp
  have "lease_ok ?S' k m" if m: "bt_get (s_leases ?S') k = Some m" for k m
  proof (cases "k = lease_name n")
    case True
    with m l job generation(1) next_id show ?thesis
      by (auto simp: lease_ok_def holds_job_def)
  next
    case False
    with m ok have "lease_ok S k m" by (simp add: scheduler_ok_def)
    with False free(1) next_id l(2) show ?thesis
      by (auto simp: lease_ok_def holds_job_def intro: less_trans)
  qed
  moreover have "index_ok ?S'"
    unfolding index_ok_def
  proof (intro conjI allI impI)
    fix j k
    assume j: "bt_get (s_active_lease_by_job ?S') j = Some k"
    show "\<exists>m. bt_get (s_leases ?S') k = Some m \<and> is_live (le_state m) \<and> le_job_id m = j"
    proof (cases "j = le_job_id l")
      case True
      with j l(3) show ?thesis by (simp add: is_live_def)
    next
      case False
      with j have "bt_get (s_active_lease_by_job S) j = Some k" by simp
      with ok obtain m where m: "bt_get (s_leases S) k = Some m" "is_live (le_state m)" "le_job_id m = j"
        by (rule index_active)
      then show ?thesis
        using fresh [of n] by (cases "k = lease_name n") auto
    qed
  next
    fix k q
    assume k: "bt_get (s_leased_jobs ?S') k = Some q"
    show "\<exists>m. bt_get (s_leases ?S') k = Some m \<and> is_live (le_state m)"
    proof (cases "k = lease_name n")
      case True
      with l(3) show ?thesis by (simp add: is_live_def)
    next
      case False
      with k have "bt_get (s_leased_jobs S) k = Some q" by simp
      with ok obtain m where "bt_get (s_leases S) k = Some m" "is_live (le_state m)"
        by (rule index_leased)
      with False show ?thesis by simp
    qed
  qed
  moreover have "queue_ok ?S'"
    using ok free(2) by (auto simp: scheduler_ok_def queue_ok_def)
  moreover have "generations_increase (s_leases ?S')"
    unfolding generations_increase_def
  proof (intro allI impI)
    fix a b la lb
    assume ab: "a < b" "bt_get (s_leases ?S') (lease_name a) = Some la"
      "bt_get (s_leases ?S') (lease_name b) = Some lb" "le_job_id la = le_job_id lb"
    show "le_fencing_generation la < le_fencing_generation lb"
    proof (cases "b = n")
      case True
      with ab generation(2) show ?thesis by (auto split: if_splits)
    next
      case False
      with ab have b: "bt_get (s_leases S) (lease_name b) = Some lb" by simp
      have "a \<noteq> n"
        using fresh [of b] b ab(1) by (auto simp: less_imp_le)
      with ab b ok show ?thesis
        by (auto simp: scheduler_ok_def generations_increase_def)
    qed
  qed
  ultimately show "scheduler_ok ?S'"
    by (simp add: scheduler_ok_def)
  show "scheduler_extends S ?S'"
    using fresh [of n] next_id l(2) by (auto simp: scheduler_extends_def)
qed

subsection \<open>Every operation keeps the invariant\<close>

lemma and_then_keeps:
  assumes "keeps S (snd m)" "\<And>x. fst m = Inr x \<Longrightarrow> keeps (snd m) (snd (f x (snd m)))"
  shows "keeps S (snd (and_then m f))"
proof -
  obtain r S' where m: "m = (r, S')" by force
  show ?thesis
  proof (cases r)
    case (Inl e)
    with m assms(1) show ?thesis by simp
  next
    case (Inr x)
    with m assms show ?thesis by (simp add: keeps_trans)
  qed
qed

lemma set_quota_keeps: "keeps S (snd (set_quota S tenant quota))"
  unfolding set_quota_def by (rule and_then_keeps) (simp_all add: same_core_keeps)

lemma register_runner_keeps: "keeps S (snd (register_runner S runner))"
  unfolding register_runner_def by (rule and_then_keeps) (simp_all add: same_core_keeps)

lemma update_runner_status_keeps: "keeps S (snd (update_runner_status S runner_id status))"
  by (auto simp: update_runner_status_def same_core_keeps split: option.split)

lemma enqueue_keeps: "keeps S (snd (enqueue S job))"
  unfolding enqueue_def by (rule and_then_keeps) (auto simp: queue_job_keeps)

text \<open>Ending a lease and queueing its job again, with whatever happens to runners and counters.\<close>

lemma end_and_queue_keeps:
  assumes l: "bt_get (s_leases S) lid = Some l" "is_live (le_state l)" and ended: "\<not> is_live st"
    and job: "bt_get (s_leased_jobs S) lid = Some job" "qj_id job = le_job_id l"
  shows "keeps S (S\<lparr>s_leases := bt_insert lid (l\<lparr>le_state := st\<rparr>) (s_leases S),
      s_active_lease_by_job := bt_remove (le_job_id l) (s_active_lease_by_job S),
      s_running_by_tenant := counts, s_runners := runners,
      s_leased_jobs := bt_remove lid (s_leased_jobs S),
      s_queue := (if again then bt_insert (qj_id job) job (s_queue S) else s_queue S)\<rparr>)" (is "keeps S ?S'")
proof -
  let ?E = "S\<lparr>s_leases := bt_insert lid (l\<lparr>le_state := st, le_terminal_result_digest := le_terminal_result_digest l\<rparr>) (s_leases S),
      s_active_lease_by_job := bt_remove (le_job_id l) (s_active_lease_by_job S),
      s_leased_jobs := bt_remove lid (s_leased_jobs S)\<rparr>"
  let ?Q = "?E\<lparr>s_queue := (if again then bt_insert (qj_id job) job (s_queue S) else s_queue S)\<rparr>"
  have "keeps S ?E"
    using l ended by (rule end_lease_keeps)
  moreover have "keeps ?E ?Q"
    using queue_job_keeps [of ?E job] job(2) by (cases again) simp_all
  moreover have "keeps ?Q ?S'"
    by (rule same_core_keeps) simp_all
  ultimately show ?thesis
    by (blast intro: keeps_trans)
qed

lemma leased_job:
  assumes "scheduler_ok S" "bt_get (s_leases S) lid = Some l" "is_live (le_state l)"
  obtains job where "bt_get (s_leased_jobs S) lid = Some job" "qj_id job = le_job_id l"
    "qj_tenant_id job = le_tenant_id l"
  using live_holds [OF assms] unfolding holds_job_def by blast

lemma expire_lease_keeps:
  assumes "bt_get (s_leases S) lid = Some l" "is_live (le_state l)"
  shows "keeps S (snd (expire_lease S lid))"
  unfolding keeps_def
proof
  assume ok: "scheduler_ok S"
  from ok assms obtain job where job: "bt_get (s_leased_jobs S) lid = Some job" "qj_id job = le_job_id l"
    by (rule leased_job)
  have "keeps S (snd (expire_lease S lid))"
  proof (cases "is_running (le_state l)")
    case True
    then show ?thesis
      using end_and_queue_keeps [OF assms _ job, where st = Expired
          and counts = "decrement (s_running_by_tenant S) (le_tenant_id l)"
          and runners = "release_on (s_runners S) (le_runner_id l) (Some (qj_requirements job))"
          and again = "qj_retryable_after_runner_loss job \<and> le_state l \<noteq> CancelRequested"] assms job
      by (simp add: expire_lease_def Let_def is_live_def)
  next
    case False
    then show ?thesis
      using end_and_queue_keeps [OF assms _ job, where st = Expired
          and counts = "s_running_by_tenant S" and runners = "s_runners S"
          and again = "qj_retryable_after_runner_loss job \<and> le_state l \<noteq> CancelRequested"] assms job
      by (simp add: expire_lease_def Let_def is_live_def)
  qed
  with ok show "scheduler_ok (snd (expire_lease S lid)) \<and> scheduler_extends S (snd (expire_lease S lid))"
    by (simp add: keeps_def)
qed

lemma expire_lease_result:
  assumes "bt_get (s_leases S) lid = Some l"
  shows "fst (expire_lease S lid) = Inr ()"
    "s_leases (snd (expire_lease S lid)) = bt_insert lid (l\<lparr>le_state := Expired\<rparr>) (s_leases S)"
  using assms by (auto simp: expire_lease_def Let_def split: option.split)

lemma expire_each_leases:
  assumes "distinct ids" "\<forall>i \<in> set ids. \<exists>l. bt_get (s_leases S) i = Some l \<and> is_live (le_state l)"
  shows "keeps S (snd (expire_each ids S)) \<and> fst (expire_each ids S) = Inr () \<and>
    (\<forall>k. bt_get (s_leases (snd (expire_each ids S))) k =
       (if k \<in> set ids then map_option (\<lambda>l. l\<lparr>le_state := Expired\<rparr>) (bt_get (s_leases S) k)
        else bt_get (s_leases S) k))"
  using assms
proof (induction ids arbitrary: S)
  case (Cons i ids)
  then obtain l where l: "bt_get (s_leases S) i = Some l" "is_live (le_state l)"
    by auto
  obtain S' where S': "expire_lease S i = (Inr (), S')"
    using expire_lease_result(1) [OF l(1)] by (metis prod.collapse)
  have leases: "s_leases S' = bt_insert i (l\<lparr>le_state := Expired\<rparr>) (s_leases S)"
    using expire_lease_result(2) [OF l(1)] S' by simp
  have "keeps S S'"
    using expire_lease_keeps [OF l] S' by simp
  moreover have "keeps S' (snd (expire_each ids S')) \<and> fst (expire_each ids S') = Inr () \<and>
    (\<forall>k. bt_get (s_leases (snd (expire_each ids S'))) k =
       (if k \<in> set ids then map_option (\<lambda>l. l\<lparr>le_state := Expired\<rparr>) (bt_get (s_leases S') k)
        else bt_get (s_leases S') k))"
    using Cons.prems leases by (intro Cons.IH) auto
  ultimately show ?case
    using Cons.prems(1) l(1) by (auto simp: S' leases intro: keeps_trans)
qed simp

lemma expired_ids_set:
  "i \<in> set (expired_ids S now) \<longleftrightarrow>
     (\<exists>l. bt_get (s_leases S) i = Some l \<and> is_live (le_state l) \<and> now > lease_deadline l)"
  by (force simp: expired_ids_def bt_get_entries)

lemma expired_ids_distinct: "distinct (expired_ids S now)"
  unfolding expired_ids_def using bt_keys_distinct [of "s_leases S"]
  by (auto simp: bt_keys_def distinct_map intro: inj_on_subset)

lemma expire_result:
  shows "keeps S (snd (expire S now))" "fst (expire S now) = Inr (expired_ids S now)"
    "bt_get (s_leases (snd (expire S now))) k =
      map_option (\<lambda>l. if is_live (le_state l) \<and> now > lease_deadline l then l\<lparr>le_state := Expired\<rparr> else l)
        (bt_get (s_leases S) k)"
proof -
  have "\<forall>i \<in> set (expired_ids S now). \<exists>l. bt_get (s_leases S) i = Some l \<and> is_live (le_state l)"
    by (auto simp: expired_ids_set)
  note each = expire_each_leases [OF expired_ids_distinct this]
  obtain S' where S': "expire_each (expired_ids S now) S = (Inr (), S')"
    using each by (metis prod.collapse)
  then have "expire S now = (Inr (expired_ids S now), S')"
    by (simp add: expire_def)
  then show "keeps S (snd (expire S now))" "fst (expire S now) = Inr (expired_ids S now)"
    "bt_get (s_leases (snd (expire S now))) k =
      map_option (\<lambda>l. if is_live (le_state l) \<and> now > lease_deadline l then l\<lparr>le_state := Expired\<rparr> else l)
        (bt_get (s_leases S) k)"
    using each S' by (auto simp: expired_ids_set map_option_case split: option.splits if_splits)
qed

lemma return_offer_keeps:
  assumes l: "bt_get (s_leases S) lid = Some l" "is_live (le_state l)" and ended: "\<not> is_live st"
  shows "keeps S (return_offer S lid l st)"
  unfolding keeps_def
proof
  assume ok: "scheduler_ok S"
  from ok l obtain job where job: "bt_get (s_leased_jobs S) lid = Some job" "qj_id job = le_job_id l"
    by (rule leased_job)
  have "keeps S (return_offer S lid l st)"
    using end_and_queue_keeps [OF l ended job, where counts = "s_running_by_tenant S"
        and runners = "s_runners S" and again = True] job
    by (simp add: return_offer_def)
  with ok show "scheduler_ok (return_offer S lid l st) \<and> scheduler_extends S (return_offer S lid l st)"
    by (simp add: keeps_def)
qed

lemma adjust_core_keeps:
  assumes l: "bt_get (s_leases S) lid = Some l" "is_live (le_state l)" "is_live st"
  shows "keeps S (S\<lparr>s_leases := bt_insert lid (l\<lparr>le_state := st, le_expires_unix_ms := e\<rparr>) (s_leases S),
      s_running_by_tenant := counts, s_runners := runners\<rparr>)"
  by (rule keeps_trans [OF adjust_lease_keeps [OF l]], rule same_core_keeps) simp_all

lemma fence_lease_found:
  assumes "validate_fence S lid rid g epoch = Inr ()"
  obtains l where "bt_get (s_leases S) lid = Some l" "le_runner_id l = rid" "le_fencing_generation l = g"
    "epoch = s_installation_fencing_epoch S"
  using assms by (auto simp: validate_fence_def res_simps)

lemma unit_result_cases:
  fixes r :: "unit scheduled"
  obtains (failed) e where "r = Inl e" | (passed) "r = Inr ()"
  by (cases r) auto

lemma decide_offer_keeps: "keeps S (snd (decide_offer S lid rid g accepted now))"
proof (cases "validate_fence S lid rid g (s_installation_fencing_epoch S)" rule: unit_result_cases)
  case (failed e)
  then show ?thesis by (simp add: decide_offer_def)
next
  case passed
  then obtain l where l: "bt_get (s_leases S) lid = Some l"
    by (rule fence_lease_found)
  show ?thesis
  proof (cases "le_state l = Offered")
    case True
    then have live: "is_live (le_state l)" by (simp add: is_live_def)
    have accept: "keeps S (S\<lparr>s_leases := bt_insert lid (l\<lparr>le_state := Active\<rparr>) (s_leases S),
        s_running_by_tenant := counts, s_runners := runners\<rparr>)" for counts runners
      using adjust_core_keeps [OF l live, where st = Active and e = "le_expires_unix_ms l"] by (simp add: is_live_def)
    show ?thesis
      using passed l True accept [where runners = "s_runners S"] accept
        return_offer_keeps [OF l live, of Expired] return_offer_keeps [OF l live, of Rejected]
      by (simp add: decide_offer_def Let_def is_live_def split: option.split)
  qed (use passed l in \<open>simp add: decide_offer_def\<close>)
qed

lemma heartbeat_keeps: "keeps S (snd (heartbeat S lid rid g epoch now))"
proof (cases "validate_fence S lid rid g epoch" rule: unit_result_cases)
  case (failed e)
  then show ?thesis by (simp add: heartbeat_def)
next
  case passed
  then obtain l where l: "bt_get (s_leases S) lid = Some l"
    by (rule fence_lease_found)
  show ?thesis
  proof (cases "is_running (le_state l)")
    case True
    then have live: "is_live (le_state l)" by (auto simp: is_live_def is_running_def)
    show ?thesis
      using passed l True adjust_core_keeps [OF l live live, where counts = "s_running_by_tenant S"]
      by (simp add: heartbeat_def Let_def)
  qed (use passed l in \<open>simp add: heartbeat_def\<close>)
qed

lemma request_cancel_keeps: "keeps S (snd (request_cancel S job_id))"
proof (cases "bt_get (s_active_lease_by_job S) job_id")
  case None
  then show ?thesis by (simp add: request_cancel_def)
next
  case lid: (Some lid)
  show ?thesis
  proof (cases "bt_get (s_leases S) lid")
    case None
    with lid show ?thesis by (simp add: request_cancel_def)
  next
    case l: (Some l)
    show ?thesis
    proof (cases "le_state l = Offered \<or> le_state l = Active")
      case True
      then have live: "is_live (le_state l)" by (auto simp: is_live_def)
      then show ?thesis
        using lid l True adjust_lease_keeps [OF l live, where st = CancelRequested and e = "le_expires_unix_ms l"]
        by (simp add: request_cancel_def is_live_def)
    qed (use lid l in \<open>simp add: request_cancel_def\<close>)
  qed
qed

lemma complete_keeps: "keeps S (snd (complete S lid rid g epoch d))"
proof (cases "validate_fence S lid rid g epoch" rule: unit_result_cases)
  case (failed e)
  then show ?thesis by (simp add: complete_def)
next
  case passed
  then obtain l where l: "bt_get (s_leases S) lid = Some l"
    by (rule fence_lease_found)
  show ?thesis
  proof (cases "is_running (le_state l)")
    case True
    then have live: "is_live (le_state l)" by (auto simp: is_live_def is_running_def)
    let ?E = "S\<lparr>s_leases := bt_insert lid (l\<lparr>le_state := Completed, le_terminal_result_digest := Some d\<rparr>) (s_leases S),
      s_active_lease_by_job := bt_remove (le_job_id l) (s_active_lease_by_job S),
      s_leased_jobs := bt_remove lid (s_leased_jobs S)\<rparr>"
    have "keeps S ?E"
      using end_lease_keeps [OF l live] by (simp add: is_live_def)
    moreover have "keeps ?E (snd (complete S lid rid g epoch d))"
      using passed l True by (intro same_core_keeps) (auto simp: complete_def is_running_def)
    ultimately show ?thesis by (rule keeps_trans)
  next
    case False
    then show ?thesis
      using passed l by (simp add: complete_def)
  qed
qed

lemma issue_lease_keeps: "keeps S (snd (issue_lease S job_id rid now))"
proof (cases "bt_get (s_queue S) job_id")
  case None
  then show ?thesis by (simp add: issue_lease_def)
next
  case job: (Some job)
  show ?thesis
    unfolding keeps_def
  proof
    assume ok: "scheduler_ok S"
    with job have id: "qj_id job = job_id" "bt_get (s_active_lease_by_job S) job_id = None"
      by (auto simp: scheduler_ok_def queue_ok_def)
    let ?S1 = "S\<lparr>s_queue := bt_remove job_id (s_queue S)\<rparr>"
    let ?current = "unwrap_or (bt_get (s_generation_by_job S) job_id) 0"
    have S1: "keeps S ?S1" by (rule drop_job_keeps)
    have "keeps S (snd (issue_lease S job_id rid now))"
    proof (cases "checked_add ?current 1")
      case None
      with job id S1 show ?thesis by (simp add: issue_lease_def Let_def)
    next
      case generation: (Some g)
      let ?S2 = "?S1\<lparr>s_generation_by_job := bt_insert job_id g (s_generation_by_job S)\<rparr>"
      have less: "?current < g"
        using generation by (simp add: checked_add_Some word_less_nat_alt)
      then have "keeps ?S1 ?S2"
        using bump_generation_keeps [of ?S1 job_id g] id(2) by simp
      with S1 have S2: "keeps S ?S2" by (rule keeps_trans)
      show ?thesis
      proof (cases "checked_add (s_next_lease_id S) 1")
        case None
        with job id generation S2 show ?thesis by (simp add: issue_lease_def Let_def)
      next
        case next_id: (Some n)
        let ?l = "new_lease S job (lease_name (s_next_lease_id S)) rid g now"
        have older: "le_fencing_generation m < g"
          if m: "bt_get (s_leases S) k = Some m" "le_job_id m = job_id" for k m
        proof -
          obtain g' where "bt_get (s_generation_by_job S) job_id = Some g'" "le_fencing_generation m \<le> g'"
            using ok m by (auto simp: scheduler_ok_def lease_ok_def)
          with less show ?thesis by (simp add: unwrap_or_def)
        qed
        have fields: "le_id ?l = lease_name (s_next_lease_id S)" "le_job_id ?l = job_id"
          "le_fencing_generation ?l = g" "le_tenant_id ?l = qj_tenant_id job" "le_state ?l = Offered"
          "le_installation_fencing_epoch ?l = s_installation_fencing_epoch S"
          by (simp_all add: new_lease_def id)
        have "keeps ?S2 (?S2\<lparr>s_next_lease_id := n,
            s_active_lease_by_job := bt_insert (le_job_id ?l) (lease_name (s_next_lease_id S)) (s_active_lease_by_job ?S2),
            s_leased_jobs := bt_insert (lease_name (s_next_lease_id S)) job (s_leased_jobs ?S2),
            s_leases := bt_insert (lease_name (s_next_lease_id S)) ?l (s_leases ?S2)\<rparr>)"
        proof (rule add_lease_keeps)
          show "s_next_lease_id S < n"
            using next_id by (simp add: checked_add_Some word_less_nat_alt)
          show "le_fencing_generation m < le_fencing_generation ?l"
            if "bt_get (s_leases ?S2) k = Some m" "le_job_id m = le_job_id ?l" for k m
            using older that by (simp add: fields)
        qed (use id in \<open>simp_all add: fields\<close>)
        moreover have "snd (issue_lease S job_id rid now) = ?S2\<lparr>s_next_lease_id := n,
            s_active_lease_by_job := bt_insert (le_job_id ?l) (lease_name (s_next_lease_id S)) (s_active_lease_by_job ?S2),
            s_leased_jobs := bt_insert (lease_name (s_next_lease_id S)) job (s_leased_jobs ?S2),
            s_leases := bt_insert (lease_name (s_next_lease_id S)) ?l (s_leases ?S2)\<rparr>"
          using job id generation next_id by (simp add: issue_lease_def Let_def fields)
        ultimately have "keeps ?S2 (snd (issue_lease S job_id rid now))" by simp
        with S2 show ?thesis by (rule keeps_trans)
      qed
    qed
    with ok show "scheduler_ok (snd (issue_lease S job_id rid now)) \<and>
        scheduler_extends S (snd (issue_lease S job_id rid now))"
      by (simp add: keeps_def)
  qed
qed

lemma expire_split:
  obtains S' where "expire S now = (Inr (expired_ids S now), S')" "keeps S S'"
  using expire_result(1,2) [of S now] by (metis prod.collapse)

lemma offer_keeps: "keeps S (snd (offer_for_runner_observed S rid now elapsed))"
proof -
  obtain S' where S': "expire S now = (Inr (expired_ids S now), S')" "keeps S S'"
    by (rule expire_split)
  have issue: "keeps S' (snd (and_then (issue_lease S' j rid now) (\<lambda>l S''. (Inr (f l), S''))))"
    for j and f :: "Lease \<Rightarrow> ObservedLeaseOffer"
    by (rule and_then_keeps) (simp_all add: issue_lease_keeps)
  have "keeps S' (snd (offer_for_runner_observed S rid now elapsed))"
  proof (cases "bt_get (s_runners S') rid")
    case None
    then show ?thesis by (simp add: offer_for_runner_observed_def S')
  next
    case (Some runner)
    then show ?thesis
      by (cases "choose_job S' runner now")
        (simp_all add: offer_for_runner_observed_def S' Let_def issue)
  qed
  with S'(2) show ?thesis by (rule keeps_trans)
qed

lemma requeue_each_fields:
  "s_installation_fencing_epoch (requeue_each ids S) = s_installation_fencing_epoch S"
  "s_leases (requeue_each ids S) = s_leases S"
  "s_active_lease_by_job (requeue_each ids S) = s_active_lease_by_job S"
  "s_generation_by_job (requeue_each ids S) = s_generation_by_job S"
  "s_next_lease_id (requeue_each ids S) = s_next_lease_id S"
  "s_runners (requeue_each ids S) = s_runners S"
  "s_running_by_tenant (requeue_each ids S) = s_running_by_tenant S"
  "bt_get (s_leased_jobs (requeue_each ids S)) k =
     (if k \<in> set ids then None else bt_get (s_leased_jobs S) k)"
  by (induction ids arbitrary: S) (auto split: option.splits)

lemma requeue_each_queue:
  "bt_get (s_queue (requeue_each ids S)) j = Some job \<Longrightarrow>
     bt_get (s_queue S) j = Some job \<or> qj_id job = j"
proof (induction ids arbitrary: S)
  case (Cons i ids)
  show ?case
  proof (cases "bt_get (s_leased_jobs S) i")
    case None
    with Cons show ?thesis by simp
  next
    case (Some q)
    with Cons.IH [OF Cons.prems [unfolded requeue_each.simps]] show ?thesis
      by (auto split: if_splits)
  qed
qed simp

lemma restore_keeps: "keeps S (snd (restore_fencing_epoch S new_epoch))"
proof (cases "new_epoch \<le> s_installation_fencing_epoch S")
  case True
  then show ?thesis by (simp add: restore_fencing_epoch_def)
next
  case False
  let ?ids = "map fst (filter (\<lambda>(_, l). is_live (le_state l)) (bt_entries (s_leases S)))"
  let ?S' = "snd (restore_fencing_epoch S new_epoch)"
  have ids: "k \<in> set ?ids \<longleftrightarrow> (\<exists>l. bt_get (s_leases S) k = Some l \<and> is_live (le_state l))" for k
    by (force simp: bt_get_entries)
  have fields: "s_leases ?S' = bt_map_values fence_lease (s_leases S)"
    "s_active_lease_by_job ?S' = bt_empty" "s_generation_by_job ?S' = s_generation_by_job S"
    "s_next_lease_id ?S' = s_next_lease_id S" "s_installation_fencing_epoch ?S' = new_epoch"
    "bt_get (s_leased_jobs ?S') k = (if k \<in> set ?ids then None else bt_get (s_leased_jobs S) k)" for k
    using False by (simp_all add: restore_fencing_epoch_def Let_def requeue_each_fields)
  have queue: "bt_get (s_queue ?S') j = Some job \<Longrightarrow> bt_get (s_queue S) j = Some job \<or> qj_id job = j" for j job
    using False by (auto simp: restore_fencing_epoch_def Let_def dest: requeue_each_queue)
  have fenced: "\<not> is_live (le_state (fence_lease l))" "lease_later l (fence_lease l)" for l
    by (auto simp: fence_lease_def is_live_def lease_later_def)
  show ?thesis
    unfolding keeps_def
  proof (intro impI conjI)
    assume ok: "scheduler_ok S"
    have "lease_ok ?S' k m" if m: "bt_get (s_leases ?S') k = Some m" for k m
    proof -
      from m obtain l where l: "bt_get (s_leases S) k = Some l" "m = fence_lease l"
        by (auto simp: fields(1))
      with ok have "lease_ok S k l" by (simp add: scheduler_ok_def)
      with l(2) fenced(1) [of l] lease_later_fields [OF fenced(2) [of l]] False show ?thesis
        by (auto simp: lease_ok_def fields)
    qed
    moreover have "bt_get (s_leased_jobs ?S') k = None" for k
    proof (cases "bt_get (s_leased_jobs S) k")
      case (Some job)
      with ok obtain l where "bt_get (s_leases S) k = Some l" "is_live (le_state l)"
        by (rule index_leased)
      then have "k \<in> set ?ids" unfolding ids by blast
      then show ?thesis unfolding fields(6) by simp
    qed (simp add: fields(6))
    then have "index_ok ?S'"
      by (simp add: index_ok_def fields(2))
    moreover have "queue_ok ?S'"
      unfolding queue_ok_def fields(2)
    proof (intro allI impI conjI)
      fix j job
      assume "bt_get (s_queue ?S') j = Some job"
      then show "qj_id job = j"
        using queue [of j job] ok by (auto simp: scheduler_ok_def queue_ok_def)
    qed simp
    moreover have "generations_increase (s_leases ?S')"
      using ok lease_later_fields [OF fenced(2)]
      by (auto simp: scheduler_ok_def generations_increase_def fields(1))
    ultimately show "scheduler_ok ?S'"
      by (simp add: scheduler_ok_def)
    show "scheduler_extends S ?S'"
      using False fenced(2) by (auto simp: scheduler_extends_def fields)
  qed
qed

subsection \<open>Sequences of calls\<close>

datatype SchedulerCall =
    Call_Set_Quota string TenantQuota
  | Call_Register RunnerRecord
  | Call_Status string RunnerStatus
  | Call_Enqueue QueuedJob
  | Call_Offer string u64 nat
  | Call_Decide string string u64 bool u64
  | Call_Heartbeat string string u64 u64 u64
  | Call_Cancel string
  | Call_Complete string string u64 u64 ContentDigest
  | Call_Restore u64
  | Call_Expire u64

fun perform :: "SchedulerCall \<Rightarrow> Scheduler \<Rightarrow> Scheduler" where
  "perform (Call_Set_Quota tenant quota) S = snd (set_quota S tenant quota)"
| "perform (Call_Register runner) S = snd (register_runner S runner)"
| "perform (Call_Status rid status) S = snd (update_runner_status S rid status)"
| "perform (Call_Enqueue job) S = snd (enqueue S job)"
| "perform (Call_Offer rid now elapsed) S = snd (offer_for_runner_observed S rid now elapsed)"
| "perform (Call_Decide lid rid g accepted now) S = snd (decide_offer S lid rid g accepted now)"
| "perform (Call_Heartbeat lid rid g epoch now) S = snd (heartbeat S lid rid g epoch now)"
| "perform (Call_Cancel job) S = snd (request_cancel S job)"
| "perform (Call_Complete lid rid g epoch d) S = snd (complete S lid rid g epoch d)"
| "perform (Call_Restore epoch) S = snd (restore_fencing_epoch S epoch)"
| "perform (Call_Expire now) S = snd (expire S now)"

lemma perform_keeps: "keeps S (perform c S)"
  by (cases c)
    (simp_all add: set_quota_keeps register_runner_keeps update_runner_status_keeps enqueue_keeps
      offer_keeps decide_offer_keeps heartbeat_keeps request_cancel_keeps complete_keeps
      restore_keeps expire_result)

interpretation calls: growing_machine perform scheduler_ok scheduler_extends
  using perform_keeps scheduler_extends_refl scheduler_extends_trans
  by unfold_locales (auto simp: keeps_def)

abbreviation scheduler_run :: "SchedulerCall list \<Rightarrow> Scheduler \<Rightarrow> Scheduler" where
  "scheduler_run \<equiv> fold perform"

lemma scheduler_new_ok: "scheduler_ok (scheduler_new epoch)"
  by (simp add: scheduler_new_def scheduler_ok_defs generations_increase_def)

lemma live_is_newest:
  assumes ok: "scheduler_ok S" and l: "bt_get (s_leases S) lid = Some l" "is_live (le_state l)"
    and other: "bt_get (s_leases S) lid' = Some l'" "lid' \<noteq> lid" "le_job_id l' = le_job_id l"
  shows "\<not> is_live (le_state l') \<and> le_fencing_generation l' < le_fencing_generation l"
proof
  show "\<not> is_live (le_state l')"
    using live_unique [OF ok l other(1)] other(2,3) by auto
  have increase: "generations_increase (s_leases S)"
    and lok: "lease_ok S lid l" "lease_ok S lid' l'"
    using ok l(1) other(1) by (auto simp: scheduler_ok_def)
  then obtain n m where names: "lid = lease_name n" "lid' = lease_name m"
    unfolding lease_ok_def by blast
  have "le_fencing_generation l' \<le> le_fencing_generation l"
    using lok l(2) other(3) by (auto simp: lease_ok_def holds_job_def)
  moreover have "le_fencing_generation l' \<noteq> le_fencing_generation l"
  proof (cases "m < n")
    case True
    with increase l(1) other(1,3) names show ?thesis
      unfolding generations_increase_def by force
  next
    case False
    with other(2) names have "n < m" by auto
    with increase l(1) other(1,3) names show ?thesis
      unfolding generations_increase_def by force
  qed
  ultimately show "le_fencing_generation l' < le_fencing_generation l"
    by simp
qed

subsection \<open>Properties\<close>

text \<open>
  C8: at most one runner can hold a job. After any sequence of calls, a live lease carries the
  current installation epoch, its job is not queued, and every other lease of the same job has
  ended and has a strictly smaller fencing generation.
\<close>

theorem lease_exclusive:
  assumes "bt_get (s_leases (scheduler_run cs (scheduler_new epoch))) lid = Some l"
    and "is_live (le_state l)"
  shows "le_installation_fencing_epoch l =
       s_installation_fencing_epoch (scheduler_run cs (scheduler_new epoch)) \<and>
     bt_get (s_queue (scheduler_run cs (scheduler_new epoch))) (le_job_id l) = None \<and>
     (\<forall>lid' l'. bt_get (s_leases (scheduler_run cs (scheduler_new epoch))) lid' = Some l' \<and>
        lid' \<noteq> lid \<and> le_job_id l' = le_job_id l \<longrightarrow>
        \<not> is_live (le_state l') \<and> le_fencing_generation l' < le_fencing_generation l)"
proof -
  let ?S = "scheduler_run cs (scheduler_new epoch)"
  have ok: "scheduler_ok ?S"
    using scheduler_new_ok by (rule calls.run_ok)
  have held: "holds_job ?S lid l"
    using ok assms by (rule live_holds)
  then have "bt_get (s_queue ?S) (le_job_id l) = None"
    using ok by (cases "bt_get (s_queue ?S) (le_job_id l)")
      (auto simp: scheduler_ok_def queue_ok_def holds_job_def)
  with held show ?thesis
    using live_is_newest [OF ok assms] by (auto simp: holds_job_def)
qed

text \<open>
  C9: an ended lease is dead for good. Whatever calls follow, it never changes again; its holder
  can neither extend it nor accept it, under any runner, generation or epoch it may present, and
  reporting a completion succeeds only as a repetition of the result already recorded. None of
  these attempts changes the scheduler.
\<close>

theorem ended_lease_fenced:
  assumes "scheduler_ok S" "bt_get (s_leases S) lid = Some l" "\<not> is_live (le_state l)"
  shows "bt_get (s_leases (scheduler_run cs S)) lid = Some l \<and>
     (\<exists>e. heartbeat (scheduler_run cs S) lid rid g ep now = (Inl e, scheduler_run cs S)) \<and>
     (\<exists>e. decide_offer (scheduler_run cs S) lid rid g accepted now = (Inl e, scheduler_run cs S)) \<and>
     snd (complete (scheduler_run cs S) lid rid g ep d) = scheduler_run cs S \<and>
     (fst (complete (scheduler_run cs S) lid rid g ep d) = Inr () \<longrightarrow>
        le_state l = Completed \<and> le_terminal_result_digest l = Some d)"
proof -
  let ?S = "scheduler_run cs S"
  obtain l' where "bt_get (s_leases ?S) lid = Some l'" "lease_later l l'"
    using calls.run_grows [OF assms(1), of cs] assms(2) by (auto simp: scheduler_extends_def)
  then have l: "bt_get (s_leases ?S) lid = Some l"
    using assms(3) by (simp add: lease_later_def)
  have dead: "\<not> is_running (le_state l)" "le_state l \<noteq> Offered"
    using assms(3) by (auto simp: is_live_def is_running_def)
  have "\<exists>e. heartbeat ?S lid rid g ep now = (Inl e, ?S)"
    using l dead by (cases "validate_fence ?S lid rid g ep" rule: unit_result_cases)
      (auto simp: heartbeat_def)
  moreover have "\<exists>e. decide_offer ?S lid rid g accepted now = (Inl e, ?S)"
    using l dead
    by (cases "validate_fence ?S lid rid g (s_installation_fencing_epoch ?S)" rule: unit_result_cases)
      (auto simp: decide_offer_def)
  moreover have "snd (complete ?S lid rid g ep d) = ?S \<and>
      (fst (complete ?S lid rid g ep d) = Inr () \<longrightarrow>
        le_state l = Completed \<and> le_terminal_result_digest l = Some d)"
    using l dead by (cases "validate_fence ?S lid rid g ep" rule: unit_result_cases)
      (auto simp: complete_def)
  ultimately show ?thesis
    using l by blast
qed

end
