(* ===== verification/Scheduler_Jobs.thy ===== *)
theory Scheduler_Jobs
  imports Scheduler_Safety
begin

text \<open>
  What happens to jobs: which one an offer picks, that none disappears without a reason, what a
  restore does, and how the resources of a runner are counted.
\<close>

subsection \<open>Placement\<close>

lemma choose_job_Some:
  assumes "choose_job S runner now = Some job_id"
  obtains job where "job \<in> set (bt_values (s_queue S))" "qj_id job = job_id" "hard_filters S job runner"
    "\<And>other. other \<in> set (bt_values (s_queue S)) \<Longrightarrow> hard_filters S other runner \<Longrightarrow>
       score_key S job runner now \<le> score_key S other runner now"
  using assms by (auto simp: choose_job_def dest!: min_by_key_Some)

lemma choose_job_None:
  "choose_job S runner now = None \<longleftrightarrow>
     (\<forall>job \<in> set (bt_values (s_queue S)). \<not> hard_filters S job runner)"
  by (auto simp: choose_job_def filter_empty_conv)

lemma issue_lease_Inr:
  assumes "issue_lease S job_id rid now = (Inr l, S')"
  obtains job where "bt_get (s_queue S) job_id = Some job" "le_job_id l = qj_id job"
    "le_tenant_id l = qj_tenant_id job" "le_runner_id l = rid" "le_capsule_digest l = qj_capsule_digest job"
  using assms
  by (auto simp: issue_lease_def Let_def new_lease_def split: option.splits)

lemma offer_nothing:
  assumes "offer_for_runner_observed S rid now elapsed = (Inr observed, S2)" "expire S now = (Inr ids, S')"
    "bt_get (s_runners S') rid = Some runner" "rn_status runner = Online" "of_lease observed = None"
  shows "choose_job S' runner now = None"
proof (rule ccontr)
  assume "choose_job S' runner now \<noteq> None"
  then obtain j where j: "choose_job S' runner now = Some j" by auto
  obtain r S'' where "issue_lease S' j rid now = (r, S'')" by force
  with assms j show False
    by (cases r) (auto simp: offer_for_runner_observed_def Let_def)
qed

lemma offer_chosen:
  assumes "offer_for_runner_observed S rid now elapsed = (Inr observed, S2)" "expire S now = (Inr ids, S')"
    "bt_get (s_runners S') rid = Some runner" "of_lease observed = Some l"
  obtains j S'' where "choose_job S' runner now = Some j" "issue_lease S' j rid now = (Inr l, S'')"
proof -
  have online: "rn_status runner = Online"
    using assms by (auto simp: offer_for_runner_observed_def Let_def split: if_splits)
  moreover obtain j where j: "choose_job S' runner now = Some j"
    using assms online
    by (cases "choose_job S' runner now") (auto simp: offer_for_runner_observed_def Let_def)
  moreover obtain r S'' where r: "issue_lease S' j rid now = (r, S'')" by force
  ultimately have "issue_lease S' j rid now = (Inr l, S'')"
    using assms by (cases r) (auto simp: offer_for_runner_observed_def Let_def)
  with j show thesis by (rule that)
qed

lemma chosen_job:
  assumes "scheduler_ok S" "choose_job S runner now = Some j" "issue_lease S j rid now = (Inr l, S')"
  obtains job where "bt_get (s_queue S) (le_job_id l) = Some job" "hard_filters S job runner"
    "\<forall>other \<in> set (bt_values (s_queue S)). hard_filters S other runner \<longrightarrow>
       score_key S job runner now \<le> score_key S other runner now"
    "le_tenant_id l = qj_tenant_id job" "le_runner_id l = rid" "le_capsule_digest l = qj_capsule_digest job"
proof -
  from assms(3) obtain job where job: "bt_get (s_queue S) j = Some job" "le_job_id l = qj_id job"
    "le_tenant_id l = qj_tenant_id job" "le_runner_id l = rid" "le_capsule_digest l = qj_capsule_digest job"
    by (rule issue_lease_Inr)
  from assms(2) obtain job' where job': "job' \<in> set (bt_values (s_queue S))" "qj_id job' = j"
    "hard_filters S job' runner"
    "\<And>other. other \<in> set (bt_values (s_queue S)) \<Longrightarrow> hard_filters S other runner \<Longrightarrow>
      score_key S job' runner now \<le> score_key S other runner now"
    by (rule choose_job_Some) blast
  have "job' = job" "qj_id job = j"
    using job'(1,2) job(1) assms(1) by (auto simp: bt_values_set scheduler_ok_def queue_ok_def)
  with job job' show thesis
    by (intro that [of job]) auto
qed

text \<open>
  C12: an offer is the best admissible placement, and the filters mean what they say. With the
  leases that are due expired first, a lease that is offered is for a queued job that passes every hard filter on that runner and whose score no
  other admissible queued job beats. The runner is online and of the tenant of the job; it has the
  operating system, the architecture and the isolation the job asks for; it is in one of the allowed
  pools, if any are named, and in the region, if one is named; its verified capabilities cover the
  required ones; it has the capacity; and the tenant runs fewer jobs than its quota. When an online
  runner is offered nothing, no queued job passes the filters.
\<close>

theorem offer_is_best:
  assumes "scheduler_ok S"
    and "fst (offer_for_runner_observed S rid now elapsed) = Inr observed"
    and "bt_get (s_runners (snd (expire S now))) rid = Some runner"
  shows "case of_lease observed of
       None \<Rightarrow> rn_status runner = Online \<longrightarrow>
         (\<forall>job \<in> set (bt_values (s_queue (snd (expire S now)))). \<not> hard_filters (snd (expire S now)) job runner)
     | Some l \<Rightarrow> \<exists>job req. bt_get (s_queue (snd (expire S now))) (le_job_id l) = Some job \<and>
         le_runner_id l = rid \<and> le_capsule_digest l = qj_capsule_digest job \<and>
         le_tenant_id l = rn_tenant_id runner \<and> hard_filters (snd (expire S now)) job runner \<and>
         req = qj_requirements job \<and> available runner req \<and>
         rn_status runner = Online \<and> rn_tenant_id runner = qj_tenant_id job \<and>
         rn_os runner = sr_os req \<and> rn_arch runner = sr_arch req \<and>
         bs_mem (sr_isolation req) (rn_isolation_backends runner) \<and>
         (bt_len (sr_allowed_pools req) = 0 \<or> bs_mem (rn_pool_id runner) (sr_allowed_pools req)) \<and>
         (sr_region req = None \<or> rn_region runner = sr_region req) \<and>
         bs_subset (sr_required_capabilities req) (rn_verified_capabilities runner) \<and>
         unwrap_or (bt_get (s_running_by_tenant (snd (expire S now))) (qj_tenant_id job)) 0 <
           tq_maximum_running_jobs
             (unwrap_or (bt_get (s_quotas (snd (expire S now))) (qj_tenant_id job)) quota_default) \<and>
         (\<forall>other \<in> set (bt_values (s_queue (snd (expire S now)))).
            hard_filters (snd (expire S now)) other runner \<longrightarrow>
            score_key (snd (expire S now)) job runner now \<le> score_key (snd (expire S now)) other runner now)"
proof -
  obtain S' where S': "expire S now = (Inr (expired_ids S now), S')" "keeps S S'"
    by (rule expire_split)
  have ok: "scheduler_ok S'"
    using S'(2) assms(1) by (simp add: keeps_def)
  have runner: "bt_get (s_runners S') rid = Some runner"
    using assms(3) S' by simp
  obtain S2 where offer: "offer_for_runner_observed S rid now elapsed = (Inr observed, S2)"
    using assms(2) by (metis prod.collapse)
  show ?thesis
  proof (cases "of_lease observed")
    case None
    then show ?thesis
      using offer_nothing [OF offer S'(1) runner] S' by (auto simp: choose_job_None)
  next
    case (Some l)
    obtain j S'' where "choose_job S' runner now = Some j" "issue_lease S' j rid now = (Inr l, S'')"
      by (rule offer_chosen [OF offer S'(1) runner Some])
    from chosen_job [OF ok this] obtain job where job: "bt_get (s_queue S') (le_job_id l) = Some job"
      "hard_filters S' job runner"
      "\<forall>other \<in> set (bt_values (s_queue S')). hard_filters S' other runner \<longrightarrow>
         score_key S' job runner now \<le> score_key S' other runner now"
      "le_tenant_id l = qj_tenant_id job" "le_runner_id l = rid" "le_capsule_digest l = qj_capsule_digest job"
      by blast
    note guards = job(2) [unfolded hard_filters_def passes_hard_filters_def Let_def has_capacity_def]
    show ?thesis
      unfolding Some option.case S'(1) snd_conv
      using job guards by (intro exI [of _ job] exI [of _ "qj_requirements job"]) (auto split: option.splits)
  qed
qed

subsection \<open>No job disappears\<close>

definition tracked :: "Scheduler \<Rightarrow> QueuedJob \<Rightarrow> bool" where
  "tracked S job \<longleftrightarrow>
     bt_get (s_queue S) (qj_id job) = Some job \<or>
     (\<exists>lid. bt_get (s_leased_jobs S) lid = Some job)"

text \<open>
  Why a call may end the tracking of a job: its lease completed; its lease expired and the job is
  not to be retried, or was being canceled; or an identifier space was exhausted.
\<close>

definition accounted_loss :: "Scheduler \<Rightarrow> Scheduler \<Rightarrow> QueuedJob \<Rightarrow> bool" where
  "accounted_loss S S' job \<longleftrightarrow>
     (\<exists>lid l l'. bt_get (s_leases S) lid = Some l \<and> is_live (le_state l) \<and> le_job_id l = qj_id job \<and>
        bt_get (s_leases S') lid = Some l' \<and>
        (le_state l' = Completed \<or>
         le_state l' = Expired \<and> (\<not> qj_retryable_after_runner_loss job \<or> le_state l = CancelRequested))) \<or>
     s_next_lease_id S = - 1 \<or> bt_get (s_generation_by_job S) (qj_id job) = Some (- 1)"

lemma accounted_lossI:
  assumes "bt_get (s_leases S) lid = Some l" "is_live (le_state l)" "le_job_id l = qj_id job"
    and "bt_get (s_leases S') lid = Some l'"
    and "le_state l' = Completed \<or>
         le_state l' = Expired \<and> (\<not> qj_retryable_after_runner_loss job \<or> le_state l = CancelRequested)"
  shows "accounted_loss S S' job"
  using assms unfolding accounted_loss_def by blast

lemma tracked_cases:
  assumes "tracked S job"
  obtains (queued) "bt_get (s_queue S) (qj_id job) = Some job"
    | (leased) lid where "bt_get (s_leased_jobs S) lid = Some job"
  using assms unfolding tracked_def by blast

lemma tracked_leased: "bt_get (s_leased_jobs S) lid = Some job \<Longrightarrow> tracked S job"
  unfolding tracked_def by blast

lemma leased_lease:
  assumes "scheduler_ok S" "bt_get (s_leased_jobs S) lid = Some job"
  obtains l where "bt_get (s_leases S) lid = Some l" "is_live (le_state l)" "le_job_id l = qj_id job"
proof -
  from assms obtain l where l: "bt_get (s_leases S) lid = Some l" "is_live (le_state l)"
    by (rule index_leased)
  from assms(1) l obtain job' where "bt_get (s_leased_jobs S) lid = Some job'" "qj_id job' = le_job_id l"
    by (rule leased_job)
  with l assms(2) that show thesis by simp
qed

lemma live_not_queued:
  assumes "scheduler_ok S" "bt_get (s_leases S) lid = Some l" "is_live (le_state l)"
  shows "bt_get (s_queue S) (le_job_id l) = None"
  using live_holds [OF assms] assms(1)
  by (cases "bt_get (s_queue S) (le_job_id l)") (auto simp: scheduler_ok_def queue_ok_def holds_job_def)

lemma ending_tracked:
  assumes ok: "scheduler_ok S" and q: "bt_get (s_leased_jobs S) lid = Some q"
    and S': "s_leased_jobs S' = bt_remove lid (s_leased_jobs S)"
      "s_queue S' = (if again then bt_insert (qj_id q) q (s_queue S) else s_queue S)"
    and tracked: "tracked S job"
  shows "tracked S' job \<or> job = q \<and> \<not> again"
proof -
  from ok q obtain l where l: "bt_get (s_leases S) lid = Some l" "is_live (le_state l)" "le_job_id l = qj_id q"
    by (rule leased_lease)
  have unqueued: "bt_get (s_queue S) (qj_id q) = None"
    using live_not_queued [OF ok l(1,2)] l(3) by simp
  from tracked show ?thesis
  proof (cases rule: tracked_cases)
    case queued
    with unqueued have "qj_id job \<noteq> qj_id q" by auto
    with queued show ?thesis by (simp add: tracked_def S')
  next
    case (leased lid')
    show ?thesis
    proof (cases "lid' = lid")
      case True
      with leased q show ?thesis by (cases again) (simp_all add: tracked_def S')
    next
      case False
      with leased have "bt_get (s_leased_jobs S') lid' = Some job" by (simp add: S')
      then show ?thesis by (simp add: tracked_leased)
    qed
  qed
qed

lemma same_tracked:
  assumes "s_leased_jobs S' = s_leased_jobs S" "s_queue S' = s_queue S"
  shows "tracked S' job = tracked S job"
  by (simp add: tracked_def assms)

lemma expire_lease_jobs:
  assumes "bt_get (s_leases S) lid = Some l" "bt_get (s_leased_jobs S) lid = Some q"
  shows "s_leased_jobs (snd (expire_lease S lid)) = bt_remove lid (s_leased_jobs S)"
    "s_queue (snd (expire_lease S lid)) =
       (if qj_retryable_after_runner_loss q \<and> le_state l \<noteq> CancelRequested
        then bt_insert (qj_id q) q (s_queue S) else s_queue S)"
    "s_next_lease_id (snd (expire_lease S lid)) = s_next_lease_id S"
    "s_generation_by_job (snd (expire_lease S lid)) = s_generation_by_job S"
  using assms by (simp_all add: expire_lease_def Let_def)

lemma expire_each_tracked:
  assumes "scheduler_ok S" "distinct ids"
    and "\<forall>i \<in> set ids. \<exists>l. bt_get (s_leases S) i = Some l \<and> is_live (le_state l)"
    and "tracked S job"
  shows "tracked (snd (expire_each ids S)) job \<or>
    (\<exists>i \<in> set ids. \<exists>l. bt_get (s_leases S) i = Some l \<and> is_live (le_state l) \<and> le_job_id l = qj_id job \<and>
      (\<not> qj_retryable_after_runner_loss job \<or> le_state l = CancelRequested))"
  using assms
proof (induction ids arbitrary: S)
  case (Cons i ids)
  then obtain l where l: "bt_get (s_leases S) i = Some l" "is_live (le_state l)"
    by auto
  from Cons.prems(1) l obtain q where q: "bt_get (s_leased_jobs S) i = Some q" "qj_id q = le_job_id l"
    by (rule leased_job)
  obtain S' where S': "expire_lease S i = (Inr (), S')"
    using expire_lease_result(1) [OF l(1)] by (metis prod.collapse)
  have ok: "scheduler_ok S'"
    using expire_lease_keeps [OF l] S' Cons.prems(1) by (simp add: keeps_def)
  have leases: "s_leases S' = bt_insert i (l\<lparr>le_state := Expired\<rparr>) (s_leases S)"
    using expire_lease_result(2) [OF l(1)] S' by simp
  have "tracked S' job \<or>
      job = q \<and> \<not> (qj_retryable_after_runner_loss q \<and> le_state l \<noteq> CancelRequested)"
    using expire_lease_jobs [OF l(1) q(1)] S' Cons.prems(4)
    by (intro ending_tracked [OF Cons.prems(1) q(1)]) simp_all
  then show ?case
  proof
    assume "tracked S' job"
    then have "tracked (snd (expire_each ids S')) job \<or>
      (\<exists>i \<in> set ids. \<exists>l. bt_get (s_leases S') i = Some l \<and> is_live (le_state l) \<and> le_job_id l = qj_id job \<and>
        (\<not> qj_retryable_after_runner_loss job \<or> le_state l = CancelRequested))"
      using Cons.prems(2,3) ok leases by (intro Cons.IH) auto
    then show ?case
      using Cons.prems(2) leases by (auto simp: S' split: if_splits)
  next
    assume "job = q \<and> \<not> (qj_retryable_after_runner_loss q \<and> le_state l \<noteq> CancelRequested)"
    then show ?case
      using l q by auto
  qed
qed simp

lemma expire_lease_counters:
  "s_next_lease_id (snd (expire_lease S lid)) = s_next_lease_id S"
  "s_generation_by_job (snd (expire_lease S lid)) = s_generation_by_job S"
  by (auto simp: expire_lease_def Let_def split: option.splits)

lemma expire_each_counters:
  "s_next_lease_id (snd (expire_each ids S)) = s_next_lease_id S \<and>
   s_generation_by_job (snd (expire_each ids S)) = s_generation_by_job S"
proof (induction ids arbitrary: S)
  case (Cons i ids)
  obtain r S' where S': "expire_lease S i = (r, S')" by force
  with Cons [of S'] expire_lease_counters [of S i] show ?case by (cases r) simp_all
qed simp

lemma expire_tracked:
  assumes "scheduler_ok S" "tracked S job"
  shows "tracked (snd (expire S now)) job \<or> accounted_loss S (snd (expire S now)) job"
proof -
  let ?ids = "expired_ids S now"
  have live: "\<forall>i \<in> set ?ids. \<exists>l. bt_get (s_leases S) i = Some l \<and> is_live (le_state l)"
    by (auto simp: expired_ids_set)
  note each = expire_each_leases [OF expired_ids_distinct live]
  obtain S' where "expire_each ?ids S = (Inr (), S')"
    using each by (metis prod.collapse)
  then have S': "snd (expire S now) = S'" "expire_each ?ids S = (Inr (), S')"
    by (simp_all add: expire_def)
  show ?thesis
    using expire_each_tracked [OF assms(1) expired_ids_distinct live assms(2)]
  proof
    assume "\<exists>i \<in> set ?ids. \<exists>l. bt_get (s_leases S) i = Some l \<and> is_live (le_state l) \<and>
      le_job_id l = qj_id job \<and> (\<not> qj_retryable_after_runner_loss job \<or> le_state l = CancelRequested)"
    then obtain i l where "i \<in> set ?ids" "bt_get (s_leases S) i = Some l" "is_live (le_state l)"
      "le_job_id l = qj_id job" "\<not> qj_retryable_after_runner_loss job \<or> le_state l = CancelRequested"
      by blast
    moreover from this have "bt_get (s_leases S') i = Some (l\<lparr>le_state := Expired\<rparr>)"
      using each S' by simp
    ultimately have "accounted_loss S S' job"
      by (intro accounted_lossI [of S i l job S' "l\<lparr>le_state := Expired\<rparr>"]) simp_all
    then show ?thesis by (simp add: S')
  qed (simp add: S')
qed

lemma issue_lease_tracked:
  assumes ok: "scheduler_ok S" and tracked: "tracked S job"
  shows "tracked (snd (issue_lease S job_id rid now)) job \<or>
    s_next_lease_id S = - 1 \<or> bt_get (s_generation_by_job S) (qj_id job) = Some (- 1)"
proof (cases "bt_get (s_queue S) job_id")
  case None
  with tracked show ?thesis by (simp add: issue_lease_def)
next
  case q: (Some q)
  with ok have q_id: "qj_id q = job_id"
    by (auto simp: scheduler_ok_def queue_ok_def)
  have max: "x = - 1" if "checked_add x 1 = None" for x :: u64
  proof -
    have "2 ^ 64 \<le> unat x + 1"
      using that by (simp add: checked_add_None)
    then show ?thesis
      using unat_less_size [of x]
      by (simp add: word_unat_eq_iff unsigned_minus_1_eq_mask mask_eq_exp_minus_1)
  qed
  show ?thesis
  proof (cases "checked_add (unwrap_or (bt_get (s_generation_by_job S) job_id) 0) 1")
    case None
    then have full: "bt_get (s_generation_by_job S) job_id = Some (- 1)"
      by (auto simp: unwrap_or_def split: option.splits dest: max)
    show ?thesis
    proof (cases "qj_id job = job_id")
      case False
      with tracked q q_id None show ?thesis
        by (auto simp: issue_lease_def Let_def tracked_def)
    qed (use full in simp)
  next
    case g: (Some g)
    show ?thesis
    proof (cases "checked_add (s_next_lease_id S) 1")
      case None
      then show ?thesis by (auto dest: max)
    next
      case n: (Some n)
      have fields: "s_queue (snd (issue_lease S job_id rid now)) = bt_remove job_id (s_queue S)"
        "s_leased_jobs (snd (issue_lease S job_id rid now)) =
          bt_insert (lease_name (s_next_lease_id S)) q (s_leased_jobs S)"
        using q q_id g n by (simp_all add: issue_lease_def Let_def)
      from tracked have "tracked (snd (issue_lease S job_id rid now)) job"
      proof (cases rule: tracked_cases)
        case queued
        then show ?thesis
          using q q_id
          by (cases "qj_id job = job_id")
            (auto simp: fields tracked_def intro!: exI [of _ "lease_name (s_next_lease_id S)"])
      next
        case (leased lid)
        with ok obtain l where "bt_get (s_leases S) lid = Some l"
          by (rule index_leased)
        then have "lid \<noteq> lease_name (s_next_lease_id S)"
          using next_name_unused [OF ok, of "s_next_lease_id S"] by auto
        with leased show ?thesis
          by (intro tracked_leased [of _ lid]) (simp add: fields)
      qed
      then show ?thesis ..
    qed
  qed
qed

lemma requeue_each_stays:
  "bt_get (s_queue S) (qj_id job) = Some job \<Longrightarrow>
   \<forall>i \<in> set ids. \<forall>q. bt_get (s_leased_jobs S) i = Some q \<longrightarrow> qj_id q \<noteq> qj_id job \<Longrightarrow>
   bt_get (s_queue (requeue_each ids S)) (qj_id job) = Some job"
proof (induction ids arbitrary: S)
  case (Cons i ids)
  show ?case
  proof (cases "bt_get (s_leased_jobs S) i")
    case None
    with Cons.prems show ?thesis by (simp add: Cons.IH)
  next
    case (Some q)
    let ?S = "S\<lparr>s_leased_jobs := bt_remove i (s_leased_jobs S),
      s_queue := (if qj_retryable_after_runner_loss q then bt_insert (qj_id q) q (s_queue S) else s_queue S)\<rparr>"
    have "qj_id q \<noteq> qj_id job" using Cons.prems(2) Some by simp
    then have "bt_get (s_queue ?S) (qj_id job) = Some job"
      using Cons.prems(1) by simp
    moreover have "\<forall>i \<in> set ids. \<forall>q. bt_get (s_leased_jobs ?S) i = Some q \<longrightarrow> qj_id q \<noteq> qj_id job"
      using Cons.prems(2) by simp
    ultimately have "bt_get (s_queue (requeue_each ids ?S)) (qj_id job) = Some job"
      by (rule Cons.IH)
    with Some show ?thesis by simp
  qed
qed simp

lemma requeue_each_requeues:
  "lid \<in> set ids \<Longrightarrow> bt_get (s_leased_jobs S) lid = Some job \<Longrightarrow> qj_retryable_after_runner_loss job \<Longrightarrow>
   \<forall>i \<in> set ids. \<forall>q. bt_get (s_leased_jobs S) i = Some q \<longrightarrow> qj_id q = qj_id job \<longrightarrow> i = lid \<Longrightarrow>
   bt_get (s_queue (requeue_each ids S)) (qj_id job) = Some job"
proof (induction ids arbitrary: S)
  case (Cons i ids)
  show ?case
  proof (cases "i = lid")
    case True
    let ?S = "S\<lparr>s_leased_jobs := bt_remove lid (s_leased_jobs S),
      s_queue := bt_insert (qj_id job) job (s_queue S)\<rparr>"
    have "\<forall>i \<in> set ids. \<forall>q. bt_get (s_leased_jobs ?S) i = Some q \<longrightarrow> qj_id q \<noteq> qj_id job"
      using Cons.prems(4) by auto
    then have "bt_get (s_queue (requeue_each ids ?S)) (qj_id job) = Some job"
      by (intro requeue_each_stays) simp
    with True Cons.prems(2,3) show ?thesis by simp
  next
    case False
    then have lid: "lid \<in> set ids" using Cons.prems(1) by simp
    show ?thesis
    proof (cases "bt_get (s_leased_jobs S) i")
      case None
      with Cons.prems(2-4) show ?thesis by (simp add: Cons.IH [OF lid])
    next
      case (Some q)
      let ?S = "S\<lparr>s_leased_jobs := bt_remove i (s_leased_jobs S),
        s_queue := (if qj_retryable_after_runner_loss q then bt_insert (qj_id q) q (s_queue S) else s_queue S)\<rparr>"
      have "bt_get (s_leased_jobs ?S) lid = Some job"
        using Cons.prems(2) False by simp
      moreover have "\<forall>i \<in> set ids. \<forall>q. bt_get (s_leased_jobs ?S) i = Some q \<longrightarrow>
          qj_id q = qj_id job \<longrightarrow> i = lid"
        using Cons.prems(4) by simp
      ultimately have "bt_get (s_queue (requeue_each ids ?S)) (qj_id job) = Some job"
        using Cons.prems(3) by (intro Cons.IH [OF lid])
      with Some show ?thesis by simp
    qed
  qed
qed simp

lemma restore_unfold:
  assumes "s_installation_fencing_epoch S < e"
  shows "restore_fencing_epoch S e = (Inr (), requeue_each
    (map fst (filter (\<lambda>(_, l). is_live (le_state l)) (bt_entries (s_leases S))))
    (S\<lparr>s_installation_fencing_epoch := e, s_leases := bt_map_values fence_lease (s_leases S),
       s_active_lease_by_job := bt_empty, s_running_by_tenant := bt_empty,
       s_runners := bt_map_values resources_reset (s_runners S)\<rparr>))"
  using assms by (simp add: restore_fencing_epoch_def not_le [symmetric])

lemma restore_fields:
  assumes "s_installation_fencing_epoch S < e"
  shows "s_leases (snd (restore_fencing_epoch S e)) = bt_map_values fence_lease (s_leases S)"
    and "s_running_by_tenant (snd (restore_fencing_epoch S e)) = bt_empty"
    and "s_installation_fencing_epoch (snd (restore_fencing_epoch S e)) = e"
    and "s_active_lease_by_job (snd (restore_fencing_epoch S e)) = bt_empty"
    and "s_runners (snd (restore_fencing_epoch S e)) = bt_map_values resources_reset (s_runners S)"
  by (simp_all add: restore_unfold [OF assms] requeue_each_fields)

lemma restore_requeues:
  assumes ok: "scheduler_ok S" and e: "s_installation_fencing_epoch S < e"
    and job: "tracked S job" "bt_get (s_queue S) (qj_id job) = Some job \<or> qj_retryable_after_runner_loss job"
  shows "bt_get (s_queue (snd (restore_fencing_epoch S e))) (qj_id job) = Some job"
proof -
  let ?ids = "map fst (filter (\<lambda>(_, l). is_live (le_state l)) (bt_entries (s_leases S)))"
  let ?S = "S\<lparr>s_installation_fencing_epoch := e, s_leases := bt_map_values fence_lease (s_leases S),
    s_active_lease_by_job := bt_empty, s_running_by_tenant := bt_empty,
    s_runners := bt_map_values resources_reset (s_runners S)\<rparr>"
  have ids: "k \<in> set ?ids \<longleftrightarrow> (\<exists>l. bt_get (s_leases S) k = Some l \<and> is_live (le_state l))" for k
    by (force simp: bt_get_entries)
  have S': "snd (restore_fencing_epoch S e) = requeue_each ?ids ?S"
    by (simp add: restore_unfold [OF e])
  show ?thesis
  proof (cases "bt_get (s_queue S) (qj_id job) = Some job")
    case True
    have "\<forall>i \<in> set ?ids. \<forall>q. bt_get (s_leased_jobs ?S) i = Some q \<longrightarrow> qj_id q \<noteq> qj_id job"
    proof (intro ballI allI impI)
      fix i q
      assume "bt_get (s_leased_jobs ?S) i = Some q"
      then have q: "bt_get (s_leased_jobs S) i = Some q" by simp
      from ok q obtain l where "bt_get (s_leases S) i = Some l" "is_live (le_state l)" "le_job_id l = qj_id q"
        by (rule leased_lease)
      then have "bt_get (s_queue S) (qj_id q) = None"
        using live_not_queued [OF ok] by metis
      with True show "qj_id q \<noteq> qj_id job" by auto
    qed
    then show ?thesis
      unfolding S' using True by (intro requeue_each_stays) simp_all
  next
    case False
    with job obtain lid where lid: "bt_get (s_leased_jobs S) lid = Some job"
      "qj_retryable_after_runner_loss job"
      by (auto elim: tracked_cases)
    from ok lid(1) obtain l where l: "bt_get (s_leases S) lid = Some l" "is_live (le_state l)"
        "le_job_id l = qj_id job"
      by (rule leased_lease)
    have "lid \<in> set ?ids" unfolding ids using l by blast
    moreover have "\<forall>i \<in> set ?ids. \<forall>q. bt_get (s_leased_jobs ?S) i = Some q \<longrightarrow>
        qj_id q = qj_id job \<longrightarrow> i = lid"
    proof (intro ballI allI impI)
      fix i q
      assume q: "bt_get (s_leased_jobs ?S) i = Some q" "qj_id q = qj_id job"
      then have "bt_get (s_leased_jobs S) i = Some q" by simp
      with ok obtain m where "bt_get (s_leases S) i = Some m" "is_live (le_state m)" "le_job_id m = qj_id q"
        by (rule leased_lease)
      then show "i = lid"
        using live_unique [OF ok _ _ l(1,2)] l(3) q(2) by simp
    qed
    ultimately show ?thesis
      unfolding S' using lid by (intro requeue_each_requeues [of lid]) simp_all
  qed
qed

text \<open>
  C11: restoring an installation fences everything that ran before. Under a larger epoch every
  earlier lease has ended and stays ended, and whatever calls follow its holder is refused; each
  queued job and each leased job that may be retried is in the queue; no job holds a lease; and
  nothing that was reserved carries over: no tenant counts as running anything, and every runner is
  still registered as it was, with each of its five allocation counters back at zero.
\<close>

theorem restore_fences_all:
  assumes "scheduler_ok S" "s_installation_fencing_epoch S < e"
    and "bt_get (s_leases S) lid = Some l" "tracked S job"
    and "bt_get (s_queue S) (qj_id job) = Some job \<or> qj_retryable_after_runner_loss job"
  shows "bt_get (s_leases (scheduler_run cs (snd (restore_fencing_epoch S e)))) lid = Some (fence_lease l) \<and>
     \<not> is_live (le_state (fence_lease l)) \<and>
     validate_fence (scheduler_run cs (snd (restore_fencing_epoch S e))) lid rid g
       (le_installation_fencing_epoch l) =
       Inl (StaleInstallationEpoch
         (s_installation_fencing_epoch (scheduler_run cs (snd (restore_fencing_epoch S e))))
         (le_installation_fencing_epoch l)) \<and>
     bt_get (s_queue (snd (restore_fencing_epoch S e))) (qj_id job) = Some job \<and>
     s_active_lease_by_job (snd (restore_fencing_epoch S e)) = bt_empty \<and>
     s_running_by_tenant (snd (restore_fencing_epoch S e)) = bt_empty \<and>
     bt_get (s_runners (snd (restore_fencing_epoch S e))) w =
       map_option (\<lambda>r. r\<lparr>rn_active_jobs := 0, rn_active_wasm_jobs := 0, rn_used_cpus := 0,
         rn_used_memory_bytes := 0, rn_used_storage_bytes := 0\<rparr>) (bt_get (s_runners S) w)"
proof -
  let ?S = "snd (restore_fencing_epoch S e)" and ?R = "scheduler_run cs (snd (restore_fencing_epoch S e))"
  have ok: "scheduler_ok ?S"
    using restore_keeps [of S e] assms(1) by (simp add: keeps_def)
  have grown: "scheduler_extends ?S ?R"
    using ok by (rule calls.run_grows)
  have dead: "\<not> is_live (le_state (fence_lease l))"
    by (simp add: fence_lease_def is_live_def)
  have "bt_get (s_leases ?S) lid = Some (fence_lease l)"
    using assms(3) by (simp add: restore_fields [OF assms(2)])
  then have "bt_get (s_leases ?R) lid = Some (fence_lease l)"
    using grown dead by (force simp: scheduler_extends_def lease_later_def)
  moreover have "e \<le> s_installation_fencing_epoch ?R"
    using grown by (simp add: scheduler_extends_def restore_fields [OF assms(2)])
  moreover have "le_installation_fencing_epoch l \<le> s_installation_fencing_epoch S"
    using assms(1,3) by (simp add: scheduler_ok_def lease_ok_def)
  ultimately show ?thesis
    using dead restore_requeues [OF assms(1,2,4,5)] restore_fields(2,4,5) [OF assms(2)] assms(2)
    by (auto simp: validate_fence_def fail_if_def resources_reset_def [abs_def])
qed

lemma accounted_later:
  assumes "accounted_loss S S1 job" "scheduler_extends S1 S2"
  shows "accounted_loss S S2 job"
proof -
  have "bt_get (s_leases S2) lid = Some l"
    if "bt_get (s_leases S1) lid = Some l" "le_state l = Completed \<or> le_state l = Expired" for lid l
    using assms(2) that by (fastforce simp: scheduler_extends_def lease_later_def is_live_def)
  with assms(1) show ?thesis
    unfolding accounted_loss_def by meson
qed

lemma offer_after:
  assumes "expire S now = (Inr ids, S1)"
  shows "snd (offer_for_runner_observed S rid now elapsed) = S1 \<or>
    (\<exists>j. snd (offer_for_runner_observed S rid now elapsed) = snd (issue_lease S1 j rid now))"
proof (cases "bt_get (s_runners S1) rid")
  case None
  with assms show ?thesis by (simp add: offer_for_runner_observed_def)
next
  case runner: (Some runner)
  have snd_and_then: "snd (and_then m (\<lambda>x S. (Inr (f x), S))) = snd m"
    for m :: "Lease scheduled \<times> Scheduler" and f :: "Lease \<Rightarrow> ObservedLeaseOffer"
    by (cases m; cases "fst m") auto
  show ?thesis
    using assms runner
    by (cases "choose_job S1 runner now")
      (auto simp: offer_for_runner_observed_def Let_def snd_and_then)
qed

lemma offer_tracked:
  assumes ok: "scheduler_ok S" and tracked: "tracked S job"
  shows "tracked (snd (offer_for_runner_observed S rid now elapsed)) job \<or>
    accounted_loss S (snd (offer_for_runner_observed S rid now elapsed)) job"
proof -
  let ?S' = "snd (offer_for_runner_observed S rid now elapsed)"
  obtain S1 where S1: "expire S now = (Inr (expired_ids S now), S1)" "keeps S S1"
    by (rule expire_split)
  have ok1: "scheduler_ok S1"
    using S1(2) ok by (simp add: keeps_def)
  have counters: "s_next_lease_id S1 = s_next_lease_id S" "s_generation_by_job S1 = s_generation_by_job S"
  proof -
    obtain r S2 where S2: "expire_each (expired_ids S now) S = (r, S2)" by force
    with S1(1) have "S1 = S2" by (cases r) (simp_all add: expire_def)
    then show "s_next_lease_id S1 = s_next_lease_id S" "s_generation_by_job S1 = s_generation_by_job S"
      using expire_each_counters [of "expired_ids S now" S] S2 by simp_all
  qed
  from S1(1) have after: "?S' = S1 \<or> (\<exists>j. ?S' = snd (issue_lease S1 j rid now))"
    by (rule offer_after)
  have "tracked S1 job \<or> accounted_loss S S1 job"
    using expire_tracked [OF ok tracked, of now] S1(1) by simp
  then show ?thesis
  proof
    assume "tracked S1 job"
    with after show ?thesis
      using issue_lease_tracked [OF ok1] unfolding accounted_loss_def counters [symmetric] by metis
  next
    assume lost: "accounted_loss S S1 job"
    have "scheduler_extends S1 ?S'"
      using after
    proof
      assume "\<exists>j. ?S' = snd (issue_lease S1 j rid now)"
      then obtain j where "?S' = snd (issue_lease S1 j rid now)" by blast
      then show ?thesis
        using issue_lease_keeps [of S1 j rid now] ok1 by (simp add: keeps_def)
    qed (simp add: scheduler_extends_refl)
    with lost show ?thesis
      by (simp add: accounted_later)
  qed
qed

lemma complete_tracked:
  assumes ok: "scheduler_ok S" and tracked: "tracked S job"
  shows "tracked (snd (complete S lid rid g epoch d)) job \<or>
    accounted_loss S (snd (complete S lid rid g epoch d)) job"
proof (cases "validate_fence S lid rid g epoch" rule: unit_result_cases)
  case (failed e)
  with tracked show ?thesis by (simp add: complete_def)
next
  case passed
  then obtain l where l: "bt_get (s_leases S) lid = Some l"
    by (rule fence_lease_found)
  show ?thesis
  proof (cases "is_running (le_state l)")
    case False
    then show ?thesis
      using passed l tracked by (simp add: complete_def)
  next
    case True
    then have live: "is_live (le_state l)" "le_state l \<noteq> Completed"
      by (auto simp: is_live_def is_running_def)
    from ok l live(1) obtain q where q: "bt_get (s_leased_jobs S) lid = Some q" "qj_id q = le_job_id l"
      by (rule leased_job)
    let ?S' = "snd (complete S lid rid g epoch d)"
    have fields: "s_leased_jobs ?S' = bt_remove lid (s_leased_jobs S)" "s_queue ?S' = s_queue S"
      "bt_get (s_leases ?S') lid =
        Some (l\<lparr>le_state := Completed, le_terminal_result_digest := Some d\<rparr>)"
      using passed l live True by (simp_all add: complete_def)
    have "tracked ?S' job \<or> job = q \<and> \<not> False"
      using fields by (intro ending_tracked [OF ok q(1) _ _ tracked]) simp_all
    moreover have "accounted_loss S ?S' q"
      using l live(1) q(2) [symmetric] fields(3) by (rule accounted_lossI) simp
    ultimately show ?thesis by auto
  qed
qed

lemma decide_offer_tracked:
  assumes ok: "scheduler_ok S" and tracked: "tracked S job"
  shows "tracked (snd (decide_offer S lid rid g accepted now)) job"
proof (cases "validate_fence S lid rid g (s_installation_fencing_epoch S)" rule: unit_result_cases)
  case (failed e)
  with tracked show ?thesis by (simp add: decide_offer_def)
next
  case passed
  then obtain l where l: "bt_get (s_leases S) lid = Some l"
    by (rule fence_lease_found)
  show ?thesis
  proof (cases "le_state l = Offered")
    case False
    then show ?thesis
      using passed l tracked by (simp add: decide_offer_def)
  next
    case True
    then have live: "is_live (le_state l)" by (simp add: is_live_def)
    from ok l live obtain q where q: "bt_get (s_leased_jobs S) lid = Some q"
      by (rule leased_job)
    have returned: "tracked (return_offer S lid l st) job" for st
      using ending_tracked [OF ok q _ _ tracked, of "return_offer S lid l st" True] q
      by (simp add: return_offer_def)
    have same: "tracked S' job" if "s_leased_jobs S' = s_leased_jobs S" "s_queue S' = s_queue S" for S'
      using same_tracked [OF that] tracked by simp
    show ?thesis
      using passed l True returned q
      by (auto simp: decide_offer_def Let_def same split: option.split)
  qed
qed

lemma enqueue_tracked:
  assumes "tracked S job"
  shows "tracked (snd (enqueue S q)) job"
proof -
  have "bt_get (s_queue (snd (enqueue S q))) (qj_id job) = Some job"
    if "bt_get (s_queue S) (qj_id job) = Some job"
    using that by (cases "job_validate q" rule: unit_result_cases) (auto simp: enqueue_def)
  moreover have "s_leased_jobs (snd (enqueue S q)) = s_leased_jobs S"
    by (cases "job_validate q" rule: unit_result_cases) (auto simp: enqueue_def)
  ultimately show ?thesis
    using assms by (auto simp: tracked_def)
qed

lemma restore_tracked:
  assumes "scheduler_ok S" "tracked S job" "\<not> tracked (snd (restore_fencing_epoch S e)) job"
  shows "accounted_loss S (snd (restore_fencing_epoch S e)) job"
proof (cases "s_installation_fencing_epoch S < e")
  case False
  then have "snd (restore_fencing_epoch S e) = S"
    by (simp add: restore_fencing_epoch_def not_less)
  with assms show ?thesis by simp
next
  case True
  have "\<not> (bt_get (s_queue S) (qj_id job) = Some job \<or> qj_retryable_after_runner_loss job)"
    using restore_requeues [OF assms(1) True assms(2)] assms(3) by (auto simp: tracked_def)
  moreover from this assms(2) obtain lid where lid: "bt_get (s_leased_jobs S) lid = Some job"
    by (auto elim: tracked_cases)
  from assms(1) lid obtain l where "bt_get (s_leases S) lid = Some l" "is_live (le_state l)"
      "le_job_id l = qj_id job"
    by (rule leased_lease)
  ultimately show ?thesis
    using True by (intro accounted_lossI [of S lid l job _ "fence_lease l"])
      (simp_all add: restore_fields fence_lease_def)
qed

text \<open>
  C10: no job disappears. A job that is queued or leased stays so across every call, unless its
  lease completed, or its lease was lost while the job was not to be retried or was being
  canceled, or the 64-bit lease numbers or generations ran out.
\<close>

theorem no_job_lost:
  assumes "scheduler_ok S" "tracked S job" "\<not> tracked (perform c S) job"
  shows "accounted_loss S (perform c S) job"
proof (cases c)
  case (Call_Enqueue q)
  with assms enqueue_tracked show ?thesis by simp
next
  case (Call_Restore e)
  with assms restore_tracked show ?thesis by simp
next
  case (Call_Offer rid now elapsed)
  with assms offer_tracked [OF assms(1,2)] show ?thesis by (metis perform.simps)
next
  case (Call_Decide lid rid g accepted now)
  with assms decide_offer_tracked [OF assms(1,2)] show ?thesis by (metis perform.simps)
next
  case (Call_Complete lid rid g epoch d)
  with assms complete_tracked [OF assms(1,2)] show ?thesis by (metis perform.simps)
next
  case (Call_Expire now)
  with assms expire_tracked [OF assms(1,2)] show ?thesis by (metis perform.simps)
next
  case (Call_Set_Quota tenant quota)
  with assms show ?thesis
    by (cases "quota_validate quota" rule: unit_result_cases) (simp_all add: set_quota_def tracked_def)
next
  case (Call_Register runner)
  with assms show ?thesis
    by (cases "runner_validate runner" rule: unit_result_cases)
      (auto simp: register_runner_def tracked_def split: if_splits)
next
  case (Call_Status rid status)
  with assms show ?thesis
    by (auto simp: update_runner_status_def tracked_def split: option.splits if_splits)
next
  case (Call_Heartbeat lid rid g epoch now)
  with assms show ?thesis
    by (cases "validate_fence S lid rid g epoch" rule: unit_result_cases)
      (auto simp: heartbeat_def Let_def tracked_def split: option.splits if_splits)
next
  case (Call_Cancel j)
  with assms show ?thesis
    by (auto simp: request_cancel_def tracked_def split: option.splits if_splits)
qed

subsection \<open>Resources\<close>

text \<open>
  C32: reserving what the filters admitted is exact. On a runner within its capacity a job that
  passes the resource test is reserved without saturating, the runner stays within its capacity
  and its WebAssembly slots, and releasing the same job restores the runner exactly.
\<close>

theorem reserve_release_exact:
  assumes "within_capacity r" "available r req" "unat (rn_active_jobs r) + 1 < 2 ^ 32"
    "rn_active_wasm_jobs r \<le> rn_active_jobs r"
  shows "within_capacity (resources_reserve r req) \<and>
     rn_used_cpus (resources_reserve r req) = rn_used_cpus r + sr_cpu req \<and>
     (sr_isolation req = Wasm \<longrightarrow>
        rn_active_wasm_jobs (resources_reserve r req) \<le> rn_max_concurrent_wasm_jobs (resources_reserve r req)) \<and>
     resources_release (resources_reserve r req) (Some req) = r"
proof -
  note cpus = saturating_room [of "rn_used_cpus r" "rn_logical_cpus r" "sr_cpu req"]
  note memory = saturating_room [of "rn_used_memory_bytes r" "rn_memory_bytes r" "sr_memory_bytes req"]
  note storage = saturating_room [of "rn_used_storage_bytes r" "rn_storage_bytes r" "sr_storage_bytes req"]
  have room: "rn_used_cpus r \<le> rn_logical_cpus r" "rn_used_memory_bytes r \<le> rn_memory_bytes r"
    "rn_used_storage_bytes r \<le> rn_storage_bytes r"
    "sr_cpu req \<le> saturating_sub (rn_logical_cpus r) (rn_used_cpus r)"
    "sr_memory_bytes req \<le> saturating_sub (rn_memory_bytes r) (rn_used_memory_bytes r)"
    "sr_storage_bytes req \<le> saturating_sub (rn_storage_bytes r) (rn_used_storage_bytes r)"
    using assms(1,2) by (simp_all add: within_capacity_def available_def)
  have undone: "saturating_sub (saturating_add x 1) 1 = x" if "unat x + 1 < 2 ^ 32" for x :: u32
    using that by (simp add: saturating_add_def saturating_sub_def word_le_nat_alt unat_plus_if_fits)
  have wasm: "unat (rn_active_wasm_jobs r) + 1 < 2 ^ 32"
    using assms(3,4) by (simp add: word_le_nat_alt)
  have "rn_active_wasm_jobs (resources_reserve r req) \<le> rn_max_concurrent_wasm_jobs (resources_reserve r req)"
    if "sr_isolation req = Wasm"
  proof -
    have "rn_active_wasm_jobs r < rn_max_concurrent_wasm_jobs r"
      using assms(2) that by (simp add: available_def isolation_available_def)
    then show ?thesis
      using that wasm
      by (simp add: resources_reserve_def saturating_add_def word_le_nat_alt word_less_nat_alt
          unat_plus_if_fits)
  qed
  then show ?thesis
    using cpus memory storage room undone [OF assms(3)] undone [OF wasm]
    by (simp add: resources_reserve_def resources_release_def within_capacity_def Let_def)
qed

end
