(* ===== verification/Scheduler_Examples.thy ===== *)
theory Scheduler_Examples
  imports Scheduler_Jobs
begin

text \<open>
  Two further properties of the scheduler, on what it does not check, and a concrete run: one
  runner, one quota, two jobs, two offers. The run instantiates the theorems of the scheduler.
\<close>

subsection \<open>What a decision does not check\<close>

lemma accept_offer:
  assumes "bt_get (s_leases S) lid = Some l" "le_state l = Offered" "now \<le> le_accept_by_unix_ms l"
    and "bt_get (s_leased_jobs S) lid = Some job" "bt_get (s_runners S) (le_runner_id l) = Some r"
  shows "decide_offer S lid (le_runner_id l) (le_fencing_generation l) True now =
     (Inr Active, S
       \<lparr>s_leases := bt_insert lid (l\<lparr>le_state := Active\<rparr>) (s_leases S),
        s_running_by_tenant := bt_insert (le_tenant_id l)
          (unwrap_or (bt_get (s_running_by_tenant S) (le_tenant_id l)) 0 + 1) (s_running_by_tenant S),
        s_runners := bt_insert (le_runner_id l) (resources_reserve r (qj_requirements job)) (s_runners S)\<rparr>)"
proof -
  have "validate_fence S lid (le_runner_id l) (le_fencing_generation l) (s_installation_fencing_epoch S) = Inr ()"
    using assms(1) by (simp add: validate_fence_def)
  moreover have "\<not> le_accept_by_unix_ms l < now"
    using assms(3) by simp
  ultimately show ?thesis
    using assms by (simp add: decide_offer_def Let_def)
qed

lemma word_step_twice:
  fixes x y :: "'w::len word"
  assumes "y = x + 1" "x < y" "y \<noteq> - 1"
  shows "y < x + 1 + 1" "saturating_add x 1 = y" "saturating_add y 1 = x + 1 + 1"
proof -
  have "y \<noteq> 0"
    using assms(2) by auto
  then have "1 + x \<noteq> 0" "1 + y \<noteq> 0"
    using assms(1,3) by (simp add: add.commute) (metis add_eq_0_iff assms(3))
  then have steps: "unat (x + 1) = unat x + 1" "unat (y + 1) = unat y + 1"
    using unatSuc [of x] unatSuc [of y] by (simp_all add: add.commute)
  have "unat (x + 1) < 2 ^ LENGTH('w)" "unat (y + 1) < 2 ^ LENGTH('w)"
    by simp_all
  then have "unat x + 1 < 2 ^ LENGTH('w)" "unat y + 1 < 2 ^ LENGTH('w)"
    unfolding steps .
  with steps show "y < x + 1 + 1" "saturating_add x 1 = y" "saturating_add y 1 = x + 1 + 1"
    using assms(1) by (simp_all add: word_less_nat_alt saturating_add_def)
qed

text \<open>
  C33: accepting an offer never looks at the capacity again, so the limits that the hard filters
  enforce can be overrun. Let two jobs of one tenant be offered to one runner that has a single free
  slot, under a quota that leaves room for a single further job. Each of them passes the hard
  filters. Once the first is accepted the second no longer does, but its acceptance succeeds all
  the same; both leases are then active, the runner carries more jobs than it has slots, and the
  tenant runs more jobs than its quota allows.
\<close>

theorem acceptance_overruns_capacity:
  assumes "bt_get (s_leases S) k1 = Some l1" "le_state l1 = Offered" "now \<le> le_accept_by_unix_ms l1"
    and "bt_get (s_leased_jobs S) k1 = Some j1" "hard_filters S j1 r" "qj_tenant_id j1 = le_tenant_id l1"
    and "bt_get (s_leases S) k2 = Some l2" "le_state l2 = Offered" "now \<le> le_accept_by_unix_ms l2"
    and "bt_get (s_leased_jobs S) k2 = Some j2" "hard_filters S j2 r" "qj_tenant_id j2 = le_tenant_id l2"
    and "k1 \<noteq> k2" "le_tenant_id l2 = le_tenant_id l1" "le_runner_id l2 = le_runner_id l1"
    and "sr_isolation (qj_requirements j1) = Wasm" "sr_isolation (qj_requirements j2) = Wasm"
    and "bt_get (s_runners S) (le_runner_id l1) = Some r"
    and "rn_max_concurrent_wasm_jobs r = rn_active_wasm_jobs r + 1" "rn_max_concurrent_wasm_jobs r \<le> 64"
    and "bt_get (s_quotas S) (le_tenant_id l1) = Some quota" "tq_maximum_running_jobs quota \<noteq> - 1"
    and "tq_maximum_running_jobs quota =
           unwrap_or (bt_get (s_running_by_tenant S) (le_tenant_id l1)) 0 + 1"
  shows "\<exists>S1 S2 r1 r2 running.
     decide_offer S k1 (le_runner_id l1) (le_fencing_generation l1) True now = (Inr Active, S1) \<and>
     bt_get (s_runners S1) (le_runner_id l1) = Some r1 \<and> \<not> hard_filters S1 j2 r1 \<and>
     decide_offer S1 k2 (le_runner_id l2) (le_fencing_generation l2) True now = (Inr Active, S2) \<and>
     bt_get (s_leases S2) k1 = Some (l1\<lparr>le_state := Active\<rparr>) \<and>
     bt_get (s_leases S2) k2 = Some (l2\<lparr>le_state := Active\<rparr>) \<and>
     bt_get (s_runners S2) (le_runner_id l1) = Some r2 \<and>
     rn_max_concurrent_wasm_jobs r2 < rn_active_wasm_jobs r2 \<and>
     bt_get (s_quotas S2) (le_tenant_id l1) = Some quota \<and>
     bt_get (s_running_by_tenant S2) (le_tenant_id l1) = Some running \<and>
     tq_maximum_running_jobs quota < running"
proof -
  let ?S1 = "snd (decide_offer S k1 (le_runner_id l1) (le_fencing_generation l1) True now)"
  let ?r1 = "resources_reserve r (qj_requirements j1)"
  let ?S2 = "snd (decide_offer ?S1 k2 (le_runner_id l2) (le_fencing_generation l2) True now)"
  let ?r2 = "resources_reserve ?r1 (qj_requirements j2)"
  let ?running = "unwrap_or (bt_get (s_running_by_tenant S) (le_tenant_id l1)) 0"
  note first = accept_offer [OF assms(1-4) assms(18)]
  have second: "decide_offer ?S1 k2 (le_runner_id l2) (le_fencing_generation l2) True now = (Inr Active, ?S1
       \<lparr>s_leases := bt_insert k2 (l2\<lparr>le_state := Active\<rparr>) (s_leases ?S1),
        s_running_by_tenant := bt_insert (le_tenant_id l2) (?running + 1 + 1) (s_running_by_tenant ?S1),
        s_runners := bt_insert (le_runner_id l2) ?r2 (s_runners ?S1)\<rparr>)"
    using accept_offer [of ?S1 k2 l2 now j2 ?r1] assms by (simp add: first unwrap_or_def)
  have slots: "rn_active_wasm_jobs r < rn_max_concurrent_wasm_jobs r" "?running < tq_maximum_running_jobs quota"
    using assms(5,6,16,21) by (simp_all add: hard_filters_def passes_hard_filters_def Let_def available_def
        isolation_available_def has_capacity_def unwrap_or_def)
  have top: "rn_max_concurrent_wasm_jobs r \<noteq> - 1"
    using assms(20) by (auto simp: word_le_nat_alt unat_minus_one_max)
  have r2: "rn_max_concurrent_wasm_jobs ?r2 < rn_active_wasm_jobs ?r2"
    using word_step_twice [OF assms(19) slots(1) top] assms(16,17)
    by (simp add: resources_reserve_def)
  have full: "\<not> hard_filters ?S1 j2 ?r1"
    using assms(12,14,21,23)
    by (simp add: first hard_filters_def passes_hard_filters_def Let_def has_capacity_def unwrap_or_def)
  have over: "tq_maximum_running_jobs quota < ?running + 1 + 1"
    using word_step_twice(1) [OF assms(23) slots(2) assms(22)] by simp
  show ?thesis
    by (intro exI [of _ ?S1] exI [of _ ?S2] exI [of _ ?r1] exI [of _ ?r2] exI [of _ "?running + 1 + 1"])
      (use r2 full over in \<open>simp add: second, simp add: first assms\<close>)
qed

text \<open>
  C34: canceling an offer that nobody accepted opens a completion that was never earned. The
  canceled lease counts as running, so its runner may report a result for it; the report succeeds
  and releases from the runner, and from the tenant's running count, resources that were never
  reserved for the job.
\<close>

theorem canceled_offer_releases_unreserved:
  assumes "scheduler_ok S" "bt_get (s_leases S) lid = Some l" "le_state l = Offered"
    and "bt_get (s_leased_jobs S) lid = Some job" "bt_get (s_runners S) (le_runner_id l) = Some r"
  shows "case complete (snd (request_cancel S (le_job_id l))) lid (le_runner_id l)
           (le_fencing_generation l) (s_installation_fencing_epoch S) d of
       (result, S') \<Rightarrow> result = Inr () \<and>
         bt_get (s_runners S') (le_runner_id l) = Some (resources_release r (Some (qj_requirements job))) \<and>
         s_running_by_tenant S' = decrement (s_running_by_tenant S) (le_tenant_id l)"
proof -
  have "bt_get (s_active_lease_by_job S) (le_job_id l) = Some lid"
    using live_holds [OF assms(1,2)] assms(3) by (simp add: is_live_def holds_job_def)
  then have "snd (request_cancel S (le_job_id l)) =
      S\<lparr>s_leases := bt_insert lid (l\<lparr>le_state := CancelRequested\<rparr>) (s_leases S)\<rparr>"
    using assms(2,3) by (simp add: request_cancel_def)
  moreover have "validate_fence (S\<lparr>s_leases := bt_insert lid (l\<lparr>le_state := CancelRequested\<rparr>) (s_leases S)\<rparr>)
      lid (le_runner_id l) (le_fencing_generation l) (s_installation_fencing_epoch S) = Inr ()"
    by (simp add: validate_fence_def)
  ultimately show ?thesis
    using assms(4,5) by (simp add: complete_def is_running_def release_on_def)
qed

subsection \<open>A run\<close>

definition example_requirements :: SchedulingRequirements where
  "example_requirements =
     \<lparr>sr_os = IR_Linux, sr_arch = IR_Amd64, sr_isolation = Wasm, sr_cpu = 2, sr_memory_bytes = 100,
      sr_storage_bytes = 10, sr_region = None, sr_required_capabilities = bt_empty,
      sr_allowed_pools = bt_empty\<rparr>"

definition example_job :: "string \<Rightarrow> QueuedJob" where
  "example_job j =
     \<lparr>qj_id = j, qj_tenant_id = ''t'', qj_repository_id = ''repo'', qj_capsule_digest = ContentDigest ''c'',
      qj_requirements = example_requirements, qj_priority = 0, qj_queued_unix_ms = 50,
      qj_preferred_content = bt_empty, qj_retryable_after_runner_loss = True\<rparr>"

definition example_runner :: RunnerRecord where
  "example_runner =
     \<lparr>rn_id = ''r1'', rn_tenant_id = ''t'', rn_pool_id = ''p'', rn_ephemeral = False, rn_retired = False,
      rn_os = IR_Linux, rn_arch = IR_Amd64, rn_isolation_backends = bs_of_list [Wasm],
      rn_logical_cpus = 2, rn_memory_bytes = 1000, rn_storage_bytes = 1000,
      rn_max_concurrent_wasm_jobs = 1, rn_region = None, rn_verified_capabilities = bt_empty,
      rn_self_reported_capabilities = bt_empty, rn_status = Online, rn_active_jobs = 0,
      rn_active_wasm_jobs = 0, rn_used_cpus = 0, rn_used_memory_bytes = 0, rn_used_storage_bytes = 0,
      rn_locality = bt_empty, rn_package_tiers = bt_empty, rn_last_heartbeat_unix_ms = 0\<rparr>"

definition example_quota :: TenantQuota where
  "example_quota = \<lparr>tq_maximum_running_jobs = 1, tq_weight = 1\<rparr>"

definition example_idle :: Scheduler where
  "example_idle =
     (scheduler_new 5)
       \<lparr>s_quotas := bt_insert ''t'' example_quota bt_empty,
        s_runners := bt_insert ''r1'' example_runner bt_empty,
        s_queue := bt_insert ''b'' (example_job ''b'') (bt_insert ''a'' (example_job ''a'') bt_empty)\<rparr>"

definition example_lease :: "string \<Rightarrow> string \<Rightarrow> Lease" where
  "example_lease lid j =
     \<lparr>le_id = lid, le_job_id = j, le_tenant_id = ''t'', le_runner_id = ''r1'', le_fencing_generation = 1,
      le_installation_fencing_epoch = 5, le_capsule_digest = ContentDigest ''c'', le_issued_unix_ms = 100,
      le_accept_by_unix_ms = 15100, le_expires_unix_ms = 60100, le_state = Offered,
      le_terminal_result_digest = None\<rparr>"

definition example_offered :: Scheduler where
  "example_offered =
     example_idle
       \<lparr>s_queue := bt_insert ''b'' (example_job ''b'') bt_empty,
        s_leases := bt_insert ''lease-1'' (example_lease ''lease-1'' ''a'') bt_empty,
        s_leased_jobs := bt_insert ''lease-1'' (example_job ''a'') bt_empty,
        s_active_lease_by_job := bt_insert ''a'' ''lease-1'' bt_empty,
        s_generation_by_job := bt_insert ''a'' 1 bt_empty, s_next_lease_id := 2\<rparr>"

lemma example_idle_run:
  "scheduler_run [Call_Set_Quota ''t'' example_quota, Call_Register example_runner, Call_Enqueue (example_job ''a''),
     Call_Enqueue (example_job ''b'')] (scheduler_new 5) = example_idle"
proof -
  have "runner_validate example_runner = Inr ()"
    by (simp add: runner_validate_def example_runner_def bt_len_def bs_of_list_def bs_insert_def bs_mem_def)
  moreover have "job_validate (example_job ''a'') = Inr ()" "job_validate (example_job ''b'') = Inr ()"
    by (simp_all add: job_validate_def example_job_def example_requirements_def)
  ultimately show ?thesis
    by (simp add: set_quota_def quota_validate_def example_quota_def register_runner_def enqueue_def)
      (simp add: scheduler_new_def example_quota_def example_idle_def example_runner_def example_job_def)
qed

lemma example_idle_ok: "scheduler_ok example_idle"
  unfolding example_idle_run [symmetric] using scheduler_new_ok by (rule calls.run_ok)

lemma lease_name_1: "lease_name 1 = ''lease-1''"
  by (simp add: lease_name_def show_u64_def show_nat.simps digit_char_def) code_simp

lemma example_filters:
  "s_running_by_tenant S = bt_empty \<Longrightarrow> s_quotas S = bt_insert ''t'' example_quota bt_empty \<Longrightarrow> hard_filters S (example_job j) example_runner"
  by (simp add: hard_filters_def passes_hard_filters_def Let_def has_capacity_def example_quota_def
      unwrap_or_def example_job_def example_requirements_def example_runner_def available_def
      isolation_available_def saturating_sub_def bs_subset_def bt_keys_def word_neq_0_conv [symmetric])

lemma example_score:
  "s_running_by_tenant S = bt_empty \<Longrightarrow> s_quotas S = bt_insert ''t'' example_quota bt_empty \<Longrightarrow>
     score_key S (example_job j) example_runner now =
       (0, Reverse (i64_saturating_add 0 (i64_from_u64 (saturating_sub now 50 div 60000))), Reverse 0, Reverse 0, 0, j)"
  by (simp add: score_key_def score_def score_observation_def Let_def example_quota_def unwrap_or_def
      example_job_def example_runner_def fair_share_def saturating_mul_def u64_from_u32_def bt_keys_def
      try_from_size_or_max_def try_from_size_def PRIORITY_AGING_INTERVAL_MS_def map_filter_def)

lemma example_offer:
  "offer_for_runner_observed example_idle ''r1'' 100 0 =
     (Inr \<lparr>of_lease = Some (example_lease ''lease-1'' ''a''),
        of_placement = placement_observation ''r1'' 2 2 (Some ''a'')
          (Some (scheduler_score_observation example_idle (example_job ''a'') example_runner 100)) 0\<rparr>,
      example_offered)"
proof -
  have fields: "s_runners example_idle = bt_insert ''r1'' example_runner bt_empty"
    "s_leases example_idle = bt_empty" "s_running_by_tenant example_idle = bt_empty"
    "s_quotas example_idle = bt_insert ''t'' example_quota bt_empty" "s_next_lease_id example_idle = 1"
    "s_queue example_idle = bt_insert ''b'' (example_job ''b'') (bt_insert ''a'' (example_job ''a'') bt_empty)"
    "s_generation_by_job example_idle = bt_empty"
    by (simp_all add: example_idle_def scheduler_new_def)
  have expire: "expire example_idle 100 = (Inr [], example_idle)"
    by (simp add: expire_def expired_ids_def fields)
  have queue: "bt_values (s_queue example_idle) = [example_job ''a'', example_job ''b'']"
    by (simp add: fields bt_values_def less_char_def)
  have choose: "choose_job example_idle example_runner 100 = Some ''a''"
    unfolding choose_job_def queue using fields
    by (simp add: example_filters example_score) (simp add: example_job_def)
  have rest: "bt_remove ''a'' (bt_insert ''b'' (example_job ''b'') (bt_insert ''a'' (example_job ''a'') bt_empty)) =
      bt_insert ''b'' (example_job ''b'') bt_empty"
    by (rule btree_eqI) simp
  have issue: "issue_lease example_idle ''a'' ''r1'' 100 =
      (Inr (example_lease ''lease-1'' ''a''), example_offered)"
    by (simp add: issue_lease_def rest fields Let_def unwrap_or_def checked_add_def lease_name_1)
      (simp add: new_lease_def example_job_def example_lease_def example_offered_def example_idle_def
        scheduler_new_def saturating_add_def DEFAULT_ACCEPT_WINDOW_MS_def DEFAULT_LEASE_DURATION_MS_def)
  have online: "rn_status example_runner = Online" by (simp add: example_runner_def)
  show ?thesis
    unfolding offer_for_runner_observed_def expire and_then.simps queue Let_def
    using fields
    by (simp add: online choose issue bt_len_def less_char_def example_filters
        try_from_size_or_max_def try_from_size_def)
qed

lemma example_offered_run:
  "scheduler_run [Call_Set_Quota ''t'' example_quota, Call_Register example_runner, Call_Enqueue (example_job ''a''),
     Call_Enqueue (example_job ''b''), Call_Offer ''r1'' 100 0] (scheduler_new 5) = example_offered"
  using example_idle_run example_offer by simp

lemma example_offered_ok: "scheduler_ok example_offered"
  unfolding example_offered_run [symmetric] using scheduler_new_ok by (rule calls.run_ok)

lemma example_offered_fields:
  "bt_get (s_leases example_offered) ''lease-1'' = Some (example_lease ''lease-1'' ''a'')"
  "bt_get (s_leased_jobs example_offered) ''lease-1'' = Some (example_job ''a'')"
  "bt_get (s_runners example_offered) ''r1'' = Some example_runner"
  "s_installation_fencing_epoch example_offered = 5"
  by (simp_all add: example_offered_def example_idle_def scheduler_new_def)

lemma example_fence: "validate_fence example_offered ''lease-1'' ''r1'' 1 5 = Inr ()"
  by (simp add: validate_fence_def example_offered_fields) (simp add: example_lease_def)

theorem lease_exclusive_witness:
  "bt_get (s_queue (scheduler_run [Call_Set_Quota ''t'' example_quota, Call_Register example_runner, Call_Enqueue (example_job ''a''),
     Call_Enqueue (example_job ''b''), Call_Offer ''r1'' 100 0] (scheduler_new 5))) ''a'' = None"
proof -
  have "bt_get (s_leases (scheduler_run [Call_Set_Quota ''t'' example_quota, Call_Register example_runner, Call_Enqueue (example_job ''a''),
     Call_Enqueue (example_job ''b''), Call_Offer ''r1'' 100 0] (scheduler_new 5))) ''lease-1'' =
     Some (example_lease ''lease-1'' ''a'')"
    unfolding example_offered_run by (rule example_offered_fields)
  from lease_exclusive [OF this] show ?thesis
    by (simp add: example_lease_def is_live_def)
qed

theorem offer_is_best_witness:
  "hard_filters example_idle (example_job ''a'') example_runner \<and>
   (\<exists>job. bt_get (s_queue example_idle) ''a'' = Some job \<and> available example_runner (qj_requirements job))"
proof -
  have expire: "expire example_idle 100 = (Inr [], example_idle)"
    by (simp add: expire_def expired_ids_def example_idle_def scheduler_new_def)
  have runner: "bt_get (s_runners (snd (expire example_idle 100))) ''r1'' = Some example_runner"
    and job: "bt_get (s_queue example_idle) ''a'' = Some (example_job ''a'')"
    by (simp_all add: expire) (simp_all add: example_idle_def)
  have "fst (offer_for_runner_observed example_idle ''r1'' 100 0) =
      Inr \<lparr>of_lease = Some (example_lease ''lease-1'' ''a''),
        of_placement = placement_observation ''r1'' 2 2 (Some ''a'')
          (Some (scheduler_score_observation example_idle (example_job ''a'') example_runner 100)) 0\<rparr>"
    by (simp add: example_offer)
  from offer_is_best [OF example_idle_ok this runner] show ?thesis
    using job by (auto simp: example_lease_def expire)
qed

theorem ended_lease_fenced_witness:
  "\<exists>e. heartbeat (scheduler_run [Call_Expire 500]
       (snd (decide_offer example_offered ''lease-1'' ''r1'' 1 False 200))) ''lease-1'' ''r1'' 1 5 900 =
     (Inl e, scheduler_run [Call_Expire 500] (snd (decide_offer example_offered ''lease-1'' ''r1'' 1 False 200)))"
proof -
  let ?S = "snd (decide_offer example_offered ''lease-1'' ''r1'' 1 False 200)"
  have "scheduler_ok ?S"
    using decide_offer_keeps [of example_offered] example_offered_ok by (simp add: keeps_def)
  moreover have "bt_get (s_leases ?S) ''lease-1'' = Some ((example_lease ''lease-1'' ''a'')\<lparr>le_state := Rejected\<rparr>)"
    by (simp add: decide_offer_def example_fence example_offered_fields)
      (simp add: return_offer_def example_lease_def example_offered_fields)
  moreover have "\<not> is_live (le_state ((example_lease ''lease-1'' ''a'')\<lparr>le_state := Rejected\<rparr>))"
    by (simp add: is_live_def)
  ultimately show ?thesis
    using ended_lease_fenced [of ?S "''lease-1''" _ "[Call_Expire 500]" "''r1''" 1 5 900] by blast
qed

definition example_active :: Scheduler where
  "example_active =
     example_offered
       \<lparr>s_leases := bt_insert ''lease-1'' ((example_lease ''lease-1'' ''a'')\<lparr>le_state := Active\<rparr>) (s_leases example_offered),
        s_running_by_tenant := bt_insert ''t'' 1 bt_empty,
        s_runners := bt_insert ''r1'' (resources_reserve example_runner example_requirements) (s_runners example_offered)\<rparr>"

lemma example_accepted: "decide_offer example_offered ''lease-1'' ''r1'' 1 True 200 = (Inr Active, example_active)"
  by (simp add: decide_offer_def example_fence example_offered_fields example_active_def)
    (simp add: example_lease_def example_job_def example_offered_def example_idle_def
      scheduler_new_def unwrap_or_def)

lemma example_active_ok: "scheduler_ok example_active"
  using decide_offer_keeps [of example_offered "''lease-1''" "''r1''" 1 True 200] example_offered_ok
  by (simp add: keeps_def example_accepted)

lemma example_active_fields:
  "bt_get (s_leases example_active) ''lease-1'' = Some ((example_lease ''lease-1'' ''a'')\<lparr>le_state := Active\<rparr>)"
  "bt_get (s_leased_jobs example_active) ''lease-1'' = Some (example_job ''a'')"
  "bt_get (s_runners example_active) ''r1'' = Some (resources_reserve example_runner example_requirements)"
  "s_installation_fencing_epoch example_active = 5"
  by (simp_all add: example_active_def example_offered_fields)

theorem restore_fences_all_witness:
  "validate_fence (snd (restore_fencing_epoch example_active 6)) ''lease-1'' ''r1'' 1 5 =
     Inl (StaleInstallationEpoch 6 5) \<and>
   bt_get (s_queue (snd (restore_fencing_epoch example_active 6))) ''a'' = Some (example_job ''a'') \<and>
   bt_get (s_runners example_active) ''r1'' \<noteq> Some example_runner \<and>
   bt_get (s_runners (snd (restore_fencing_epoch example_active 6))) ''r1'' = Some example_runner"
proof -
  have "tracked example_active (example_job ''a'')"
    using example_active_fields(2) by (rule tracked_leased)
  moreover have "s_installation_fencing_epoch (snd (restore_fencing_epoch example_active 6)) = 6"
    by (rule restore_fields) (simp add: example_active_fields)
  ultimately show ?thesis
    using restore_fences_all [OF example_active_ok _ example_active_fields(1), of 6 "example_job ''a''" "[]" "''r1''" 1 "''r1''"]
    by (simp add: example_active_fields)
      (simp add: example_lease_def example_job_def example_runner_def example_requirements_def
        resources_reserve_def saturating_add_def)
qed

theorem no_job_lost_witness:
  "accounted_loss example_active (perform (Call_Complete ''lease-1'' ''r1'' 1 5 (ContentDigest ''d'')) example_active)
     (example_job ''a'')"
proof (rule no_job_lost)
  show "scheduler_ok example_active"
    by (rule example_active_ok)
  show "tracked example_active (example_job ''a'')"
    using example_active_fields(2) by (rule tracked_leased)
  show "\<not> tracked (perform (Call_Complete ''lease-1'' ''r1'' 1 5 (ContentDigest ''d'')) example_active) (example_job ''a'')"
    by (simp add: example_active_def complete_def validate_fence_def example_offered_fields is_running_def)
      (simp add: tracked_def example_lease_def example_job_def example_offered_def is_running_def)
qed

theorem reserve_release_exact_witness:
  "resources_release (resources_reserve example_runner example_requirements) (Some example_requirements)
     = example_runner"
proof -
  have "within_capacity example_runner" "available example_runner example_requirements"
    by (simp_all add: within_capacity_def available_def isolation_available_def example_runner_def
        example_requirements_def saturating_sub_def)
  then show ?thesis
    using reserve_release_exact [of example_runner example_requirements]
    by (simp add: example_runner_def)
qed

theorem canceled_offer_releases_unreserved_witness:
  "case complete (snd (request_cancel example_offered ''a'')) ''lease-1'' ''r1'' 1 5 (ContentDigest ''d'') of
     (result, S') \<Rightarrow> result = Inr () \<and>
       bt_get (s_runners S') ''r1'' = Some (resources_release example_runner (Some example_requirements))"
  using canceled_offer_releases_unreserved [OF example_offered_ok example_offered_fields(1) _
      example_offered_fields(2), of example_runner "ContentDigest ''d''"]
  by (simp add: example_lease_def example_offered_fields example_job_def split: prod.splits)

lemma lease_name_2: "lease_name 2 = ''lease-2''"
  by (simp add: lease_name_def show_u64_def show_nat.simps digit_char_def) code_simp

definition example_offered_twice :: Scheduler where
  "example_offered_twice =
     example_offered
       \<lparr>s_queue := bt_empty,
        s_leases := bt_insert ''lease-2'' (example_lease ''lease-2'' ''b'') (s_leases example_offered),
        s_leased_jobs := bt_insert ''lease-2'' (example_job ''b'') (s_leased_jobs example_offered),
        s_active_lease_by_job := bt_insert ''b'' ''lease-2'' (s_active_lease_by_job example_offered),
        s_generation_by_job := bt_insert ''b'' 1 (s_generation_by_job example_offered),
        s_next_lease_id := 3\<rparr>"

lemma example_second_offer:
  "snd (offer_for_runner_observed example_offered ''r1'' 100 0) = example_offered_twice"
proof -
  have fields: "s_running_by_tenant example_offered = bt_empty" "s_quotas example_offered = bt_insert ''t'' example_quota bt_empty"
    "s_next_lease_id example_offered = 2"
    "s_queue example_offered = bt_insert ''b'' (example_job ''b'') bt_empty"
    "bt_get (s_generation_by_job example_offered) ''b'' = None"
    by (simp_all add: example_offered_def example_idle_def scheduler_new_def)
  have expire: "expire example_offered 100 = (Inr [], example_offered)"
    by (simp add: expire_def expired_ids_def)
      (simp add: example_offered_def example_lease_def lease_deadline_def)
  have queue: "bt_values (s_queue example_offered) = [example_job ''b'']"
    by (simp add: fields bt_values_def)
  have choose: "choose_job example_offered example_runner 100 = Some ''b''"
    unfolding choose_job_def queue using fields by (simp add: example_filters) (simp add: example_job_def)
  have rest: "bt_remove ''b'' (bt_insert ''b'' (example_job ''b'') bt_empty) = bt_empty"
    by (rule btree_eqI) simp
  have issue: "issue_lease example_offered ''b'' ''r1'' 100 =
      (Inr (example_lease ''lease-2'' ''b''), example_offered_twice)"
    by (simp add: issue_lease_def rest fields Let_def unwrap_or_def checked_add_def lease_name_2)
      (simp add: new_lease_def example_job_def example_lease_def example_offered_twice_def fields
        example_offered_fields saturating_add_def DEFAULT_ACCEPT_WINDOW_MS_def
        DEFAULT_LEASE_DURATION_MS_def)
  have online: "rn_status example_runner = Online" by (simp add: example_runner_def)
  show ?thesis
    unfolding offer_for_runner_observed_def expire and_then.simps Let_def
    by (simp add: example_offered_fields online choose issue)
qed

lemma example_offered_twice_run:
  "scheduler_run [Call_Set_Quota ''t'' example_quota, Call_Register example_runner, Call_Enqueue (example_job ''a''),
     Call_Enqueue (example_job ''b''), Call_Offer ''r1'' 100 0, Call_Offer ''r1'' 100 0]
     (scheduler_new 5) = example_offered_twice"
  using example_offered_run example_second_offer by simp

lemma example_offered_twice_fields:
  "bt_get (s_leases example_offered_twice) ''lease-1'' = Some (example_lease ''lease-1'' ''a'')"
  "bt_get (s_leases example_offered_twice) ''lease-2'' = Some (example_lease ''lease-2'' ''b'')"
  "bt_get (s_leased_jobs example_offered_twice) ''lease-1'' = Some (example_job ''a'')"
  "bt_get (s_leased_jobs example_offered_twice) ''lease-2'' = Some (example_job ''b'')"
  "bt_get (s_runners example_offered_twice) ''r1'' = Some example_runner"
  "s_quotas example_offered_twice = bt_insert ''t'' example_quota bt_empty"
  "s_running_by_tenant example_offered_twice = bt_empty"
  by (simp_all add: example_offered_twice_def example_offered_fields)
    (simp_all add: example_offered_def example_idle_def scheduler_new_def)

theorem acceptance_overruns_capacity_witness:
  "\<exists>S r running.
     scheduler_run [Call_Set_Quota ''t'' example_quota, Call_Register example_runner, Call_Enqueue (example_job ''a''),
       Call_Enqueue (example_job ''b''), Call_Offer ''r1'' 100 0, Call_Offer ''r1'' 100 0,
       Call_Decide ''lease-1'' ''r1'' 1 True 200, Call_Decide ''lease-2'' ''r1'' 1 True 200]
       (scheduler_new 5) = S \<and>
     bt_get (s_runners S) ''r1'' = Some r \<and> rn_max_concurrent_wasm_jobs r < rn_active_wasm_jobs r \<and>
     bt_get (s_running_by_tenant S) ''t'' = Some running \<and> tq_maximum_running_jobs example_quota < running"
proof -
  have lease: "le_state (example_lease k j) = Offered" "200 \<le> le_accept_by_unix_ms (example_lease k j)"
    "le_runner_id (example_lease k j) = ''r1''" "le_tenant_id (example_lease k j) = ''t''"
    "le_fencing_generation (example_lease k j) = 1" for k j
    by (simp_all add: example_lease_def)
  have job: "qj_tenant_id (example_job j) = ''t''" "sr_isolation (qj_requirements (example_job j)) = Wasm" for j
    by (simp_all add: example_job_def example_requirements_def)
  have "\<exists>S1 S2 r2 running.
     decide_offer example_offered_twice ''lease-1'' ''r1'' 1 True 200 = (Inr Active, S1) \<and>
     decide_offer S1 ''lease-2'' ''r1'' 1 True 200 = (Inr Active, S2) \<and>
     bt_get (s_runners S2) ''r1'' = Some r2 \<and> rn_max_concurrent_wasm_jobs r2 < rn_active_wasm_jobs r2 \<and>
     bt_get (s_running_by_tenant S2) ''t'' = Some running \<and> tq_maximum_running_jobs example_quota < running"
    using acceptance_overruns_capacity [OF example_offered_twice_fields(1) lease(1,2) example_offered_twice_fields(3)
        example_filters _ example_offered_twice_fields(2) lease(1,2) example_offered_twice_fields(4) example_filters,
        of example_quota] lease(3-5) job example_offered_twice_fields(5-7)
    by (fastforce simp: example_runner_def example_quota_def unwrap_or_def)
  then obtain S1 S2 r2 running where S: "snd (decide_offer example_offered_twice ''lease-1'' ''r1'' 1 True 200) = S1"
     "snd (decide_offer S1 ''lease-2'' ''r1'' 1 True 200) = S2"
     "bt_get (s_runners S2) ''r1'' = Some r2" "rn_max_concurrent_wasm_jobs r2 < rn_active_wasm_jobs r2"
     "bt_get (s_running_by_tenant S2) ''t'' = Some running" "tq_maximum_running_jobs example_quota < running"
    by auto
  show ?thesis
    using example_offered_twice_run S
    by (intro exI [of _ S2] exI [of _ r2] exI [of _ running]) simp
qed

end
