(* ===== verification/Double_Numbers.thy ===== *)
theory Double_Numbers
  imports Complex_Main "HOL-Library.Log_Nat" Model_Primitives
begin

text \<open>
  The part of \<^verbatim>\<open>f64\<close> the expression language uses. A finite double is its exact rational value;
  the two zeros are one value, because every use in \<^verbatim>\<open>crates/expression\<close> (comparison, magnitude,
  the printed form of zero) treats them alike. Reading a decimal rounds its exact value to the
  nearest double, ties to the even significand, with the exponent range and the subnormal numbers
  of the binary64 format; printing gives the decimal with the fewest fractional digits that reads
  back as the same double, which for the magnitudes the language admits (below \<open>2 ^ 53\<close>) is the
  shortest form \<^verbatim>\<open>Display for f64\<close> produces.
\<close>

datatype f64 = Finite rat | Infinite bool | NaN

text \<open>Text is the list of Unicode scalar values of a \<^verbatim>\<open>str\<close>.\<close>

type_synonym scalar = nat
type_synonym str = "scalar list"

definition lit :: "string \<Rightarrow> str" where
  "lit s = map of_char s"

subsection \<open>Rounding to the format\<close>

definition round_half_even :: "rat \<Rightarrow> int" where
  "round_half_even x =
     (let n = \<lfloor>x\<rfloor>; r = x - of_int n in
      if r < 1 / 2 then n else if r > 1 / 2 then n + 1 else if even n then n else n + 1)"

definition ilog2 :: "rat \<Rightarrow> int" where
  "ilog2 x =
     (let (n, d) = quotient_of x;
          k = int (floorlog 2 (nat n)) - int (floorlog 2 (nat d)) in
      if 2 powi k \<le> x then k else k - 1)"

definition ulp_exponent :: "rat \<Rightarrow> int" where
  "ulp_exponent x = max (- 1074) (ilog2 x - 52)"

definition round_positive :: "rat \<Rightarrow> rat" where
  "round_positive x =
     (let e = ulp_exponent x in of_int (round_half_even (x / 2 powi e)) * 2 powi e)"

definition round_f64 :: "rat \<Rightarrow> f64" where
  "round_f64 x =
     (if x = 0 then Finite 0
      else
        let r = round_positive \<bar>x\<bar> in
        if r \<ge> 2 ^ 1024 then Infinite (x < 0) else Finite (if x < 0 then - r else r))"

definition representable :: "rat \<Rightarrow> bool" where
  "representable v \<longleftrightarrow> round_f64 v = Finite v"

lemma round_half_even_int [simp]: "round_half_even (of_int n) = n"
  by (simp add: round_half_even_def)

lemma round_half_even_nonneg: "0 \<le> x \<Longrightarrow> 0 \<le> round_half_even x"
  by (simp add: round_half_even_def Let_def)

lemma round_half_even_le: "x \<le> of_int n \<Longrightarrow> round_half_even x \<le> n"
proof -
  assume le: "x \<le> of_int n"
  then have "\<lfloor>x\<rfloor> < n \<or> x = of_int n"
    by (metis floor_less_iff less_eq_rat_def)
  then show ?thesis
    by (auto simp: round_half_even_def Let_def)
qed

lemma ilog2_bounds:
  assumes "0 < x"
  shows "2 powi ilog2 x \<le> x" "x < 2 powi (ilog2 x + 1)"
proof -
  obtain n d where q: "quotient_of x = (n, d)"
    by (cases "quotient_of x")
  then have d: "0 < d" and x: "x = of_int n / of_int d"
    by (simp_all add: quotient_of_denom_pos quotient_of_div)
  with assms have n: "0 < n"
    by (simp add: zero_less_divide_iff)
  define a where "a = floorlog 2 (nat n)"
  define b where "b = floorlog 2 (nat d)"
  have na: "2 ^ (a - 1) \<le> nat n" "nat n < 2 ^ a" "0 < a"
    using n floorlog_bounds [of "nat n" 2] floorlog_eq_zero_iff [of 2 "nat n"] by (auto simp: a_def)
  have db: "2 ^ (b - 1) \<le> nat d" "nat d < 2 ^ b" "0 < b"
    using d floorlog_bounds [of "nat d" 2] floorlog_eq_zero_iff [of 2 "nat d"] by (auto simp: b_def)
  have rn: "(2::rat) ^ (a - 1) \<le> of_int n" "of_int n < (2::rat) ^ a"
    using na n by (metis of_int_of_nat_eq of_nat_le_iff of_nat_numeral of_nat_power nat_0_le order_less_imp_le,
      metis of_int_of_nat_eq of_nat_less_iff of_nat_numeral of_nat_power nat_0_le order_less_imp_le)
  have rd: "(2::rat) ^ (b - 1) \<le> of_int d" "of_int d < (2::rat) ^ b"
    using db d by (metis of_int_of_nat_eq of_nat_le_iff of_nat_numeral of_nat_power nat_0_le order_less_imp_le,
      metis of_int_of_nat_eq of_nat_less_iff of_nat_numeral of_nat_power nat_0_le order_less_imp_le)
  define k where "k = int a - int b"
  have lower: "2 powi (k - 1) \<le> x"
  proof -
    have "2 powi (k - 1) * of_int d \<le> (2::rat) powi (k - 1) * 2 ^ b"
      using rd by simp
    also have "\<dots> = 2 ^ (a - 1)"
      using na db by (simp add: k_def power_int_diff power_int_add field_simps power_minus_mult flip: power_int_of_nat)
    also have "\<dots> \<le> of_int n"
      by (rule rn)
    finally show ?thesis
      using d by (simp add: x pos_le_divide_eq)
  qed
  have upper: "x < 2 powi (k + 1)"
  proof -
    have "of_int n < (2::rat) ^ a"
      by (rule rn)
    also have "\<dots> = 2 powi (k + 1) * 2 ^ (b - 1)"
      using na db by (simp add: k_def power_int_diff power_int_add field_simps power_minus_mult flip: power_int_of_nat)
    also have "\<dots> \<le> 2 powi (k + 1) * of_int d"
      using rd by simp
    finally show ?thesis
      using d by (simp add: x pos_divide_less_eq)
  qed
  have il: "ilog2 x = (if 2 powi k \<le> x then k else k - 1)"
    by (simp add: ilog2_def q k_def a_def b_def)
  show "2 powi ilog2 x \<le> x" "x < 2 powi (ilog2 x + 1)"
    using lower upper by (auto simp: il)
qed

lemma powi_less_iff: "(2::rat) powi a < 2 powi b \<longleftrightarrow> a < b"
  using power_int_strict_increasing [of a b "2::rat"] power_int_increasing [of b a "2::rat"]
  by (metis linorder_not_less one_less_numeral_iff semiring_norm(76) not_less one_le_numeral)

lemma ulp_exponent_least:
  assumes "0 < x" "x < 2 powi (e + 53)" "- 1074 \<le> e"
  shows "ulp_exponent x \<le> e"
proof -
  have "2 powi ilog2 x < (2::rat) powi (e + 53)"
    using ilog2_bounds(1) [OF assms(1)] assms(2) by (rule le_less_trans)
  then show ?thesis
    using assms(3) by (simp add: powi_less_iff ulp_exponent_def)
qed

lemma significand_bound:
  assumes "0 < x"
  shows "x / 2 powi ulp_exponent x < 2 ^ 53"
proof -
  have "x < 2 powi (ilog2 x + 1)"
    by (rule ilog2_bounds(2) [OF assms])
  also have "\<dots> \<le> (2::rat) powi (ulp_exponent x + 53)"
    by (rule power_int_increasing) (simp_all add: ulp_exponent_def)
  also have "\<dots> = 2 ^ 53 * 2 powi ulp_exponent x"
    by (simp add: power_int_add)
  finally show ?thesis
    by (simp add: pos_divide_less_eq)
qed

lemma round_positive_grid:
  assumes v: "v = of_int m * 2 powi e" and m: "0 < m" "m \<le> 2 ^ 53" and e: "- 1074 \<le> e"
  shows "round_positive v = v"
proof -
  have pos: "0 < v"
    using v m by simp
  have fine: "round_positive v = v" if "v = of_int k * 2 powi i" "0 < k" "k < 2 ^ 53" "- 1074 \<le> i" for k i
  proof -
    have "v < 2 ^ 53 * 2 powi i"
      using that by simp
    then have "ulp_exponent v \<le> i"
      by (intro ulp_exponent_least pos that) (simp add: power_int_add)
    then obtain j where i: "i = ulp_exponent v + int j"
      by (metis zle_iff_zadd)
    define e' where "e' = ulp_exponent v"
    have vj: "v = of_int k * 2 powi (e' + int j)"
      using that(1) by (simp add: i e'_def)
    then have "v / 2 powi e' = of_int (k * 2 ^ j)"
      by (simp add: power_int_add)
    then have "round_half_even (v / 2 powi e') = k * 2 ^ j"
      by (metis round_half_even_int)
    then have "round_positive v = of_int (k * 2 ^ j) * 2 powi e'"
      by (simp add: round_positive_def Let_def e'_def [symmetric])
    then show ?thesis
      by (simp add: vj power_int_add)
  qed
  show ?thesis
  proof (cases "m < 2 ^ 53")
    case True
    then show ?thesis
      using fine v m e by blast
  next
    case False
    then have "m = 2 ^ 53"
      using m by simp
    then have "v = of_int (2 ^ 52) * 2 powi (e + 1)"
      using v by (simp add: power_int_add)
    then show ?thesis
      using fine [of "2 ^ 52" "e + 1"] e by simp
  qed
qed

lemma representableI:
  assumes v: "v = of_int m * 2 powi e" and m: "\<bar>m\<bar> \<le> 2 ^ 53" and e: "- 1074 \<le> e" and small: "\<bar>v\<bar> < 2 ^ 1024"
  shows "representable v"
proof (cases "m = 0")
  case True
  then show ?thesis
    by (simp add: v representable_def round_f64_def)
next
  case False
  have "\<bar>v\<bar> = of_int \<bar>m\<bar> * 2 powi e"
    by (simp add: v abs_mult)
  then have "round_positive \<bar>v\<bar> = \<bar>v\<bar>"
    using round_positive_grid [of "\<bar>v\<bar>" "\<bar>m\<bar>" e] False m e by simp
  then show ?thesis
    using small False by (auto simp: representable_def round_f64_def Let_def v)
qed

lemma round_positive_form:
  assumes "0 < x"
  obtains m e where "round_positive x = of_int m * 2 powi e" "0 \<le> m" "m \<le> 2 ^ 53" "- 1074 \<le> e"
proof -
  define m where "m = round_half_even (x / 2 powi ulp_exponent x)"
  have "m \<le> 2 ^ 53"
    unfolding m_def using significand_bound [OF assms] by (intro round_half_even_le) simp
  moreover have "0 \<le> m"
    unfolding m_def using assms by (intro round_half_even_nonneg) simp
  ultimately show thesis
    by (intro that [of m "ulp_exponent x"]) (simp_all add: round_positive_def Let_def m_def ulp_exponent_def)
qed

lemma round_f64_form:
  assumes "round_f64 x = Finite v"
  obtains m e where "v = of_int m * 2 powi e" "\<bar>m\<bar> \<le> 2 ^ 53" "- 1074 \<le> e" "\<bar>v\<bar> < 2 ^ 1024"
proof (cases "x = 0")
  case True
  then show thesis
    using assms that [of 0 0] by (simp add: round_f64_def)
next
  case False
  then obtain m e where r: "round_positive \<bar>x\<bar> = of_int m * 2 powi e" "0 \<le> m" "m \<le> 2 ^ 53" "- 1074 \<le> e"
    using round_positive_form [of "\<bar>x\<bar>"] by auto
  have small: "round_positive \<bar>x\<bar> < 2 ^ 1024"
    using assms False by (simp add: round_f64_def Let_def split: if_splits)
  moreover have "0 \<le> round_positive \<bar>x\<bar>"
    using r by simp
  moreover have "v = (if x < 0 then - round_positive \<bar>x\<bar> else round_positive \<bar>x\<bar>)"
    using assms False by (simp add: round_f64_def Let_def split: if_splits)
  ultimately show thesis
    using that [of "if x < 0 then - m else m" e] r by (auto split: if_splits)
qed

lemma round_f64_representable: "round_f64 x = Finite v \<Longrightarrow> representable v"
  by (metis round_f64_form representableI)

lemma round_f64_of_int:
  assumes "\<bar>n\<bar> \<le> 2 ^ 53"
  shows "round_f64 (of_int n) = Finite (of_int n)"
proof -
  have "\<bar>of_int n\<bar> \<le> (of_int (2 ^ 53) :: rat)"
    using assms by (simp only: of_int_abs [symmetric] of_int_le_iff)
  then have "\<bar>of_int n\<bar> < (2 ^ 1024 :: rat)"
    by (rule le_less_trans) simp
  then show ?thesis
    using representableI [of "of_int n" n 0] assms by (simp add: representable_def)
qed

lemma representable_uminus [simp]: "representable (- v) \<longleftrightarrow> representable v"
  by (auto simp: representable_def round_f64_def Let_def split: if_splits)

lemma dyadic_decimal:
  assumes "- int N \<le> e"
  obtains n where "of_int m * 2 powi e * (10::rat) ^ N = of_int n"
proof -
  obtain j where j: "e = int j - int N"
    using assms by (metis add.commute add_diff_cancel_left' diff_minus_eq_add zle_iff_zadd)
  have "(10::rat) ^ N = 2 ^ N * 5 ^ N"
    by (simp add: power_mult_distrib [symmetric])
  then have "of_int m * 2 powi e * (10::rat) ^ N = of_int (m * (2 ^ j * 5 ^ N))"
    by (simp add: j power_int_diff)
  then show thesis
    by (rule that)
qed

lemma representable_decimal:
  assumes "representable v"
  obtains n where "v * 10 ^ 1074 = of_int n"
proof -
  obtain m e where v: "v = of_int m * 2 powi e" and e: "- 1074 \<le> e"
    using assms round_f64_form unfolding representable_def by metis
  have "- int 1074 \<le> e"
    using e by simp
  then show thesis
    using dyadic_decimal [of 1074 e m] that unfolding v by blast
qed

subsection \<open>Reading and printing decimals\<close>

definition is_ascii_digit :: "scalar \<Rightarrow> bool" where
  "is_ascii_digit c \<longleftrightarrow> 48 \<le> c \<and> c \<le> 57"

fun digits_value :: "nat \<Rightarrow> str \<Rightarrow> nat" where
  "digits_value acc [] = acc"
| "digits_value acc (c # cs) = digits_value (acc * 10 + (c - 48)) cs"

fun split_sign :: "str \<Rightarrow> bool \<times> str" where
  "split_sign (c # cs) = (if c = 45 then (True, cs) else if c = 43 then (False, cs) else (False, c # cs))"
| "split_sign [] = (False, [])"

definition split_fraction :: "str \<Rightarrow> str \<times> str" where
  "split_fraction cs =
     (case cs of
        [] \<Rightarrow> ([], cs)
      | c # t \<Rightarrow> if c = 46 then (takeWhile is_ascii_digit t, dropWhile is_ascii_digit t) else ([], cs))"

definition read_exponent :: "str \<Rightarrow> int option" where
  "read_exponent cs =
     (case cs of
        [] \<Rightarrow> Some 0
      | c # t \<Rightarrow>
          let (negative, ds) = split_sign t in
          if (c = 101 \<or> c = 69) \<and> ds \<noteq> [] \<and> list_all is_ascii_digit ds
          then Some (if negative then - int (digits_value 0 ds) else int (digits_value 0 ds))
          else None)"

text \<open>
  \<^verbatim>\<open>str::parse::<f64>\<close> on decimal text. The names of infinity and NaN it also accepts start with a
  letter, which no text handed to it by the lexer does.
\<close>

definition f64_from_str :: "str \<Rightarrow> f64 option" where
  "f64_from_str s =
     (let (negative, r) = split_sign s;
          whole = takeWhile is_ascii_digit r;
          (fraction, r') = split_fraction (dropWhile is_ascii_digit r) in
      if whole = [] \<and> fraction = [] then None
      else
        map_option
          (\<lambda>e. let x = of_nat (digits_value 0 (whole @ fraction)) / 10 ^ length fraction * 10 powi e in
               round_f64 (if negative then - x else x))
          (read_exponent r'))"

definition F64_MAX_SCALE :: nat where
  "F64_MAX_SCALE = 1074"

definition reads_back :: "rat \<Rightarrow> nat \<Rightarrow> nat \<Rightarrow> bool" where
  "reads_back a scale c \<longleftrightarrow> round_f64 (of_nat c / 10 ^ scale) = Finite a"

definition decimal_candidates :: "rat \<Rightarrow> nat \<Rightarrow> nat list" where
  "decimal_candidates a scale =
     filter (reads_back a scale) [nat \<lfloor>a * 10 ^ scale\<rfloor>, nat \<lfloor>a * 10 ^ scale\<rfloor> + 1]"

text \<open>
  The fewest fractional digits for which a decimal reads back, and the nearer of the decimals with
  that many digits; two equally near ones are resolved upwards.
\<close>

definition shortest_decimal :: "rat \<Rightarrow> nat \<times> nat" where
  "shortest_decimal a =
     (case find (\<lambda>scale. decimal_candidates a scale \<noteq> []) [0..<Suc F64_MAX_SCALE] of
        None \<Rightarrow> (0, 0)
      | Some scale \<Rightarrow>
          (scale,
           case decimal_candidates a scale of
             [c, d] \<Rightarrow> if a * 10 ^ scale - of_nat c < of_nat d - a * 10 ^ scale then c else d
           | cs \<Rightarrow> hd cs))"

fun fixed_digits :: "nat \<Rightarrow> nat \<Rightarrow> str" where
  "fixed_digits 0 n = []"
| "fixed_digits (Suc w) n = fixed_digits w (n div 10) @ [48 + n mod 10]"

definition decimal_text :: "nat \<Rightarrow> nat \<Rightarrow> str" where
  "decimal_text scale c =
     lit (show_nat (c div 10 ^ scale)) @ (if scale = 0 then [] else 46 # fixed_digits scale c)"

definition f64_to_string :: "f64 \<Rightarrow> str" where
  "f64_to_string x =
     (case x of
        Finite v \<Rightarrow> (if v < 0 then [45] else []) @ (case shortest_decimal \<bar>v\<bar> of (scale, c) \<Rightarrow> decimal_text scale c)
      | Infinite negative \<Rightarrow> lit (if negative then ''-inf'' else ''inf'')
      | NaN \<Rightarrow> lit ''NaN'')"

lemma decimal_candidates_reads_back: "c \<in> set (decimal_candidates a scale) \<Longrightarrow> reads_back a scale c"
  by (auto simp: decimal_candidates_def split: if_splits)

lemma decimal_candidates_length: "length (decimal_candidates a scale) \<le> 2"
  using length_filter_le [of "reads_back a scale"] by (simp add: decimal_candidates_def)

lemma exact_candidate:
  assumes "representable a" "0 \<le> a"
  shows "decimal_candidates a F64_MAX_SCALE \<noteq> []"
proof -
  obtain n where n: "a * 10 ^ F64_MAX_SCALE = of_int n"
    using representable_decimal [OF assms(1)] unfolding F64_MAX_SCALE_def by metis
  have "0 \<le> n"
    using assms(2) n by (metis mult_nonneg_nonneg of_int_0_le_iff zero_le_numeral zero_le_power)
  then have "of_nat (nat \<lfloor>a * 10 ^ F64_MAX_SCALE\<rfloor>) = a * 10 ^ F64_MAX_SCALE"
    by (simp add: n)
  then have "of_nat (nat \<lfloor>a * 10 ^ F64_MAX_SCALE\<rfloor>) / 10 ^ F64_MAX_SCALE = a"
    by simp
  then have "reads_back a F64_MAX_SCALE (nat \<lfloor>a * 10 ^ F64_MAX_SCALE\<rfloor>)"
    using assms(1) by (simp add: reads_back_def representable_def)
  then show ?thesis
    by (simp add: decimal_candidates_def)
qed

lemma find_exists: "x \<in> set xs \<Longrightarrow> P x \<Longrightarrow> \<exists>y. find P xs = Some y \<and> P y"
  by (induction xs) auto

lemma shortest_decimal_reads_back:
  assumes "representable a" "0 \<le> a"
  shows "case shortest_decimal a of (scale, c) \<Rightarrow> reads_back a scale c"
proof -
  obtain scale where s: "find (\<lambda>scale. decimal_candidates a scale \<noteq> []) [0..<Suc F64_MAX_SCALE] = Some scale"
    and ne: "decimal_candidates a scale \<noteq> []"
    using find_exists [of F64_MAX_SCALE "[0..<Suc F64_MAX_SCALE]" "\<lambda>scale. decimal_candidates a scale \<noteq> []"]
      exact_candidate [OF assms] by (auto simp del: upt_Suc)
  have "snd (shortest_decimal a) \<in> set (decimal_candidates a scale)"
    using ne by (auto simp: shortest_decimal_def s simp del: upt_Suc split: list.splits)
  moreover have "fst (shortest_decimal a) = scale"
    by (simp add: shortest_decimal_def s del: upt_Suc)
  ultimately show ?thesis
    by (metis case_prod_beta decimal_candidates_reads_back)
qed

subsection \<open>Printed decimals read back\<close>

lemma lit_append [simp]: "lit (xs @ ys) = lit xs @ lit ys"
  by (simp add: lit_def)

lemma lit_Nil [simp]: "lit [] = []"
  by (simp add: lit_def)

lemma lit_eq_Nil [simp]: "lit s = [] \<longleftrightarrow> s = []"
  by (simp add: lit_def)

lemma digits_value_append: "digits_value acc (xs @ ys) = digits_value (digits_value acc xs) ys"
  by (induction xs arbitrary: acc) simp_all

lemma digits_value_lit: "digits_value acc (lit s) = decimal acc s"
  by (induction s arbitrary: acc) (simp_all add: lit_def)

lemma lit_decimal: "is_decimal s \<Longrightarrow> list_all is_ascii_digit (lit s)"
  by (induction s) (auto simp: lit_def is_decimal_def is_ascii_digit_def less_eq_char_def)

lemma show_nat_digits: "list_all is_ascii_digit (lit (show_nat n))"
  by (rule lit_decimal [OF is_decimal_show])

lemma fixed_digits_digits: "list_all is_ascii_digit (fixed_digits w n)"
proof (induction w arbitrary: n)
  case (Suc w)
  have "n mod 10 \<le> 9"
    by simp
  then show ?case
    using Suc by (simp add: is_ascii_digit_def)
qed simp

lemma length_fixed_digits [simp]: "length (fixed_digits w n) = w"
  by (induction w arbitrary: n) simp_all

lemma digits_value_fixed: "digits_value acc (fixed_digits w n) = acc * 10 ^ w + n mod 10 ^ w"
proof (induction w arbitrary: n)
  case (Suc w)
  have "n mod 10 ^ Suc w = 10 * (n div 10 mod 10 ^ w) + n mod 10"
    by (simp add: mod_mult2_eq)
  then show ?case
    using Suc by (simp add: digits_value_append algebra_simps)
qed simp

lemma span_digits:
  assumes "list_all is_ascii_digit ds" "rest = [] \<or> \<not> is_ascii_digit (hd rest)"
  shows "takeWhile is_ascii_digit (ds @ rest) = ds" "dropWhile is_ascii_digit (ds @ rest) = rest"
proof -
  have *: "\<forall>d\<in>set ds. is_ascii_digit d"
    using assms(1) by (simp add: list_all_iff)
  have "takeWhile is_ascii_digit rest = []" "dropWhile is_ascii_digit rest = rest"
    using assms(2) by (cases rest; simp)+
  then show "takeWhile is_ascii_digit (ds @ rest) = ds" "dropWhile is_ascii_digit (ds @ rest) = rest"
    using * by (simp_all add: takeWhile_append2 dropWhile_append2)
qed

lemma digits_no_sign: "list_all is_ascii_digit (d # ds) \<Longrightarrow> split_sign (d # ds @ rest) = (False, d # ds @ rest)"
  by (auto simp: is_ascii_digit_def)

definition unsigned_value :: "str \<Rightarrow> nat \<Rightarrow> nat \<Rightarrow> bool" where
  "unsigned_value s scale c \<longleftrightarrow>
     (\<exists>whole fraction. s = whole @ (if fraction = [] then [] else 46 # fraction) \<and> whole \<noteq> [] \<and>
        list_all is_ascii_digit (whole @ fraction) \<and> scale = length fraction \<and>
        c = digits_value 0 (whole @ fraction))"

lemma unsigned_decimal_text: "unsigned_value (decimal_text scale c) scale c"
  unfolding unsigned_value_def
proof (intro exI conjI)
  show "decimal_text scale c = lit (show_nat (c div 10 ^ scale)) @
      (if fixed_digits scale c = [] then [] else 46 # fixed_digits scale c)"
    by (cases scale) (simp_all add: decimal_text_def)
  show "c = digits_value 0 (lit (show_nat (c div 10 ^ scale)) @ fixed_digits scale c)"
    using div_mult_mod_eq [of c "10 ^ scale"]
    by (simp add: digits_value_append digits_value_lit decimal_show digits_value_fixed)
qed (simp_all add: show_nat_nonempty show_nat_digits fixed_digits_digits)

lemma from_str_unsigned:
  assumes "unsigned_value s scale c"
  shows "f64_from_str s = Some (round_f64 (of_nat c / 10 ^ scale))"
    "f64_from_str (45 # s) = Some (round_f64 (- (of_nat c / 10 ^ scale)))"
proof -
  obtain whole fraction where s: "s = whole @ (if fraction = [] then [] else 46 # fraction)"
    and w: "whole \<noteq> []" and d: "list_all is_ascii_digit whole" "list_all is_ascii_digit fraction"
    and c: "scale = length fraction" "c = digits_value 0 (whole @ fraction)"
    using assms unfolding unsigned_value_def by (auto simp del: digits_value.simps)
  have stop: "(if fraction = [] then [] else 46 # fraction) = [] \<or>
      \<not> is_ascii_digit (hd (if fraction = [] then [] else 46 # fraction))"
    by (simp add: is_ascii_digit_def)
  have sp: "takeWhile is_ascii_digit s = whole"
    "dropWhile is_ascii_digit s = (if fraction = [] then [] else 46 # fraction)"
    unfolding s by (rule span_digits [OF d(1) stop])+
  have fr: "split_fraction (if fraction = [] then [] else 46 # fraction) = (fraction, [])"
    using span_digits [OF d(2), of "[]"] by (simp add: split_fraction_def)
  have "split_sign s = (False, s)"
    using w d digits_no_sign unfolding s by (cases whole) auto
  then show "f64_from_str s = Some (round_f64 (of_nat c / 10 ^ scale))"
    "f64_from_str (45 # s) = Some (round_f64 (- (of_nat c / 10 ^ scale)))"
    by (simp_all add: f64_from_str_def sp fr w c read_exponent_def)
qed

lemma round_f64_uminus: "round_f64 x = Finite a \<Longrightarrow> 0 \<le> x \<Longrightarrow> round_f64 (- x) = Finite (- a)"
  by (auto simp: round_f64_def Let_def split: if_splits)

lemma f64_display_roundtrip:
  assumes "representable v"
  shows "f64_from_str (f64_to_string (Finite v)) = Some (Finite v)"
proof -
  obtain scale c where sc: "shortest_decimal \<bar>v\<bar> = (scale, c)"
    by (cases "shortest_decimal \<bar>v\<bar>")
  have "representable \<bar>v\<bar>"
    using assms by (simp add: abs_if)
  then have rb: "round_f64 (of_nat c / 10 ^ scale) = Finite \<bar>v\<bar>"
    using shortest_decimal_reads_back [of "\<bar>v\<bar>"] by (simp add: sc reads_back_def)
  have neg: "round_f64 (- (of_nat c / 10 ^ scale)) = Finite (- \<bar>v\<bar>)"
    by (rule round_f64_uminus [OF rb]) simp
  have shown: "f64_to_string (Finite v) = (if v < 0 then [45] else []) @ decimal_text scale c"
    by (simp add: f64_to_string_def sc)
  show ?thesis
    using from_str_unsigned [OF unsigned_decimal_text, of scale c] rb neg
    by (auto simp: shown abs_if)
qed

end
