(* ===== verification/Expression_Values.thy ===== *)
theory Expression_Values
  imports Double_Numbers BTree
begin

text \<open>
  The values of the condition language (\<^verbatim>\<open>crates/expression/src/{span,value,context}.rs\<close>): typed
  scalars carrying the security labels and the sources they depend on, the constructors that
  validate numbers, and the flattened context a condition is evaluated in. A \<^verbatim>\<open>String\<close> of this
  crate is the list of its Unicode scalar values (the type \<open>str\<close>), because the lexer walks over
  characters; \<open>str_len\<close> is its length in UTF-8 bytes, and the lexicographic order on scalar values
  is the byte order of \<^verbatim>\<open>Ord for str\<close>.
\<close>

definition len_utf8 :: "scalar \<Rightarrow> nat" where
  "len_utf8 c = (if c < 128 then 1 else if c < 2048 then 2 else if c < 65536 then 3 else 4)"

definition str_len :: "str \<Rightarrow> nat" where
  "str_len s = sum_list (map len_utf8 s)"

text \<open>\<^verbatim>\<open>path.join(".")\<close>\<close>

fun join_dots :: "str list \<Rightarrow> str" where
  "join_dots [] = []"
| "join_dots [p] = p"
| "join_dots (p # q # ps) = p @ 46 # join_dots (q # ps)"

lemma len_utf8_pos: "0 < len_utf8 c"
  by (simp add: len_utf8_def)

lemma str_len_simps [simp]:
  "str_len [] = 0"
  "str_len (c # s) = len_utf8 c + str_len s"
  "str_len (s @ t) = str_len s + str_len t"
  by (simp_all add: str_len_def)

subsection \<open>Spans\<close>

record Span =
  sp_start :: nat
  sp_end :: nat

definition span_new :: "nat \<Rightarrow> nat \<Rightarrow> Span" where
  "span_new s e = \<lparr>sp_start = s, sp_end = e\<rparr>"

definition through :: "Span \<Rightarrow> Span \<Rightarrow> Span" where
  "through s t = span_new (sp_start s) (sp_end t)"

subsection \<open>Labels and provenance\<close>

record Taint =
  ta_untrusted :: bool
  ta_secret :: bool

definition taint_trusted :: Taint where
  "taint_trusted = \<lparr>ta_untrusted = False, ta_secret = False\<rparr>"

definition taint_untrusted :: Taint where
  "taint_untrusted = \<lparr>ta_untrusted = True, ta_secret = False\<rparr>"

definition taint_secret :: Taint where
  "taint_secret = \<lparr>ta_untrusted = False, ta_secret = True\<rparr>"

definition taint_merge :: "Taint \<Rightarrow> Taint \<Rightarrow> Taint" where
  "taint_merge a b =
     \<lparr>ta_untrusted = (ta_untrusted a \<or> ta_untrusted b), ta_secret = (ta_secret a \<or> ta_secret b)\<rparr>"

record Provenance =
  pr_taint :: Taint
  pr_sources :: "str list"

definition provenance_default :: Provenance where
  "provenance_default = \<lparr>pr_taint = taint_trusted, pr_sources = []\<rparr>"

definition from_source :: "str \<Rightarrow> Taint \<Rightarrow> Provenance" where
  "from_source source taint = \<lparr>pr_taint = taint, pr_sources = [source]\<rparr>"

definition add_source :: "str \<Rightarrow> Provenance \<Rightarrow> Provenance" where
  "add_source source p =
     (if source \<in> set (pr_sources p) then p else p\<lparr>pr_sources := pr_sources p @ [source]\<rparr>)"

definition provenance_merge :: "Provenance \<Rightarrow> Provenance \<Rightarrow> Provenance" where
  "provenance_merge p q =
     fold add_source (pr_sources q) (p\<lparr>pr_taint := taint_merge (pr_taint p) (pr_taint q)\<rparr>)"

lemma taint_merge_labels [simp]:
  "ta_untrusted (taint_merge a b) \<longleftrightarrow> ta_untrusted a \<or> ta_untrusted b"
  "ta_secret (taint_merge a b) \<longleftrightarrow> ta_secret a \<or> ta_secret b"
  by (simp_all add: taint_merge_def)

lemma add_source_taint [simp]: "pr_taint (add_source s p) = pr_taint p"
  by (simp add: add_source_def)

lemma add_source_set [simp]: "set (pr_sources (add_source s p)) = insert s (set (pr_sources p))"
  by (auto simp: add_source_def)

lemma fold_add_source_taint [simp]: "pr_taint (fold add_source ss p) = pr_taint p"
  by (induction ss arbitrary: p) simp_all

lemma fold_add_source_set [simp]:
  "set (pr_sources (fold add_source ss p)) = set (pr_sources p) \<union> set ss"
  by (induction ss arbitrary: p) auto

lemma provenance_merge_taint [simp]:
  "pr_taint (provenance_merge p q) = taint_merge (pr_taint p) (pr_taint q)"
  by (simp add: provenance_merge_def)

lemma provenance_merge_sources [simp]:
  "set (pr_sources (provenance_merge p q)) = set (pr_sources p) \<union> set (pr_sources q)"
  by (simp add: provenance_merge_def)

lemma add_source_distinct: "distinct (pr_sources p) \<Longrightarrow> distinct (pr_sources (add_source s p))"
  by (simp add: add_source_def)

lemma provenance_merge_distinct:
  assumes "distinct (pr_sources p)"
  shows "distinct (pr_sources (provenance_merge p q))"
proof -
  have "distinct (pr_sources (fold add_source ss p'))" if "distinct (pr_sources p')" for ss p'
    using that by (induction ss arbitrary: p') (simp_all add: add_source_distinct)
  then show ?thesis
    using assms by (simp add: provenance_merge_def)
qed

subsection \<open>Values\<close>

datatype ValueType = NullType | BooleanType | NumberType | StringType

datatype ValueKind = NullKind | BooleanKind bool | NumberKind f64 | StringKind str

datatype ValueError = NonFiniteNumber | InexactNumberRange

record Value =
  v_kind :: ValueKind
  v_provenance :: Provenance

definition MAX_EXACT_EXPRESSION_NUMBER :: rat where
  "MAX_EXACT_EXPRESSION_NUMBER = 9007199254740991"

fun is_finite :: "f64 \<Rightarrow> bool" where
  "is_finite (Finite _) = True"
| "is_finite (Infinite _) = False"
| "is_finite NaN = False"

text \<open>\<^verbatim>\<open>number.abs() > MAX_EXACT_EXPRESSION_NUMBER\<close>; a comparison with NaN is false.\<close>

fun exceeds_exact_range :: "f64 \<Rightarrow> bool" where
  "exceeds_exact_range (Finite v) = (\<bar>v\<bar> > MAX_EXACT_EXPRESSION_NUMBER)"
| "exceeds_exact_range (Infinite _) = True"
| "exceeds_exact_range NaN = False"

fun kind_type :: "ValueKind \<Rightarrow> ValueType" where
  "kind_type NullKind = NullType"
| "kind_type (BooleanKind _) = BooleanType"
| "kind_type (NumberKind _) = NumberType"
| "kind_type (StringKind _) = StringType"

definition from_kind :: "ValueKind \<Rightarrow> (ValueError, Value) result" where
  "from_kind kind =
     (if (case kind of NumberKind n \<Rightarrow> \<not> is_finite n | _ \<Rightarrow> False) then Inl NonFiniteNumber
      else if (case kind of NumberKind n \<Rightarrow> exceeds_exact_range n | _ \<Rightarrow> False) then Inl InexactNumberRange
      else Inr \<lparr>v_kind = kind, v_provenance = provenance_default\<rparr>)"

definition value_null :: Value where
  "value_null = \<lparr>v_kind = NullKind, v_provenance = provenance_default\<rparr>"

definition value_boolean :: "bool \<Rightarrow> Value" where
  "value_boolean b = \<lparr>v_kind = BooleanKind b, v_provenance = provenance_default\<rparr>"

definition value_number :: "f64 \<Rightarrow> (ValueError, Value) result" where
  "value_number n = from_kind (NumberKind n)"

text \<open>\<^verbatim>\<open>i64 as f64\<close> rounds to the nearest double.\<close>

definition value_integer :: "int \<Rightarrow> (ValueError, Value) result" where
  "value_integer n = value_number (round_f64 (of_int n))"

definition value_string :: "str \<Rightarrow> Value" where
  "value_string s = \<lparr>v_kind = StringKind s, v_provenance = provenance_default\<rparr>"

definition value_type :: "Value \<Rightarrow> ValueType" where
  "value_type v = kind_type (v_kind v)"

definition as_bool :: "Value \<Rightarrow> bool option" where
  "as_bool v = (case v_kind v of BooleanKind b \<Rightarrow> Some b | _ \<Rightarrow> None)"

definition as_number :: "Value \<Rightarrow> f64 option" where
  "as_number v = (case v_kind v of NumberKind n \<Rightarrow> Some n | _ \<Rightarrow> None)"

definition as_str :: "Value \<Rightarrow> str option" where
  "as_str v = (case v_kind v of StringKind s \<Rightarrow> Some s | _ \<Rightarrow> None)"

definition with_provenance :: "Provenance \<Rightarrow> Value \<Rightarrow> Value" where
  "with_provenance p v = v\<lparr>v_provenance := p\<rparr>"

definition with_taint :: "Taint \<Rightarrow> Value \<Rightarrow> Value" where
  "with_taint t v = v\<lparr>v_provenance := (v_provenance v)\<lparr>pr_taint := t\<rparr>\<rparr>"

definition mark_untrusted :: "Value \<Rightarrow> Value" where
  "mark_untrusted v = with_taint ((pr_taint (v_provenance v))\<lparr>ta_untrusted := True\<rparr>) v"

definition mark_secret :: "Value \<Rightarrow> Value" where
  "mark_secret v = with_taint ((pr_taint (v_provenance v))\<lparr>ta_secret := True\<rparr>) v"

definition with_source :: "str \<Rightarrow> Value \<Rightarrow> Value" where
  "with_source source v = v\<lparr>v_provenance := add_source source (v_provenance v)\<rparr>"

abbreviation value_taint :: "Value \<Rightarrow> Taint" where
  "value_taint v \<equiv> pr_taint (v_provenance v)"

abbreviation value_sources :: "Value \<Rightarrow> str list" where
  "value_sources v \<equiv> pr_sources (v_provenance v)"

lemma with_provenance_sel [simp]:
  "v_kind (with_provenance p v) = v_kind v"
  "v_provenance (with_provenance p v) = p"
  by (simp_all add: with_provenance_def)

lemma value_boolean_kind [simp]: "v_kind (value_boolean b) = BooleanKind b"
  by (simp add: value_boolean_def)

lemma with_source_sel [simp]:
  "v_kind (with_source s v) = v_kind v"
  "v_provenance (with_source s v) = add_source s (v_provenance v)"
  by (simp_all add: with_source_def)

text \<open>Every integer in the exact range is admitted and kept as it is.\<close>

lemma value_integer_exact:
  assumes "\<bar>n\<bar> \<le> 9007199254740991"
  shows "value_integer n = Inr \<lparr>v_kind = NumberKind (Finite (of_int n)), v_provenance = provenance_default\<rparr>"
proof -
  have "\<bar>of_int n\<bar> \<le> (of_int 9007199254740991 :: rat)"
    using assms by (simp only: of_int_abs [symmetric] of_int_le_iff)
  then show ?thesis
    using round_f64_of_int [of n] assms
    by (simp add: value_integer_def value_number_def from_kind_def MAX_EXACT_EXPRESSION_NUMBER_def not_less)
qed

subsection \<open>Contexts\<close>

type_synonym Resolver = "str list \<Rightarrow> Value option"
type_synonym ExpressionContext = "(str, Value) btree"

definition context_new :: ExpressionContext where
  "context_new = bt_empty"

definition context_insert :: "str \<Rightarrow> Value \<Rightarrow> ExpressionContext \<Rightarrow> Value option \<times> ExpressionContext" where
  "context_insert path v c = (bt_get c path, bt_insert path v c)"

definition with_value :: "str \<Rightarrow> Value \<Rightarrow> ExpressionContext \<Rightarrow> ExpressionContext" where
  "with_value path v c = snd (context_insert path v c)"

definition context_get :: "ExpressionContext \<Rightarrow> str \<Rightarrow> Value option" where
  "context_get c path = bt_get c path"

definition resolve :: "ExpressionContext \<Rightarrow> Resolver" where
  "resolve c path = bt_get c (join_dots path)"

lemma resolve_with_value [simp]:
  "resolve (with_value path v c) p = (if join_dots p = path then Some v else resolve c p)"
  by (simp add: resolve_def with_value_def context_insert_def)

lemma resolve_new [simp]: "resolve context_new p = None"
  by (simp add: resolve_def context_new_def)

end
