(* ===== verification/Expression_Eval.thy ===== *)
theory Expression_Eval
  imports Expression_Values
begin

text \<open>
  The syntax tree of a condition and its evaluator
  (\<^verbatim>\<open>crates/expression/src/{ast,error,evaluation}.rs\<close>). The evaluator is strict in the operands of
  comparisons and short-circuits \<^verbatim>\<open>&&\<close> and \<^verbatim>\<open>||\<close>; every result carries the merged labels and
  sources of the values it was computed from. The theorems are the information-flow contract of
  those labels: a result that is not marked secret does not depend on any secret value, a result
  that is not marked untrusted does not depend on any untrusted one, its sources name everything
  it was computed from, and nothing outside the references of the expression is ever read.
\<close>

subsection \<open>Syntax trees\<close>

datatype UnaryOperator = NotOp

datatype BinaryOperator =
  OrOp | AndOp | EqualOp | NotEqualOp | LessOp | LessEqualOp | GreaterOp | GreaterEqualOp

datatype SyntaxNode =
  Literal Value Span
| Lookup "str list" Span
| Unary UnaryOperator Span SyntaxNode Span
| Binary BinaryOperator Span SyntaxNode SyntaxNode Span

fun operator_text :: "BinaryOperator \<Rightarrow> str" where
  "operator_text OrOp = lit ''||''"
| "operator_text AndOp = lit ''&&''"
| "operator_text EqualOp = lit ''==''"
| "operator_text NotEqualOp = lit ''!=''"
| "operator_text LessOp = lit ''<''"
| "operator_text LessEqualOp = lit ''<=''"
| "operator_text GreaterOp = lit ''>''"
| "operator_text GreaterEqualOp = lit ''>=''"

fun node_span :: "SyntaxNode \<Rightarrow> Span" where
  "node_span (Literal _ s) = s"
| "node_span (Lookup _ s) = s"
| "node_span (Unary _ _ _ s) = s"
| "node_span (Binary _ _ _ _ s) = s"

fun collect_references :: "SyntaxNode \<Rightarrow> str bset \<Rightarrow> str bset" where
  "collect_references (Literal _ _) references = references"
| "collect_references (Lookup path _) references = bs_insert (join_dots path) references"
| "collect_references (Unary _ _ operand _) references = collect_references operand references"
| "collect_references (Binary _ _ left right _) references =
     collect_references right (collect_references left references)"

record Expression =
  ex_source :: str
  ex_root :: SyntaxNode

definition context_references :: "Expression \<Rightarrow> str list" where
  "context_references e = bt_keys (collect_references (ex_root e) bt_empty)"

subsection \<open>Evaluation\<close>

datatype EvalErrorKind =
  UnknownContext str
| ExpectedBoolean str ValueType
| Incomparable str ValueType ValueType
| DepthLimitExceeded

record EvalError =
  ee_kind :: EvalErrorKind
  ee_span :: Span

definition eval_error :: "EvalErrorKind \<Rightarrow> Span \<Rightarrow> EvalError" where
  "eval_error kind s = \<lparr>ee_kind = kind, ee_span = s\<rparr>"

type_synonym evaluated = "(EvalError, Value) result"

definition MAX_EVALUATION_DEPTH :: nat where
  "MAX_EVALUATION_DEPTH = 256"

definition require_boolean :: "Value \<Rightarrow> str \<Rightarrow> Span \<Rightarrow> (EvalError, bool \<times> Provenance) result" where
  "require_boolean v operator s =
     (case v_kind v of
        BooleanKind b \<Rightarrow> Inr (b, v_provenance v)
      | _ \<Rightarrow> Inl (eval_error (ExpectedBoolean operator (value_type v)) s))"

text \<open>\<^verbatim>\<open>==\<close> on doubles: NaN differs from everything, itself included.\<close>

fun f64_eq :: "f64 \<Rightarrow> f64 \<Rightarrow> bool" where
  "f64_eq (Finite a) (Finite b) = (a = b)"
| "f64_eq (Infinite a) (Infinite b) = (a = b)"
| "f64_eq _ _ = False"

datatype Ordering = OrdLess | OrdEqual | OrdGreater

definition ord_cmp :: "'a::linorder \<Rightarrow> 'a \<Rightarrow> Ordering" where
  "ord_cmp a b = (if a < b then OrdLess else if a = b then OrdEqual else OrdGreater)"

fun f64_partial_cmp :: "f64 \<Rightarrow> f64 \<Rightarrow> Ordering option" where
  "f64_partial_cmp NaN _ = None"
| "f64_partial_cmp _ NaN = None"
| "f64_partial_cmp (Finite a) (Finite b) = Some (ord_cmp a b)"
| "f64_partial_cmp (Infinite n) (Infinite m) =
     Some (if n = m then OrdEqual else if n then OrdLess else OrdGreater)"
| "f64_partial_cmp (Infinite n) (Finite _) = Some (if n then OrdLess else OrdGreater)"
| "f64_partial_cmp (Finite _) (Infinite n) = Some (if n then OrdGreater else OrdLess)"

fun values_equal :: "ValueKind \<Rightarrow> ValueKind \<Rightarrow> bool" where
  "values_equal NullKind NullKind = True"
| "values_equal (BooleanKind a) (BooleanKind b) = (a = b)"
| "values_equal (NumberKind a) (NumberKind b) = f64_eq a b"
| "values_equal (StringKind a) (StringKind b) = (a = b)"
| "values_equal _ _ = False"

fun compare_values :: "ValueKind \<Rightarrow> ValueKind \<Rightarrow> Ordering option" where
  "compare_values (NumberKind a) (NumberKind b) = f64_partial_cmp a b"
| "compare_values (StringKind a) (StringKind b) = Some (ord_cmp a b)"
| "compare_values _ _ = None"

text \<open>The relational reading of an ordering; the other operators do not reach it.\<close>

fun ordering_holds :: "BinaryOperator \<Rightarrow> Ordering \<Rightarrow> bool" where
  "ordering_holds LessOp ord = (ord = OrdLess)"
| "ordering_holds LessEqualOp ord = (ord \<noteq> OrdGreater)"
| "ordering_holds GreaterOp ord = (ord = OrdGreater)"
| "ordering_holds GreaterEqualOp ord = (ord \<noteq> OrdLess)"
| "ordering_holds _ _ = False"

text \<open>
  \<^verbatim>\<open>evaluate_binary\<close> receives the evaluations of its operands; evaluation is pure, so an operand
  that is not needed is one whose result is not looked at.
\<close>

definition evaluate_binary :: "BinaryOperator \<Rightarrow> Span \<Rightarrow> evaluated \<Rightarrow> evaluated \<Rightarrow> evaluated" where
  "evaluate_binary operator operator_span left right =
     (case operator of
        AndOp \<Rightarrow>
          res_bind left (\<lambda>l.
          res_bind (require_boolean l (operator_text operator) operator_span) (\<lambda>(left_boolean, left_provenance).
            if \<not> left_boolean then Inr (with_provenance left_provenance (value_boolean False))
            else
              res_bind right (\<lambda>r.
              res_bind (require_boolean r (operator_text operator) operator_span) (\<lambda>(right_boolean, right_provenance).
                Inr (with_provenance (provenance_merge left_provenance right_provenance)
                       (value_boolean right_boolean))))))
      | OrOp \<Rightarrow>
          res_bind left (\<lambda>l.
          res_bind (require_boolean l (operator_text operator) operator_span) (\<lambda>(left_boolean, left_provenance).
            if left_boolean then Inr (with_provenance left_provenance (value_boolean True))
            else
              res_bind right (\<lambda>r.
              res_bind (require_boolean r (operator_text operator) operator_span) (\<lambda>(right_boolean, right_provenance).
                Inr (with_provenance (provenance_merge left_provenance right_provenance)
                       (value_boolean right_boolean))))))
      | _ \<Rightarrow>
          res_bind left (\<lambda>l. res_bind right (\<lambda>r.
            let provenance = provenance_merge (v_provenance l) (v_provenance r) in
            if operator = EqualOp \<or> operator = NotEqualOp then
              let equal = values_equal (v_kind l) (v_kind r);
                  outcome = (if operator = EqualOp then equal else \<not> equal) in
              Inr (with_provenance provenance (value_boolean outcome))
            else
              res_bind
                (ok_or (compare_values (v_kind l) (v_kind r))
                  (eval_error (Incomparable (operator_text operator) (value_type l) (value_type r)) operator_span))
                (\<lambda>ordering.
                  Inr (with_provenance provenance (value_boolean (ordering_holds operator ordering)))))))"

fun evaluate_node :: "Resolver \<Rightarrow> nat \<Rightarrow> SyntaxNode \<Rightarrow> evaluated" where
  "evaluate_node resolver depth (Literal v s) =
     (if depth > MAX_EVALUATION_DEPTH then Inl (eval_error DepthLimitExceeded s) else Inr v)"
| "evaluate_node resolver depth (Lookup path s) =
     (if depth > MAX_EVALUATION_DEPTH then Inl (eval_error DepthLimitExceeded s)
      else
        res_bind (ok_or (resolver path) (eval_error (UnknownContext (join_dots path)) s)) (\<lambda>v.
          Inr (with_source (join_dots path) v)))"
| "evaluate_node resolver depth (Unary operator operator_span operand s) =
     (if depth > MAX_EVALUATION_DEPTH then Inl (eval_error DepthLimitExceeded s)
      else
        res_bind (evaluate_node resolver (depth + 1) operand) (\<lambda>v.
        res_bind (require_boolean v (lit ''!'') operator_span) (\<lambda>(b, provenance).
          Inr (with_provenance provenance (value_boolean (\<not> b))))))"
| "evaluate_node resolver depth (Binary operator operator_span left right s) =
     (if depth > MAX_EVALUATION_DEPTH then Inl (eval_error DepthLimitExceeded s)
      else
        evaluate_binary operator operator_span
          (evaluate_node resolver (depth + 1) left) (evaluate_node resolver (depth + 1) right))"

definition evaluate :: "Expression \<Rightarrow> Resolver \<Rightarrow> evaluated" where
  "evaluate e resolver = evaluate_node resolver 0 (ex_root e)"

definition evaluate_bool :: "Expression \<Rightarrow> Resolver \<Rightarrow> (EvalError, bool) result" where
  "evaluate_bool e resolver =
     res_bind (evaluate e resolver) (\<lambda>v.
       ok_or (as_bool v)
         (eval_error (ExpectedBoolean (lit ''condition'') (value_type v)) (node_span (ex_root e))))"

subsection \<open>What a result was computed from\<close>

lemma require_boolean_ok:
  "require_boolean v operator s = Inr bp \<longleftrightarrow> v_kind v = BooleanKind (fst bp) \<and> v_provenance v = snd bp"
  by (cases bp) (auto simp: require_boolean_def split: ValueKind.splits)

lemma require_boolean_known:
  "v_kind v = BooleanKind b \<Longrightarrow> require_boolean v operator s = Inr (b, v_provenance v)"
  by (simp add: require_boolean_def)

lemma short_circuit:
  "v_kind l = BooleanKind True \<Longrightarrow>
     evaluate_binary OrOp s (Inr l) right = Inr (with_provenance (v_provenance l) (value_boolean True))"
  "v_kind l = BooleanKind False \<Longrightarrow>
     evaluate_binary AndOp s (Inr l) right = Inr (with_provenance (v_provenance l) (value_boolean False))"
  by (simp_all add: evaluate_binary_def require_boolean_def)

lemma evaluate_connective:
  assumes "evaluate_binary operator s (Inr l) right = Inr v" "operator = OrOp \<or> operator = AndOp"
  shows "v_kind l = BooleanKind (operator = OrOp) \<or>
    (\<exists>r. right = Inr r \<and> v_provenance v = provenance_merge (v_provenance l) (v_provenance r))"
proof (cases "v_kind l")
  case (BooleanKind b)
  then show ?thesis
    using assms
    by (cases b) (auto simp: evaluate_binary_def require_boolean_known res_simps require_boolean_ok)
qed (use assms in \<open>auto simp: evaluate_binary_def require_boolean_def\<close>)

text \<open>
  A binary operation either stops at its left operand, whatever the right one would give, or uses
  both and merges their provenance.
\<close>

lemma evaluate_binary_ok:
  assumes "evaluate_binary operator s left right = Inr v"
  obtains (left_only) l where "left = Inr l" "v_provenance v = v_provenance l"
      "\<forall>right'. evaluate_binary operator s left right' = Inr v"
    | (both) l r where "left = Inr l" "right = Inr r"
      "v_provenance v = provenance_merge (v_provenance l) (v_provenance r)"
proof -
  obtain l where l: "left = Inr l"
    using assms by (cases operator) (auto simp: evaluate_binary_def res_simps)
  show thesis
  proof (cases "operator = OrOp \<or> operator = AndOp")
    case True
    then show thesis
      using evaluate_connective [OF assms [unfolded l]] assms l that short_circuit by fastforce
  next
    case False
    then obtain r where "right = Inr r" "v_provenance v = provenance_merge (v_provenance l) (v_provenance r)"
      using assms l by (cases operator) (auto simp: evaluate_binary_def res_simps Let_def)
    then show thesis
      using that(2) l by blast
  qed
qed

text \<open>The literals of a parsed tree carry no labels of their own.\<close>

fun literals_plain :: "SyntaxNode \<Rightarrow> bool" where
  "literals_plain (Literal v _) = (v_provenance v = provenance_default)"
| "literals_plain (Lookup _ _) = True"
| "literals_plain (Unary _ _ operand _) = literals_plain operand"
| "literals_plain (Binary _ _ left right _) = (literals_plain left \<and> literals_plain right)"

fun references :: "SyntaxNode \<Rightarrow> str set" where
  "references (Literal _ _) = {}"
| "references (Lookup path _) = {join_dots path}"
| "references (Unary _ _ operand _) = references operand"
| "references (Binary _ _ left right _) = references left \<union> references right"

lemma collect_references_dom: "bt_dom (collect_references node s) = references node \<union> bt_dom s"
  by (induction node arbitrary: s) (auto simp: bs_insert_def)

lemma context_references_set: "set (context_references e) = references (ex_root e)"
  by (simp add: context_references_def bt_keys_set collect_references_dom)

text \<open>
  A label that merging never drops. Both labels of \<^typ>\<open>Taint\<close> are one, and the flow property is
  proved once for all of them.
\<close>

locale flow_label =
  fixes labelled :: "Taint \<Rightarrow> bool"
  assumes labelled_merge: "labelled (taint_merge a b) \<longleftrightarrow> labelled a \<or> labelled b"
    and trusted_unlabelled: "\<not> labelled taint_trusted"
begin

lemma unlabelled_independent:
  assumes "evaluate_node r depth node = Inr v" "\<not> labelled (value_taint v)"
    and "\<forall>p. r' p = r p \<or> (\<exists>w. r p = Some w \<and> labelled (value_taint w))"
  shows "evaluate_node r' depth node = Inr v"
  using assms(1, 2)
proof (induction node arbitrary: depth v)
  case (Lookup path s)
  then show ?case
    using assms(3) by (auto simp: res_simps split: if_splits) (metis option.sel)
next
  case (Unary operator operator_span operand s)
  then show ?case
    by (fastforce simp: res_simps require_boolean_ok split: if_splits)
next
  case (Binary operator operator_span left right s)
  then have shallow: "\<not> depth > MAX_EVALUATION_DEPTH"
    and e: "evaluate_binary operator operator_span (evaluate_node r (depth + 1) left)
      (evaluate_node r (depth + 1) right) = Inr v"
    by (simp_all split: if_splits)
  from e show ?case
  proof (cases rule: evaluate_binary_ok)
    case (left_only l)
    then have "evaluate_node r' (depth + 1) left = Inr l"
      using Binary.IH(1) Binary.prems(2) by simp
    then show ?thesis
      using left_only shallow by simp
  next
    case (both l r)
    then have "evaluate_node r' (depth + 1) left = Inr l" "evaluate_node r' (depth + 1) right = Inr r"
      using Binary.IH Binary.prems(2) by (simp_all add: labelled_merge)
    then show ?thesis
      using both e shallow by simp
  qed
qed (simp split: if_splits)

lemma labelled_has_origin:
  assumes "evaluate_node r depth node = Inr v" "labelled (value_taint v)" "literals_plain node"
  shows "\<exists>p w. join_dots p \<in> references node \<and> r p = Some w \<and> labelled (value_taint w) \<and>
    join_dots p \<in> set (value_sources v)"
  using assms
proof (induction node arbitrary: depth v)
  case (Literal w s)
  then show ?case
    by (simp add: provenance_default_def trusted_unlabelled split: if_splits)
next
  case (Lookup path s)
  then show ?case
    by (auto simp: res_simps split: if_splits)
next
  case (Unary operator operator_span operand s)
  then show ?case
    by (auto simp: res_simps require_boolean_ok split: if_splits)
next
  case (Binary operator operator_span left right s)
  then have "evaluate_binary operator operator_span (evaluate_node r (depth + 1) left)
      (evaluate_node r (depth + 1) right) = Inr v"
    by (simp split: if_splits)
  then show ?case
  proof (cases rule: evaluate_binary_ok)
    case (left_only l)
    then show ?thesis
      using Binary.IH(1) [of "depth + 1" l] Binary.prems by auto
  next
    case (both l r)
    then show ?thesis
      using Binary.IH(1) [of "depth + 1" l] Binary.IH(2) [of "depth + 1" r] Binary.prems
      by (auto simp: labelled_merge)
  qed
qed

end

interpretation untrusted: flow_label ta_untrusted
  by unfold_locales (simp_all add: taint_trusted_def)

interpretation secret: flow_label ta_secret
  by unfold_locales (simp_all add: taint_trusted_def)

text \<open>What is not among the references is not read, not even by an evaluation that fails.\<close>

lemma evaluate_node_references:
  assumes "\<forall>p. join_dots p \<in> references node \<longrightarrow> r' p = r p"
  shows "evaluate_node r' depth node = evaluate_node r depth node"
  using assms by (induction node arbitrary: depth) simp_all

text \<open>The sources of a result name every path it was computed from.\<close>

lemma evaluate_node_sources:
  assumes "evaluate_node r depth node = Inr v" "\<forall>p. join_dots p \<in> set (value_sources v) \<longrightarrow> r' p = r p"
  shows "evaluate_node r' depth node = Inr v"
  using assms
proof (induction node arbitrary: depth v)
  case (Unary operator operator_span operand s)
  then show ?case
    by (fastforce simp: res_simps require_boolean_ok split: if_splits)
next
  case (Binary operator operator_span left right s)
  then have shallow: "\<not> depth > MAX_EVALUATION_DEPTH"
    and e: "evaluate_binary operator operator_span (evaluate_node r (depth + 1) left)
      (evaluate_node r (depth + 1) right) = Inr v"
    by (simp_all split: if_splits)
  from e show ?case
  proof (cases rule: evaluate_binary_ok)
    case (left_only l)
    then have "evaluate_node r' (depth + 1) left = Inr l"
      using Binary.IH(1) Binary.prems(2) by simp
    then show ?thesis
      using left_only shallow by simp
  next
    case (both l r)
    then have "evaluate_node r' (depth + 1) left = Inr l" "evaluate_node r' (depth + 1) right = Inr r"
      using Binary.IH Binary.prems(2) by simp_all
    then show ?thesis
      using both e shallow by simp
  qed
qed (auto simp: res_simps split: if_splits)

subsection \<open>The contract of the labels\<close>

text \<open>Two contexts that may differ wherever the first one carries the label.\<close>

definition agrees_except :: "(Taint \<Rightarrow> bool) \<Rightarrow> Resolver \<Rightarrow> Resolver \<Rightarrow> bool" where
  "agrees_except label r r' \<longleftrightarrow>
     (\<forall>p. r' p = r p \<or> (\<exists>w. r p = Some w \<and> label (value_taint w)))"

text \<open>
  C13: Noninterference of conditions. If a condition evaluates to a value that is not marked secret,
  then no secret value had any influence on it: in every context that differs from the given one
  only in what is stored under paths marked secret there (other values, or nothing at all) the
  condition evaluates to the same value with the same provenance. The same holds for the untrusted
  label, so a condition that comes out trusted cannot be steered by untrusted input, short-circuit
  evaluation included.
\<close>

theorem labels_sound:
  assumes "evaluate e r = Inr v" "label \<in> {ta_untrusted, ta_secret}" "\<not> label (value_taint v)"
    "agrees_except label r r'"
  shows "evaluate e r' = Inr v"
  using assms untrusted.unlabelled_independent [of r 0 "ex_root e" v r']
    secret.unlabelled_independent [of r 0 "ex_root e" v r']
  by (auto simp: evaluate_def agrees_except_def)

text \<open>
  C19: The provenance of a result explains it. The sources of a value name every context path it was
  computed from, so any context that agrees on the paths among its sources gives the same value;
  a label on the value comes from a value with that label stored under a referenced path that is
  among the sources; and no path outside the references of the expression is read, not even on the
  way to an error.
\<close>

theorem sources_explain:
  assumes "evaluate e r = Inr v" "literals_plain (ex_root e)"
  shows "((\<forall>p. join_dots p \<in> set (value_sources v) \<longrightarrow> r' p = r p) \<longrightarrow> evaluate e r' = Inr v) \<and>
    (label \<in> {ta_untrusted, ta_secret} \<and> label (value_taint v) \<longrightarrow>
      (\<exists>p w. join_dots p \<in> set (context_references e) \<and> join_dots p \<in> set (value_sources v) \<and>
        r p = Some w \<and> label (value_taint w))) \<and>
    ((\<forall>p. join_dots p \<in> set (context_references e) \<longrightarrow> q' p = q p) \<longrightarrow> evaluate e q' = evaluate e q)"
  using assms evaluate_node_sources [of r 0 "ex_root e" v r'] evaluate_node_references [of "ex_root e" q' q 0]
    untrusted.labelled_has_origin [of r 0 "ex_root e" v] secret.labelled_has_origin [of r 0 "ex_root e" v]
  by (auto simp: evaluate_def context_references_set)

end
