(* ===== verification/Expression_Lexer.thy ===== *)
theory Expression_Lexer
  imports Expression_Eval
begin

text \<open>
  The lexer of conditions (\<^verbatim>\<open>crates/expression/src/lexer.rs\<close>). A \<^verbatim>\<open>Lexer\<close> is the text still to be
  read and its byte position in the source; the slice \<^verbatim>\<open>source[start..position]\<close> is what lies
  between two such states. Loops over characters are recursive functions with a termination proof,
  which rests on the fact that every scanning step moves forward in the source.
\<close>

definition MAX_TOKENS :: nat where
  "MAX_TOKENS = 4096"

datatype TokenKind =
  TkNull | TkBoolean bool | TkNumber f64 | TkString str | TkIdentifier str | TkDot
| TkLeftParenthesis | TkRightParenthesis | TkBang | TkAnd | TkOr | TkEqual | TkNotEqual
| TkLess | TkLessEqual | TkGreater | TkGreaterEqual | TkEnd

record Token =
  tk_kind :: TokenKind
  tk_span :: Span

record ParseError =
  pe_message :: str
  pe_span :: Span

definition parse_error :: "str \<Rightarrow> Span \<Rightarrow> ParseError" where
  "parse_error message s = \<lparr>pe_message = message, pe_span = s\<rparr>"

record Lexer =
  lx_remaining :: str
  lx_position :: nat

type_synonym 'a lexed = "(ParseError, 'a \<times> Lexer) result"

definition lexer_new :: "str \<Rightarrow> Lexer" where
  "lexer_new source = \<lparr>lx_remaining = source, lx_position = 0\<rparr>"

definition source_len :: "Lexer \<Rightarrow> nat" where
  "source_len L = lx_position L + str_len (lx_remaining L)"

definition consumed :: "Lexer \<Rightarrow> Lexer \<Rightarrow> str" where
  "consumed L L' = take (length (lx_remaining L) - length (lx_remaining L')) (lx_remaining L)"

subsection \<open>Characters\<close>

definition is_whitespace :: "scalar \<Rightarrow> bool" where
  "is_whitespace c \<longleftrightarrow>
     9 \<le> c \<and> c \<le> 13 \<or> c = 32 \<or> c = 133 \<or> c = 160 \<or> c = 5760 \<or> 8192 \<le> c \<and> c \<le> 8202 \<or>
     c = 8232 \<or> c = 8233 \<or> c = 8239 \<or> c = 8287 \<or> c = 12288"

definition is_control :: "scalar \<Rightarrow> bool" where
  "is_control c \<longleftrightarrow> c \<le> 31 \<or> 127 \<le> c \<and> c \<le> 159"

definition is_ascii_alphabetic :: "scalar \<Rightarrow> bool" where
  "is_ascii_alphabetic c \<longleftrightarrow> 65 \<le> c \<and> c \<le> 90 \<or> 97 \<le> c \<and> c \<le> 122"

definition is_identifier_start :: "scalar \<Rightarrow> bool" where
  "is_identifier_start c \<longleftrightarrow> is_ascii_alphabetic c \<or> c = 95"

definition is_identifier_continue :: "scalar \<Rightarrow> bool" where
  "is_identifier_continue c \<longleftrightarrow> is_ascii_alphabetic c \<or> is_ascii_digit c \<or> c = 95 \<or> c = 45"

text \<open>\<^verbatim>\<open>char::to_digit(16)\<close> and \<^verbatim>\<open>char::from_u32\<close>\<close>

definition hex_digit :: "scalar \<Rightarrow> nat option" where
  "hex_digit c =
     (if 48 \<le> c \<and> c \<le> 57 then Some (c - 48)
      else if 97 \<le> c \<and> c \<le> 102 then Some (c - 87)
      else if 65 \<le> c \<and> c \<le> 70 then Some (c - 55)
      else None)"

definition char_from_u32 :: "nat \<Rightarrow> scalar option" where
  "char_from_u32 n = (if n < 55296 \<or> 57344 \<le> n \<and> n < 1114112 then Some n else None)"

subsection \<open>Moving through the source\<close>

definition peek :: "Lexer \<Rightarrow> scalar option" where
  "peek L = (case lx_remaining L of [] \<Rightarrow> None | c # _ \<Rightarrow> Some c)"

definition peek_second :: "Lexer \<Rightarrow> scalar option" where
  "peek_second L = (case lx_remaining L of _ # c # _ \<Rightarrow> Some c | _ \<Rightarrow> None)"

definition bump :: "Lexer \<Rightarrow> scalar option \<times> Lexer" where
  "bump L =
     (case lx_remaining L of
        [] \<Rightarrow> (None, L)
      | c # cs \<Rightarrow> (Some c, \<lparr>lx_remaining = cs, lx_position = lx_position L + len_utf8 c\<rparr>))"

abbreviation skip :: "Lexer \<Rightarrow> Lexer" where
  "skip L \<equiv> snd (bump L)"

definition is_some_and :: "'a option \<Rightarrow> ('a \<Rightarrow> bool) \<Rightarrow> bool" where
  "is_some_and x P = (case x of None \<Rightarrow> False | Some v \<Rightarrow> P v)"

definition take_if :: "scalar \<Rightarrow> Lexer \<Rightarrow> bool \<times> Lexer" where
  "take_if expected L = (if peek L = Some expected then (True, skip L) else (False, L))"

text \<open>\<^verbatim>\<open>while self.peek().is_some_and(P) { self.bump(); }\<close>\<close>

function skip_while :: "(scalar \<Rightarrow> bool) \<Rightarrow> Lexer \<Rightarrow> Lexer" where
  "skip_while P L = (if is_some_and (peek L) P then skip_while P (skip L) else L)"
  by pat_completeness auto
termination
  by (relation "measure (\<lambda>(_, L). length (lx_remaining L))")
    (auto simp: is_some_and_def peek_def bump_def split: list.splits)

declare skip_while.simps [simp del]

definition take_ascii_digits :: "Lexer \<Rightarrow> Lexer" where
  "take_ascii_digits L = skip_while is_ascii_digit L"

subsection \<open>Scanning\<close>

definition scan_identifier :: "Lexer \<Rightarrow> TokenKind \<times> Lexer" where
  "scan_identifier L =
     (let L' = skip_while is_identifier_continue (skip L);
          word = consumed L L' in
      (if word = lit ''null'' then TkNull
       else if word = lit ''true'' then TkBoolean True
       else if word = lit ''false'' then TkBoolean False
       else TkIdentifier word, L'))"

definition scan_exponent :: "nat \<Rightarrow> Lexer \<Rightarrow> (ParseError, Lexer) result" where
  "scan_exponent start L =
     (if is_some_and (peek L) (\<lambda>c. c = 101 \<or> c = 69) then
        let L1 = skip L;
            L2 = (if is_some_and (peek L1) (\<lambda>c. c = 43 \<or> c = 45) then skip L1 else L1) in
        if \<not> is_some_and (peek L2) is_ascii_digit
        then Inl (parse_error (lit ''exponent requires at least one digit'') (span_new start (lx_position L2)))
        else Inr (take_ascii_digits L2)
      else Inr L)"

definition scan_number :: "Lexer \<Rightarrow> f64 lexed" where
  "scan_number L =
     (let start = lx_position L;
          L1 = snd (take_if 45 L);
          (zero, L2) = take_if 48 L1 in
      if zero \<and> is_some_and (peek L2) is_ascii_digit
      then Inl (parse_error (lit ''number literals cannot contain leading zeroes'')
                  (span_new start (lx_position L2 + 1)))
      else
        let L3 = (if zero then L2 else take_ascii_digits L2);
            (dot, L4) = take_if 46 L3 in
        if dot \<and> \<not> is_some_and (peek L4) is_ascii_digit
        then Inl (parse_error (lit ''fractional part requires at least one digit'')
                    (span_new start (lx_position L4)))
        else
          let L5 = (if dot then take_ascii_digits L4 else L4) in
          res_bind (scan_exponent start L5) (\<lambda>L6.
          let here = span_new start (lx_position L6) in
          res_bind (ok_or (f64_from_str (consumed L L6)) (parse_error (lit ''invalid number literal'') here)) (\<lambda>number.
            if \<not> is_finite number
            then Inl (parse_error (lit ''number literal is outside the finite range'') here)
            else if exceeds_exact_range number
            then Inl (parse_error (lit ''number literal is outside the exact expression range'') here)
            else Inr (number, L6))))"

fun scan_hex_digits :: "nat \<Rightarrow> nat \<Rightarrow> 16 word \<Rightarrow> Lexer \<Rightarrow> 16 word lexed" where
  "scan_hex_digits 0 escape_start acc L = Inr (acc, L)"
| "scan_hex_digits (Suc n) escape_start acc L =
     (case bump L of (c, L') \<Rightarrow>
        (case (case c of None \<Rightarrow> None | Some c \<Rightarrow> hex_digit c) of
           None \<Rightarrow> Inl (parse_error (lit ''unicode escape requires four hexadecimal digits'')
                         (span_new escape_start (lx_position L')))
         | Some digit \<Rightarrow> scan_hex_digits n escape_start (or (push_bit 4 acc) (word_of_nat digit)) L'))"

definition scan_hex_quad :: "nat \<Rightarrow> Lexer \<Rightarrow> 16 word lexed" where
  "scan_hex_quad escape_start L = scan_hex_digits 4 escape_start 0 L"

definition scan_unicode_escape :: "nat \<Rightarrow> Lexer \<Rightarrow> scalar lexed" where
  "scan_unicode_escape escape_start L =
     res_bind (scan_hex_quad escape_start L) (\<lambda>(first, L1).
     res_bind
       (if 0xD800 \<le> first \<and> first \<le> 0xDBFF then
          case take_if 92 L1 of (backslash, L2) \<Rightarrow>
          case (if backslash then take_if 117 L2 else (False, L2)) of (escape, L3) \<Rightarrow>
          if \<not> escape
          then Inl (parse_error (lit ''high surrogate must be followed by a low surrogate escape'')
                      (span_new escape_start (lx_position L3)))
          else
            res_bind (scan_hex_quad escape_start L3) (\<lambda>(second, L4).
              if \<not> (0xDC00 \<le> second \<and> second \<le> 0xDFFF)
              then Inl (parse_error (lit ''invalid low surrogate in unicode escape'')
                          (span_new escape_start (lx_position L4)))
              else Inr (65536 + unat (first - 0xD800) * 1024 + unat (second - 0xDC00), L4))
        else if 0xDC00 \<le> first \<and> first \<le> 0xDFFF
        then Inl (parse_error (lit ''low surrogate without a preceding high surrogate'')
                    (span_new escape_start (lx_position L1)))
        else Inr (unat first, L1))
       (\<lambda>(code, L5).
         res_bind
           (ok_or (char_from_u32 code)
             (parse_error (lit ''invalid unicode scalar in string escape'')
               (span_new escape_start (lx_position L5))))
           (\<lambda>c. Inr (c, L5))))"

text \<open>The escapes that stand for one character.\<close>

definition simple_escape :: "scalar \<Rightarrow> scalar option" where
  "simple_escape c =
     (if c = 92 then Some 92 else if c = 39 then Some 39 else if c = 34 then Some 34
      else if c = 47 then Some 47 else if c = 98 then Some 8 else if c = 102 then Some 12
      else if c = 110 then Some 10 else if c = 114 then Some 13 else if c = 116 then Some 9
      else None)"

subsection \<open>Every step moves forward\<close>

definition advances :: "Lexer \<Rightarrow> Lexer \<Rightarrow> bool" where
  "advances L L' \<longleftrightarrow>
     (\<exists>pre. lx_remaining L = pre @ lx_remaining L' \<and> lx_position L' = lx_position L + str_len pre)"

definition inside :: "nat \<Rightarrow> Span \<Rightarrow> bool" where
  "inside n s \<longleftrightarrow> sp_start s \<le> sp_end s \<and> sp_end s \<le> n"

text \<open>A scan from \<open>L\<close> moves forward, or fails with a span inside the source.\<close>

definition scan_ok :: "Lexer \<Rightarrow> 'a lexed \<Rightarrow> bool" where
  "scan_ok L r \<longleftrightarrow>
     (case r of Inl e \<Rightarrow> inside (source_len L) (pe_span e) | Inr (_, L') \<Rightarrow> advances L L')"

lemma advances_refl [simp, intro]: "advances L L"
  by (simp add: advances_def)

lemma advances_trans: "advances L L' \<Longrightarrow> advances L' L'' \<Longrightarrow> advances L L''"
  by (force simp: advances_def)

lemma advancesD:
  assumes "advances L L'"
  shows "source_len L' = source_len L" "lx_position L \<le> lx_position L'"
    "lx_position L' \<le> source_len L" "length (lx_remaining L') \<le> length (lx_remaining L)"
  using assms by (auto simp: advances_def source_len_def)

lemma advances_bump [simp, intro]: "advances L (skip L)"
  by (force simp: advances_def bump_def split: list.split)

lemma advances_take_if [simp, intro]: "advances L (snd (take_if c L))"
  by (simp add: take_if_def)

lemma take_if_advances: "take_if c L = (b, L') \<Longrightarrow> advances L L'"
  by (metis advances_take_if snd_conv)

lemma bump_advances: "bump L = (c, L') \<Longrightarrow> advances L L'"
  by (metis advances_bump snd_conv)

lemma advances_skip_while [simp, intro]: "advances L (skip_while P L)"
proof (induction P L rule: skip_while.induct)
  case (1 P L)
  show ?case
  proof (cases "is_some_and (peek L) P")
    case True
    then show ?thesis
      using advances_trans [OF advances_bump 1] by (simp add: skip_while.simps [of P L])
  qed (simp add: skip_while.simps [of P L])
qed

lemma advances_take_ascii_digits [simp, intro]: "advances L (take_ascii_digits L)"
  by (simp add: take_ascii_digits_def)

lemma consumed_append: "lx_remaining L = pre @ lx_remaining L' \<Longrightarrow> consumed L L' = pre"
  by (simp add: consumed_def)

lemma peek_room: "is_some_and (peek L) P \<Longrightarrow> lx_position L + 1 \<le> source_len L"
  using len_utf8_pos by (auto simp: is_some_and_def peek_def source_len_def Suc_le_eq
      split: list.splits intro: trans_less_add1)

lemma within_new [simp]: "inside n (span_new a b) \<longleftrightarrow> a \<le> b \<and> b \<le> n"
  by (simp add: inside_def span_new_def)

lemma pe_span_error [simp]: "pe_span (parse_error m s) = s"
  by (simp add: parse_error_def)

lemma scan_ok_Inl: "scan_ok L (Inl e) \<longleftrightarrow> inside (source_len L) (pe_span e)"
  by (simp add: scan_ok_def)

lemma scan_ok_Inr: "scan_ok L (Inr (x, L')) \<longleftrightarrow> advances L L'"
  by (simp add: scan_ok_def)

lemmas scan_ok_simps = scan_ok_Inl scan_ok_Inr

lemma scan_ok_bind:
  assumes "scan_ok L r" "\<And>x L'. r = Inr (x, L') \<Longrightarrow> advances L L' \<Longrightarrow> scan_ok L' (f (x, L'))"
  shows "scan_ok L (res_bind r f)"
proof (cases r)
  case (Inl e)
  then show ?thesis
    using assms(1) by (simp add: scan_ok_def)
next
  case (Inr p)
  then obtain x L' where p: "r = Inr (x, L')"
    by (cases p) auto
  then have "advances L L'"
    using assms(1) by (simp add: scan_ok_def)
  moreover then have "scan_ok L' (f (x, L'))"
    by (rule assms(2) [OF p])
  ultimately show ?thesis
    by (auto simp: p scan_ok_def advancesD(1) intro: advances_trans split: sum.split)
qed

lemma scan_exponent_ok:
  assumes "start \<le> lx_position L"
  shows "case scan_exponent start L of Inl e \<Rightarrow> inside (source_len L) (pe_span e) | Inr L' \<Rightarrow> advances L L'"
proof -
  define L2 where "L2 = (if is_some_and (peek (skip L)) (\<lambda>c. c = 43 \<or> c = 45) then skip (skip L) else skip L)"
  have "advances L L2"
    by (auto simp: L2_def intro: advances_trans [OF advances_bump])
  then show ?thesis
    using assms advancesD [of L L2]
    by (auto simp: scan_exponent_def Let_def L2_def [symmetric]
        intro: advances_trans [OF _ advances_take_ascii_digits])
qed

lemma scan_number_ok: "scan_ok L (scan_number L)"
proof -
  define L1 where "L1 = snd (take_if 45 L)"
  obtain zero L2 where L2: "take_if 48 L1 = (zero, L2)"
    by (cases "take_if 48 L1")
  define L3 where "L3 = (if zero then L2 else take_ascii_digits L2)"
  obtain dot L4 where L4: "take_if 46 L3 = (dot, L4)"
    by (cases "take_if 46 L3")
  define L5 where "L5 = (if dot then take_ascii_digits L4 else L4)"
  have a2: "advances L L2"
    using advances_trans [OF advances_take_if [of L 45] advances_take_if [of L1 48, unfolded L1_def]]
    by (simp add: L2 L1_def [symmetric])
  then have "advances L L3"
    by (auto simp: L3_def intro: advances_trans)
  then have a4: "advances L L4"
    using advances_trans [OF _ advances_take_if [of L3 46]] by (simp add: L4)
  then have a5: "advances L L5"
    by (auto simp: L5_def intro: advances_trans)
  note exponent = scan_exponent_ok [OF advancesD(2) [OF a5]]
  show ?thesis
  proof (cases "zero \<and> is_some_and (peek L2) is_ascii_digit \<or> dot \<and> \<not> is_some_and (peek L4) is_ascii_digit")
    case True
    then show ?thesis
      using advancesD [OF a2] advancesD [OF a4] peek_room [of L2 is_ascii_digit]
      by (auto simp: scan_number_def L1_def [symmetric] L2 L3_def [symmetric] L4 Let_def scan_ok_simps)
  next
    case False
    then have scan: "scan_number L =
       res_bind (scan_exponent (lx_position L) L5) (\<lambda>L6.
         let here = span_new (lx_position L) (lx_position L6) in
         res_bind (ok_or (f64_from_str (consumed L L6)) (parse_error (lit ''invalid number literal'') here)) (\<lambda>number.
           if \<not> is_finite number
           then Inl (parse_error (lit ''number literal is outside the finite range'') here)
           else if exceeds_exact_range number
           then Inl (parse_error (lit ''number literal is outside the exact expression range'') here)
           else Inr (number, L6)))"
      by (auto simp: scan_number_def L1_def [symmetric] L2 L3_def [symmetric] L4 L5_def [symmetric] Let_def)
    show ?thesis
    proof (cases "scan_exponent (lx_position L) L5")
      case (Inl e)
      then show ?thesis
        using exponent by (simp add: scan scan_ok_simps advancesD(1) [OF a5])
    next
      case (Inr L6)
      then have "advances L L6"
        using exponent a5 by (auto intro: advances_trans)
      then show ?thesis
        using advancesD [of L L6]
        by (cases "f64_from_str (consumed L L6)") (auto simp: scan Inr scan_ok_simps Let_def)
    qed
  qed
qed

lemma scan_hex_digits_ok:
  "escape_start \<le> lx_position L \<Longrightarrow> scan_ok L (scan_hex_digits n escape_start acc L)"
proof (induction n arbitrary: acc L)
  case (Suc n)
  obtain c L' where b: "bump L = (c, L')"
    by (cases "bump L")
  then have a: "advances L L'"
    by (rule bump_advances)
  then have "escape_start \<le> lx_position L'"
    using Suc.prems advancesD(2) [OF a] by simp
  then have "scan_ok L' (scan_hex_digits n escape_start acc' L')" for acc'
    by (rule Suc.IH)
  then show ?case
    using Suc.prems advancesD [OF a] a
    by (fastforce simp: b scan_ok_def split: option.split sum.splits intro: advances_trans)
qed (simp add: scan_ok_def)

lemma scan_hex_quad_ok: "escape_start \<le> lx_position L \<Longrightarrow> scan_ok L (scan_hex_quad escape_start L)"
  by (simp add: scan_hex_quad_def scan_hex_digits_ok)

lemma scan_unicode_escape_ok:
  assumes "escape_start \<le> lx_position L"
  shows "scan_ok L (scan_unicode_escape escape_start L)"
  unfolding scan_unicode_escape_def
proof (rule scan_ok_bind [OF scan_hex_quad_ok [OF assms]], unfold prod.case, rule scan_ok_bind)
  fix first L1
  assume a1: "advances L L1"
  then have s1: "escape_start \<le> lx_position L1"
    using assms advancesD(2) [OF a1] by simp
  obtain backslash L2 where L2: "take_if 92 L1 = (backslash, L2)"
    by (cases "take_if 92 L1")
  obtain escape L3 where L3: "(if backslash then take_if 117 L2 else (False, L2)) = (escape, L3)"
    by (cases "if backslash then take_if 117 L2 else (False, L2)")
  have a2: "advances L1 L2"
    using L2 by (rule take_if_advances)
  have "advances L2 L3"
    using L3 by (cases backslash) (auto dest: take_if_advances)
  with a2 have a3: "advances L1 L3"
    by (rule advances_trans)
  then have s3: "escape_start \<le> lx_position L3"
    using s1 advancesD(2) [OF a3] by simp
  have low: "scan_ok L3 (res_bind (scan_hex_quad escape_start L3) (\<lambda>(second, L4).
       if \<not> (0xDC00 \<le> second \<and> second \<le> 0xDFFF)
       then Inl (parse_error (lit ''invalid low surrogate in unicode escape'')
                   (span_new escape_start (lx_position L4)))
       else Inr (65536 + unat (first - 0xD800) * 1024 + unat (second - 0xDC00), L4)))"
    using s3 advancesD
    by (intro scan_ok_bind [OF scan_hex_quad_ok]) (auto simp: scan_ok_simps source_len_def dest: advancesD(2))
  have lift: "scan_ok L3 r \<Longrightarrow> scan_ok L1 r" for r :: "scalar lexed"
    using a3 advancesD(1) [OF a3] by (auto simp: scan_ok_def intro: advances_trans split: sum.splits)
  show "scan_ok L1
     (if 0xD800 \<le> first \<and> first \<le> 0xDBFF then
        case take_if 92 L1 of (backslash, L2) \<Rightarrow>
        case (if backslash then take_if 117 L2 else (False, L2)) of (escape, L3) \<Rightarrow>
        if \<not> escape
        then Inl (parse_error (lit ''high surrogate must be followed by a low surrogate escape'')
                    (span_new escape_start (lx_position L3)))
        else
          res_bind (scan_hex_quad escape_start L3) (\<lambda>(second, L4).
            if \<not> (0xDC00 \<le> second \<and> second \<le> 0xDFFF)
            then Inl (parse_error (lit ''invalid low surrogate in unicode escape'')
                        (span_new escape_start (lx_position L4)))
            else Inr (65536 + unat (first - 0xD800) * 1024 + unat (second - 0xDC00), L4))
      else if 0xDC00 \<le> first \<and> first \<le> 0xDFFF
      then Inl (parse_error (lit ''low surrogate without a preceding high surrogate'')
                  (span_new escape_start (lx_position L1)))
      else Inr (unat first, L1))"
    using s1 s3 lift [OF low] advancesD [OF a3]
    by (auto simp: L2 L3 scan_ok_simps source_len_def simp del: not_le)
next
  fix first L1 code L5
  assume a: "advances L L1" "advances L1 L5"
  then show "scan_ok L5 (case (code, L5) of (code, L5) \<Rightarrow>
      res_bind (ok_or (char_from_u32 code)
        (parse_error (lit ''invalid unicode scalar in string escape'') (span_new escape_start (lx_position L5))))
        (\<lambda>c. Inr (c, L5)))"
    using assms advancesD(2) [OF a(1)] advancesD(2) [OF a(2)]
    by (cases "char_from_u32 code") (auto simp: scan_ok_simps source_len_def)
qed

subsection \<open>String literals\<close>

lemma bump_Some: "bump L = (Some c, L') \<Longrightarrow> length (lx_remaining L) = Suc (length (lx_remaining L'))"
  by (auto simp: bump_def split: list.splits)

lemma escape_shrinks:
  assumes "bump L1 = (c, L2)" "scan_unicode_escape (lx_position L1 - 1) L2 = Inr (u, L3)"
  shows "length (lx_remaining L3) \<le> length (lx_remaining L2)"
proof -
  have "lx_position L1 - 1 \<le> lx_position L2"
    using advancesD(2) [OF bump_advances [OF assms(1)]] by simp
  then have "scan_ok L2 (scan_unicode_escape (lx_position L1 - 1) L2)"
    by (rule scan_unicode_escape_ok)
  then have "advances L2 L3"
    unfolding assms(2) scan_ok_simps .
  then show ?thesis
    by (rule advancesD(4))
qed

lemma escape_steps:
  assumes "(Some c, L1) = bump L" "(Some d, L2) = bump L1"
  shows "length (lx_remaining L2) < length (lx_remaining L)"
    "scan_unicode_escape (lx_position L1 - Suc 0) L2 = Inr (u, L3) \<Longrightarrow>
      length (lx_remaining L3) < length (lx_remaining L)"
  using escape_shrinks [OF assms(2) [symmetric], of u L3] bump_Some [OF assms(1) [symmetric]]
    bump_Some [OF assms(2) [symmetric]] by simp_all

function scan_string_loop :: "scalar \<Rightarrow> nat \<Rightarrow> str \<Rightarrow> Lexer \<Rightarrow> str lexed" where
  "scan_string_loop quote start acc L =
     (case bump L of
        (None, L1) \<Rightarrow> Inl (parse_error (lit ''unterminated string literal'') (span_new start (lx_position L1)))
      | (Some c, L1) \<Rightarrow>
          if c = quote then Inr (acc, L1)
          else if c = 92 then
            (case bump L1 of
               (None, L2) \<Rightarrow>
                 Inl (parse_error (lit ''unterminated string escape'')
                        (span_new (lx_position L1 - 1) (lx_position L2)))
             | (Some escaped, L2) \<Rightarrow>
                 if escaped = 117 then
                   (case scan_unicode_escape (lx_position L1 - 1) L2 of
                      Inl e \<Rightarrow> Inl e
                    | Inr (u, L3) \<Rightarrow> scan_string_loop quote start (acc @ [u]) L3)
                 else
                   (case simple_escape escaped of
                      None \<Rightarrow>
                        Inl (parse_error (lit ''unsupported string escape `'' @ [92, escaped, 96])
                               (span_new (lx_position L1 - 1) (lx_position L2)))
                    | Some u \<Rightarrow> scan_string_loop quote start (acc @ [u]) L2))
          else if is_control c then
            Inl (parse_error (lit ''unescaped control character in string literal'')
                   (span_new (lx_position L1 - len_utf8 c) (lx_position L1)))
          else scan_string_loop quote start (acc @ [c]) L1)"
  by pat_completeness auto
termination
  by (relation "measure (\<lambda>(_, _, _, L). length (lx_remaining L))")
    (auto intro: escape_steps dest: bump_Some [OF sym])

declare scan_string_loop.simps [simp del]

definition scan_string :: "scalar \<Rightarrow> Lexer \<Rightarrow> str lexed" where
  "scan_string quote L = scan_string_loop quote (lx_position L) [] (skip L)"

lemma scan_ok_later: "advances L L' \<Longrightarrow> scan_ok L' r \<Longrightarrow> scan_ok L r"
  by (auto simp: scan_ok_def advancesD(1) intro: advances_trans split: sum.splits)

lemma scan_string_loop_ok:
  "start \<le> lx_position L \<Longrightarrow> scan_ok L (scan_string_loop quote start acc L)"
proof (induction "length (lx_remaining L)" arbitrary: acc L rule: less_induct)
  case less
  have next_step: "scan_ok L (scan_string_loop quote start acc' L')"
    if "advances L L'" "length (lx_remaining L') < length (lx_remaining L)" for acc' L'
    using less.prems advancesD(2) [OF that(1)] that
    by (intro scan_ok_later [OF that(1)] less.hyps) simp_all
  obtain c L1 where b1: "bump L = (c, L1)"
    by (cases "bump L")
  obtain d L2 where b2: "bump L1 = (d, L2)"
    by (cases "bump L1")
  note a1 = bump_advances [OF b1] and a2 = bump_advances [OF b2]
  note a12 = advances_trans [OF a1 a2]
  note pos = less.prems advancesD(1-3) [OF a1] advancesD(1-3) [OF a12] advancesD(2) [OF a2]
  have fails: "scan_ok L (Inl (parse_error m (span_new (lx_position L1 - n) (lx_position L1))))"
      "scan_ok L (Inl (parse_error m (span_new (lx_position L1 - n) (lx_position L2))))" for n m
    using pos by (auto simp: scan_ok_simps)
  have escape: "scan_ok L2 (scan_unicode_escape (lx_position L1 - Suc 0) L2)"
    using pos by (intro scan_unicode_escape_ok) simp
  have unicode: "scan_ok L (case scan_unicode_escape (lx_position L1 - Suc 0) L2 of
      Inl e \<Rightarrow> Inl e | Inr (u, L3) \<Rightarrow> scan_string_loop quote start (acc @ [u]) L3)"
    if "c = Some x" "d = Some y" for x y
  proof (cases "scan_unicode_escape (lx_position L1 - Suc 0) L2")
    case (Inl e)
    then show ?thesis
      using escape pos by (simp add: scan_ok_simps)
  next
    case (Inr p)
    obtain u L3 where p: "p = (u, L3)"
      by (cases p)
    with Inr escape have "advances L2 L3"
      by (simp add: scan_ok_simps)
    moreover have "length (lx_remaining L3) < length (lx_remaining L)"
      using escape_steps(2) [of x L1 L y L2 u L3] Inr p that b1 b2 by simp
    ultimately show ?thesis
      using next_step [OF advances_trans [OF a12]] by (simp add: Inr p)
  qed
  show ?case
  proof (cases c)
    case None
    then show ?thesis
      using pos by (simp add: scan_string_loop.simps [of quote start acc L] b1 scan_ok_simps)
  next
    case (Some ch)
    have simple: "scan_ok L (scan_string_loop quote start acc' L2)" if "d = Some y" for y acc'
      using next_step [OF a12] escape_steps(1) [of ch L1 L y L2] that Some b1 b2 by simp
    show ?thesis
      using a1 unicode [OF Some] next_step [OF a1] bump_Some [OF b1 [unfolded Some]]
      by (cases d) (simp_all add: scan_string_loop.simps [of quote start acc L] b1 b2 Some scan_ok_Inr
          fails simple split: option.split)
  qed
qed

lemma scan_string_ok: "scan_ok L (scan_string quote L)"
  unfolding scan_string_def
  by (rule scan_ok_later [OF advances_bump]) (simp add: scan_string_loop_ok advancesD(2))

subsection \<open>Tokens\<close>

text \<open>The \<^verbatim>\<open>match character\<close> of \<^verbatim>\<open>tokenize\<close>: the kind of the token that starts here.\<close>

definition scan_pair :: "scalar \<Rightarrow> TokenKind \<Rightarrow> TokenKind \<Rightarrow> Lexer \<Rightarrow> TokenKind lexed" where
  "scan_pair second both single L =
     (case take_if second (skip L) of (taken, L') \<Rightarrow> Inr (if taken then both else single, L'))"

definition scan_double :: "scalar \<Rightarrow> TokenKind \<Rightarrow> str \<Rightarrow> Lexer \<Rightarrow> TokenKind lexed" where
  "scan_double second both message L =
     (case take_if second (skip L) of (taken, L') \<Rightarrow>
        if taken then Inr (both, L')
        else Inl (parse_error message (span_new (lx_position L) (lx_position L'))))"

definition scan_token :: "scalar \<Rightarrow> Lexer \<Rightarrow> TokenKind lexed" where
  "scan_token c L =
     (if c = 40 then Inr (TkLeftParenthesis, skip L)
      else if c = 41 then Inr (TkRightParenthesis, skip L)
      else if c = 46 then Inr (TkDot, skip L)
      else if c = 33 then scan_pair 61 TkNotEqual TkBang L
      else if c = 61 then
        scan_double 61 TkEqual (lit ''assignment is not supported; use `==` for equality'') L
      else if c = 60 then scan_pair 61 TkLessEqual TkLess L
      else if c = 62 then scan_pair 61 TkGreaterEqual TkGreater L
      else if c = 38 then scan_double 38 TkAnd (lit ''single `&` is not supported; use `&&`'') L
      else if c = 124 then scan_double 124 TkOr (lit ''single `|` is not supported; use `||`'') L
      else if c = 39 \<or> c = 34 then
        res_bind (scan_string c L) (\<lambda>(s, L'). Inr (TkString s, L'))
      else if c = 45 \<and> is_some_and (peek_second L) is_ascii_digit then
        res_bind (scan_number L) (\<lambda>(n, L'). Inr (TkNumber n, L'))
      else if is_ascii_digit c then
        res_bind (scan_number L) (\<lambda>(n, L'). Inr (TkNumber n, L'))
      else if is_identifier_start c then Inr (scan_identifier L)
      else if c = 36 \<and> take 3 (lx_remaining L) = lit ''${{'' then
        Inl (parse_error (lit ''interpolation syntax is not supported'')
               (span_new (lx_position L) (min (lx_position L + 3) (source_len L))))
      else
        Inl (parse_error (lit ''unexpected character `'' @ [c, 96])
               (span_new (lx_position L) (lx_position (skip L)))))"

lemma skip_shrinks: "peek L = Some c \<Longrightarrow> length (lx_remaining (skip L)) < length (lx_remaining L)"
  by (auto simp: peek_def bump_def split: list.splits)

lemma source_len_skip [simp]: "source_len (skip L) = source_len L"
  by (rule advancesD(1) [OF advances_bump])

lemma skip_while_first: "peek L = Some c \<Longrightarrow> P c \<Longrightarrow> skip_while P L = skip_while P (skip L)"
  by (simp add: skip_while.simps [of P L] is_some_and_def)

lemma scan_number_skip:
  assumes c: "peek L = Some c" "c = 45 \<or> is_ascii_digit c"
  shows "scan_ok (skip L) (scan_number L)"
proof -
  define L1 where "L1 = snd (take_if 45 L)"
  obtain zero L2 where L2: "take_if 48 L1 = (zero, L2)"
    by (cases "take_if 48 L1")
  define L3 where "L3 = (if zero then L2 else take_ascii_digits L2)"
  have first: "advances (skip L) L3"
  proof (cases "c = 45")
    case True
    then have "L1 = skip L"
      using c by (simp add: L1_def take_if_def)
    then show ?thesis
      using take_if_advances [OF L2] by (auto simp: L3_def intro: advances_trans)
  next
    case False
    then have "L1 = L"
      using c by (simp add: L1_def take_if_def)
    then show ?thesis
      using False c L2 skip_while_first [of L c is_ascii_digit]
      by (auto simp: L3_def take_if_def take_ascii_digits_def split: if_splits)
  qed
  have "scan_number L = Inr (n, L') \<Longrightarrow> advances L3 L'" for n L'
  proof -
    obtain dot L4 where L4: "take_if 46 L3 = (dot, L4)"
      by (cases "take_if 46 L3")
    define L5 where "L5 = (if dot then take_ascii_digits L4 else L4)"
    have "advances L3 L5"
      using take_if_advances [OF L4] by (auto simp: L5_def intro: advances_trans)
    moreover assume "scan_number L = Inr (n, L')"
    then have "scan_exponent (lx_position L) L5 = Inr L'"
      by (auto simp: scan_number_def L1_def [symmetric] L2 L3_def [symmetric] L4 L5_def [symmetric] Let_def
          res_simps split: if_splits)
    moreover have "lx_position L \<le> lx_position L5"
      using advancesD(2) [OF advances_bump [of L]] advancesD(2) [OF first] advancesD(2) [OF \<open>advances L3 L5\<close>]
      by simp
    ultimately show "advances L3 L'"
      using scan_exponent_ok [of "lx_position L" L5] by (auto intro: advances_trans)
  qed
  then show ?thesis
    using scan_number_ok [of L] first
    by (auto simp: scan_ok_def intro: advances_trans split: sum.splits)
qed

lemma scan_ok_map:
  "scan_ok L r \<Longrightarrow> scan_ok L (res_bind r (\<lambda>(x, L'). Inr (f x, L')))"
  by (auto simp: scan_ok_def split: sum.splits)

lemma scan_pair_ok: "scan_ok (skip L) (scan_pair second both single L)"
  using take_if_advances [of second "skip L"]
  by (auto simp: scan_pair_def scan_ok_def split: prod.split)

lemma scan_double_ok: "scan_ok (skip L) (scan_double second both message L)"
proof -
  obtain taken L' where t: "take_if second (skip L) = (taken, L')"
    by (cases "take_if second (skip L)")
  note a = take_if_advances [OF t]
  show ?thesis
    using a advancesD(2, 3) [OF advances_trans [OF advances_bump a]]
    by (simp add: scan_double_def t scan_ok_simps)
qed

text \<open>A token read at a character takes at least that character.\<close>

lemma scan_token_ok:
  assumes "peek L = Some c"
  shows "scan_ok (skip L) (scan_token c L)"
proof -
  have string: "scan_ok (skip L) (scan_string q L)" for q
    unfolding scan_string_def by (rule scan_string_loop_ok) (rule advancesD(2) [OF advances_bump])
  have ident: "scan_ok (skip L) (Inr (scan_identifier L))"
    by (simp add: scan_identifier_def Let_def scan_ok_simps)
  have here: "lx_position L \<le> lx_position (skip L)" "lx_position (skip L) \<le> source_len L"
    using advancesD(2, 3) [OF advances_bump, of L] .
  then show ?thesis
    using scan_number_skip [OF assms] string ident
    by (auto simp: scan_token_def scan_ok_Inr scan_ok_Inl scan_pair_ok scan_double_ok scan_ok_map)
qed

lemma scan_token_shrinks:
  assumes "peek L = Some c" "scan_token c L = Inr (kind, L')"
  shows "length (lx_remaining L') < length (lx_remaining L)"
proof -
  have "advances (skip L) L'"
    using scan_token_ok [OF assms(1)] by (simp add: assms(2) scan_ok_simps)
  then show ?thesis
    using advancesD(4) skip_shrinks [OF assms(1)] by fastforce
qed

function tokenize_loop :: "Token list \<Rightarrow> Lexer \<Rightarrow> (ParseError, Token list) result" where
  "tokenize_loop tokens L =
     (case peek L of
        None \<Rightarrow>
          Inr (tokens @ [\<lparr>tk_kind = TkEnd, tk_span = span_new (lx_position L) (lx_position L)\<rparr>])
      | Some c \<Rightarrow>
          if is_whitespace c then tokenize_loop tokens (skip L)
          else if length tokens \<ge> MAX_TOKENS then
            Inl (parse_error (lit ''expression exceeds 4096-token limit'')
                   (span_new (lx_position L) (lx_position L + len_utf8 c)))
          else
            (case scan_token c L of
               Inl e \<Rightarrow> Inl e
             | Inr (kind, L') \<Rightarrow>
                 tokenize_loop
                   (tokens @ [\<lparr>tk_kind = kind, tk_span = span_new (lx_position L) (lx_position L')\<rparr>]) L'))"
  by pat_completeness auto
termination
  by (relation "measure (\<lambda>(_, L). length (lx_remaining L))")
    (auto intro: skip_shrinks scan_token_shrinks)

declare tokenize_loop.simps [simp del]

definition tokenize :: "str \<Rightarrow> (ParseError, Token list) result" where
  "tokenize source = tokenize_loop [] (lexer_new source)"

subsection \<open>What the token stream guarantees\<close>

definition keywords_of_values :: "str list" where
  "keywords_of_values = [lit ''null'', lit ''true'', lit ''false'']"

definition is_identifier :: "str \<Rightarrow> bool" where
  "is_identifier s \<longleftrightarrow>
     s \<noteq> [] \<and> is_identifier_start (hd s) \<and> list_all is_identifier_continue (tl s)"

definition exact_number :: "f64 \<Rightarrow> bool" where
  "exact_number x \<longleftrightarrow>
     (\<exists>v. x = Finite v \<and> representable v \<and> \<bar>v\<bar> \<le> MAX_EXACT_EXPRESSION_NUMBER)"

definition kind_ok :: "TokenKind \<Rightarrow> bool" where
  "kind_ok kind \<longleftrightarrow>
     (case kind of
        TkNumber x \<Rightarrow> exact_number x
      | TkIdentifier s \<Rightarrow> is_identifier s \<and> s \<notin> set keywords_of_values
      | _ \<Rightarrow> True)"

definition tokens_ok :: "nat \<Rightarrow> Token list \<Rightarrow> bool" where
  "tokens_ok n ts \<longleftrightarrow>
     (\<forall>t\<in>set ts. inside n (tk_span t) \<and> kind_ok (tk_kind t) \<and> tk_kind t \<noteq> TkEnd) \<and>
     sorted_wrt (\<lambda>a b. sp_end (tk_span a) \<le> sp_start (tk_span b)) ts"

definition stream_ok :: "nat \<Rightarrow> Token list \<Rightarrow> bool" where
  "stream_ok n ts \<longleftrightarrow>
     (\<exists>us p. ts = us @ [\<lparr>tk_kind = TkEnd, tk_span = span_new p p\<rparr>] \<and> p \<le> n \<and>
        length us \<le> MAX_TOKENS \<and> tokens_ok n us \<and> (\<forall>t\<in>set us. sp_end (tk_span t) \<le> p))"

definition lexing_ok :: "nat \<Rightarrow> (ParseError, Token list) result \<Rightarrow> bool" where
  "lexing_ok n r \<longleftrightarrow>
     (case r of Inl e \<Rightarrow> inside n (pe_span e) | Inr ts \<Rightarrow> stream_ok n ts)"

lemma lexing_ok_simps [simp]:
  "lexing_ok n (Inl e) \<longleftrightarrow> inside n (pe_span e)"
  "lexing_ok n (Inr ts) \<longleftrightarrow> stream_ok n ts"
  by (simp_all add: lexing_ok_def)

lemma f64_from_str_representable: "f64_from_str s = Some (Finite v) \<Longrightarrow> representable v"
  by (auto simp: f64_from_str_def Let_def split: prod.splits if_splits intro: round_f64_representable)

lemma scan_number_exact: "scan_number L = Inr (n, L') \<Longrightarrow> exact_number n"
  by (cases n) (auto simp: scan_number_def Let_def res_simps exact_number_def not_less
      split: prod.splits if_splits intro: f64_from_str_representable)

lemma skip_while_consumes:
  "lx_remaining L = takeWhile P (lx_remaining L) @ lx_remaining (skip_while P L)"
proof (induction P L rule: skip_while.induct)
  case (1 P L)
  then show ?case
    by (cases "lx_remaining L") (auto simp: skip_while.simps [of P L] is_some_and_def peek_def bump_def)
qed

lemma scan_identifier_word:
  assumes "peek L = Some c" "is_identifier_start c"
  shows "kind_ok (fst (scan_identifier L))"
proof -
  obtain cs where r: "lx_remaining L = c # cs"
    using assms(1) by (auto simp: peek_def split: list.splits)
  then have "lx_remaining (skip L) = cs"
    by (simp add: bump_def)
  then have "lx_remaining L = (c # takeWhile is_identifier_continue cs) @
      lx_remaining (skip_while is_identifier_continue (skip L))"
    using skip_while_consumes [of "skip L" is_identifier_continue] r by simp
  then have "consumed L (skip_while is_identifier_continue (skip L)) = c # takeWhile is_identifier_continue cs"
    by (rule consumed_append)
  moreover have "list_all is_identifier_continue (takeWhile is_identifier_continue cs)"
    by (auto simp: list_all_iff dest: set_takeWhileD)
  ultimately show ?thesis
    using assms(2)
    by (auto simp: scan_identifier_def Let_def kind_ok_def is_identifier_def keywords_of_values_def)
qed

lemma scan_token_kind:
  assumes "peek L = Some c" "scan_token c L = Inr (kind, L')"
  shows "kind_ok kind" "kind \<noteq> TkEnd"
  using assms scan_identifier_word [OF assms(1)]
  by (auto simp: scan_token_def scan_pair_def scan_double_def res_simps kind_ok_def
      scan_identifier_def Let_def dest: scan_number_exact split: if_splits prod.splits)

lemma tokens_ok_snoc:
  "tokens_ok n (us @ [t]) \<longleftrightarrow>
     tokens_ok n us \<and> inside n (tk_span t) \<and> kind_ok (tk_kind t) \<and> tk_kind t \<noteq> TkEnd \<and>
     (\<forall>u\<in>set us. sp_end (tk_span u) \<le> sp_start (tk_span t))"
  by (auto simp: tokens_ok_def sorted_wrt_append)

lemma tokenize_loop_ok:
  assumes "tokens_ok (source_len L) us" "\<forall>t\<in>set us. sp_end (tk_span t) \<le> lx_position L"
    "length us \<le> MAX_TOKENS"
  shows "lexing_ok (source_len L) (tokenize_loop us L)"
  using assms
proof (induction "length (lx_remaining L)" arbitrary: us L rule: less_induct)
  case less
  show ?case
  proof (cases "peek L")
    case None
    then have "lx_position L \<le> source_len L"
      by (simp add: source_len_def)
    then show ?thesis
      using None less.prems by (auto simp: tokenize_loop.simps [of us L] stream_ok_def)
  next
    case (Some c)
    have room: "lx_position L + len_utf8 c \<le> source_len L"
      using Some by (auto simp: peek_def source_len_def split: list.splits)
    have space: ?thesis if "is_whitespace c"
      using less.hyps [of "skip L" us] less.prems skip_shrinks [OF Some] advancesD(2) [OF advances_bump [of L]] that
      by (fastforce simp: tokenize_loop.simps [of us L] Some)
    have full: ?thesis if "\<not> is_whitespace c" "MAX_TOKENS \<le> length us"
      using room that by (simp add: tokenize_loop.simps [of us L] Some)
    show ?thesis
    proof (cases "is_whitespace c \<or> MAX_TOKENS \<le> length us")
      case True
      then show ?thesis
        using space full by blast
    next
      case False
      show ?thesis
      proof (cases "scan_token c L")
        case (Inl e)
        then show ?thesis
          using False scan_token_ok [OF Some] by (simp add: tokenize_loop.simps [of us L] Some scan_ok_Inl)
      next
        case (Inr p)
        then obtain kind L' where p: "scan_token c L = Inr (kind, L')"
          by (cases p) auto
        have a: "advances L L'"
          using scan_token_ok [OF Some] advances_trans [OF advances_bump] by (simp add: p scan_ok_Inr)
        let ?t = "\<lparr>tk_kind = kind, tk_span = span_new (lx_position L) (lx_position L')\<rparr>"
        have "tokens_ok (source_len L') (us @ [?t])"
          using less.prems advancesD [OF a] scan_token_kind [OF Some p]
          by (simp add: tokens_ok_snoc) (simp add: span_new_def)
        moreover have "\<forall>t\<in>set (us @ [?t]). sp_end (tk_span t) \<le> lx_position L'"
          using less.prems(2) advancesD(2) [OF a] by (fastforce simp: span_new_def)
        ultimately show ?thesis
          using less.hyps [OF scan_token_shrinks [OF Some p]] False advancesD(1) [OF a]
          by (simp add: tokenize_loop.simps [of us L] Some p)
      qed
    qed
  qed
qed

lemma source_len_new [simp]: "source_len (lexer_new source) = str_len source"
  by (simp add: source_len_def lexer_new_def)

lemma tokenize_ok: "lexing_ok (str_len source) (tokenize source)"
  using tokenize_loop_ok [of "lexer_new source" "[]"] by (simp add: tokenize_def tokens_ok_def)

end
