(* ===== verification/Expression_Parser.thy ===== *)
theory Expression_Parser
  imports Expression_Lexer
begin

text \<open>
  The parser of conditions (\<^verbatim>\<open>crates/expression/src/parser.rs\<close>). A \<^verbatim>\<open>Parser\<close> is the tokens from its
  position on and its nesting count. Indexing past the end of the tokens and the \<^verbatim>\<open>expect\<close> on a
  number are outcomes of their own, which the theorems exclude. The loops over operators and the
  recursion through parentheses carry a counter: a loop takes one token per round, so the number of
  tokens bounds it, and every parenthesis is counted by \<^verbatim>\<open>enter_nesting\<close>, so the nesting limit
  bounds the recursion; running out of either is an outcome as well, and is excluded too.
\<close>

definition MAX_EXPRESSION_BYTES :: nat where
  "MAX_EXPRESSION_BYTES = 65536"

definition MAX_PARSE_DEPTH :: nat where
  "MAX_PARSE_DEPTH = 128"

record Parser =
  ps_tokens :: "Token list"
  ps_nesting :: nat

datatype ParseFailure = SyntaxError ParseError | Panic | OutOfFuel

type_synonym 'a parsed = "(ParseFailure, 'a \<times> Parser) result"

definition syntax_error :: "str \<Rightarrow> Span \<Rightarrow> ParseFailure" where
  "syntax_error message s = SyntaxError (parse_error message s)"

definition parser_new :: "Token list \<Rightarrow> Parser" where
  "parser_new tokens = \<lparr>ps_tokens = tokens, ps_nesting = 0\<rparr>"

definition current :: "Parser \<Rightarrow> (ParseFailure, Token) result" where
  "current P = (case ps_tokens P of [] \<Rightarrow> Inl Panic | t # _ \<Rightarrow> Inr t)"

definition take_token :: "Parser \<Rightarrow> Token parsed" where
  "take_token P =
     (case ps_tokens P of
        [] \<Rightarrow> Inl Panic
      | t # ts \<Rightarrow> Inr (t, if tk_kind t = TkEnd then P else P\<lparr>ps_tokens := ts\<rparr>))"

definition enter_nesting :: "Span \<Rightarrow> Parser \<Rightarrow> (ParseFailure, Parser) result" where
  "enter_nesting s P =
     (if ps_nesting P \<ge> MAX_PARSE_DEPTH
      then Inl (syntax_error (lit ''expression nesting exceeds 128-level limit'') s)
      else Inr (P\<lparr>ps_nesting := ps_nesting P + 1\<rparr>))"

definition leave_nesting :: "Parser \<Rightarrow> Parser" where
  "leave_nesting P = P\<lparr>ps_nesting := ps_nesting P - 1\<rparr>"

fun describe_token :: "TokenKind \<Rightarrow> str" where
  "describe_token TkNull = lit ''`null`''"
| "describe_token (TkBoolean _) = lit ''boolean literal''"
| "describe_token (TkNumber _) = lit ''number literal''"
| "describe_token (TkString _) = lit ''string literal''"
| "describe_token (TkIdentifier _) = lit ''identifier''"
| "describe_token TkDot = lit ''`.`''"
| "describe_token TkLeftParenthesis = lit ''`(`''"
| "describe_token TkRightParenthesis = lit ''`)`''"
| "describe_token TkBang = lit ''`!`''"
| "describe_token TkAnd = lit ''`&&`''"
| "describe_token TkOr = lit ''`||`''"
| "describe_token TkEqual = lit ''`==`''"
| "describe_token TkNotEqual = lit ''`!=`''"
| "describe_token TkLess = lit ''`<`''"
| "describe_token TkLessEqual = lit ''`<=`''"
| "describe_token TkGreater = lit ''`>`''"
| "describe_token TkGreaterEqual = lit ''`>=`''"
| "describe_token TkEnd = lit ''end of input''"

fun with_span :: "SyntaxNode \<Rightarrow> Span \<Rightarrow> SyntaxNode" where
  "with_span (Literal v _) s = Literal v s"
| "with_span (Lookup path _) s = Lookup path s"
| "with_span (Unary operator operator_span operand _) s = Unary operator operator_span operand s"
| "with_span (Binary operator operator_span left right _) s = Binary operator operator_span left right s"

subsection \<open>Lookups\<close>

text \<open>A path segment may be spelled like a literal.\<close>

fun segment_name :: "TokenKind \<Rightarrow> str option" where
  "segment_name (TkIdentifier name) = Some name"
| "segment_name TkNull = Some (lit ''null'')"
| "segment_name (TkBoolean b) = Some (if b then lit ''true'' else lit ''false'')"
| "segment_name _ = None"

lemma take_token_shrinks:
  assumes "take_token P = Inr (t, P')" "tk_kind t \<noteq> TkEnd"
  shows "length (ps_tokens P') < length (ps_tokens P)"
  using assms by (auto simp: take_token_def split: list.splits)

function lookup_segments :: "str list \<Rightarrow> nat \<Rightarrow> Parser \<Rightarrow> (str list \<times> nat) parsed" where
  "lookup_segments path end_position P =
     (case current P of
        Inl e \<Rightarrow> Inl e
      | Inr t \<Rightarrow>
          if tk_kind t \<noteq> TkDot then Inr ((path, end_position), P)
          else
            (case take_token P of
               Inl e \<Rightarrow> Inl e
             | Inr (_, P1) \<Rightarrow>
                 (case take_token P1 of
                    Inl e \<Rightarrow> Inl e
                  | Inr (segment, P2) \<Rightarrow>
                      (case segment_name (tk_kind segment) of
                         None \<Rightarrow> Inl (syntax_error (lit ''expected identifier after `.`'') (tk_span segment))
                       | Some name \<Rightarrow>
                           lookup_segments (path @ [name]) (sp_end (tk_span segment)) P2))))"
  by pat_completeness auto
termination
proof (relation "measure (\<lambda>(_, _, P). length (ps_tokens P))", goal_cases)
  case (2 path end_position P t p d P1 q segment P2 name)
  then have "length (ps_tokens P2) < length (ps_tokens P1)"
    by (intro take_token_shrinks [of P1 segment]) auto
  moreover have "length (ps_tokens P1) \<le> length (ps_tokens P)"
    using 2 by (auto simp: take_token_def split: list.splits if_splits)
  ultimately show ?case
    by simp
qed simp

declare lookup_segments.simps [simp del]

definition parse_lookup :: "str \<Rightarrow> Span \<Rightarrow> Parser \<Rightarrow> SyntaxNode parsed" where
  "parse_lookup first first_span P =
     res_bind (lookup_segments [first] (sp_end first_span) P) (\<lambda>((path, end_position), P').
     res_bind (current P') (\<lambda>t.
       if tk_kind t = TkLeftParenthesis
       then Inl (syntax_error (lit ''function calls are not supported'') (tk_span t))
       else Inr (Lookup path (span_new (sp_start first_span) end_position), P')))"

subsection \<open>Operands\<close>

text \<open>
  \<^verbatim>\<open>parse_primary\<close> and \<^verbatim>\<open>parse_unary\<close> call \<^verbatim>\<open>parse_or\<close> again inside parentheses; that call is
  their argument.
\<close>

definition parse_primary :: "(Parser \<Rightarrow> SyntaxNode parsed) \<Rightarrow> Parser \<Rightarrow> SyntaxNode parsed" where
  "parse_primary nested_or P =
     res_bind (take_token P) (\<lambda>(t, P1).
       (case tk_kind t of
          TkNull \<Rightarrow> Inr (Literal value_null (tk_span t), P1)
        | TkBoolean b \<Rightarrow> Inr (Literal (value_boolean b) (tk_span t), P1)
        | TkNumber n \<Rightarrow>
            (case value_number n of
               Inl _ \<Rightarrow> Inl Panic
             | Inr v \<Rightarrow> Inr (Literal v (tk_span t), P1))
        | TkString s \<Rightarrow> Inr (Literal (value_string s) (tk_span t), P1)
        | TkIdentifier first \<Rightarrow> parse_lookup first (tk_span t) P1
        | TkLeftParenthesis \<Rightarrow>
            res_bind (enter_nesting (tk_span t) P1) (\<lambda>P2.
            res_bind (nested_or P2) (\<lambda>(expression, P3).
            let P4 = leave_nesting P3 in
            res_bind (current P4) (\<lambda>closing.
              if tk_kind closing \<noteq> TkRightParenthesis
              then Inl (syntax_error (lit ''expected `)`'') (tk_span closing))
              else
                res_bind (take_token P4) (\<lambda>(closing, P5).
                  Inr (with_span expression (through (tk_span t) (tk_span closing)), P5)))))
        | TkEnd \<Rightarrow> Inl (syntax_error (lit ''expected expression'') (tk_span t))
        | kind \<Rightarrow>
            Inl (syntax_error (lit ''expected expression, found '' @ describe_token kind) (tk_span t))))"

function parse_unary :: "(Parser \<Rightarrow> SyntaxNode parsed) \<Rightarrow> Parser \<Rightarrow> SyntaxNode parsed" where
  "parse_unary nested_or P =
     (case current P of
        Inl e \<Rightarrow> Inl e
      | Inr t \<Rightarrow>
          if tk_kind t = TkBang then
            (case take_token P of
               Inl e \<Rightarrow> Inl e
             | Inr (operator, P1) \<Rightarrow>
                 (case enter_nesting (tk_span operator) P1 of
                    Inl e \<Rightarrow> Inl e
                  | Inr P2 \<Rightarrow>
                      (case parse_unary nested_or P2 of
                         Inl e \<Rightarrow> Inl e
                       | Inr (operand, P3) \<Rightarrow>
                           Inr (Unary NotOp (tk_span operator) operand
                                  (through (tk_span operator) (node_span operand)), leave_nesting P3))))
          else parse_primary nested_or P)"
  by pat_completeness auto
termination
  by (relation "measure (\<lambda>(_, P). length (ps_tokens P))")
    (auto simp: current_def take_token_def enter_nesting_def split: list.splits if_splits)

declare parse_unary.simps [simp del]

subsection \<open>Binary operators\<close>

text \<open>
  The shape the four operator levels share: an operand, then operators of the level each followed
  by another operand, grouped to the left.
\<close>

fun binary_loop ::
    "(TokenKind \<Rightarrow> BinaryOperator option) \<Rightarrow> (Parser \<Rightarrow> SyntaxNode parsed) \<Rightarrow> nat \<Rightarrow> SyntaxNode \<Rightarrow> Parser \<Rightarrow>
     SyntaxNode parsed" where
  "binary_loop operators operand 0 left P = Inl OutOfFuel"
| "binary_loop operators operand (Suc rounds) left P =
     res_bind (current P) (\<lambda>t.
       (case operators (tk_kind t) of
          None \<Rightarrow> Inr (left, P)
        | Some operator \<Rightarrow>
            res_bind (take_token P) (\<lambda>(operator_token, P1).
            res_bind (operand P1) (\<lambda>(right, P2).
              binary_loop operators operand rounds
                (Binary operator (tk_span operator_token) left right
                  (through (node_span left) (node_span right))) P2))))"

definition binary_level ::
    "(TokenKind \<Rightarrow> BinaryOperator option) \<Rightarrow> (Parser \<Rightarrow> SyntaxNode parsed) \<Rightarrow> Parser \<Rightarrow> SyntaxNode parsed" where
  "binary_level operators operand P =
     res_bind (operand P) (\<lambda>(left, P1).
       binary_loop operators operand (Suc (length (ps_tokens P1))) left P1)"

fun or_operator :: "TokenKind \<Rightarrow> BinaryOperator option" where
  "or_operator TkOr = Some OrOp"
| "or_operator _ = None"

fun and_operator :: "TokenKind \<Rightarrow> BinaryOperator option" where
  "and_operator TkAnd = Some AndOp"
| "and_operator _ = None"

fun equality_operator :: "TokenKind \<Rightarrow> BinaryOperator option" where
  "equality_operator TkEqual = Some EqualOp"
| "equality_operator TkNotEqual = Some NotEqualOp"
| "equality_operator _ = None"

fun comparison_operator :: "TokenKind \<Rightarrow> BinaryOperator option" where
  "comparison_operator TkLess = Some LessOp"
| "comparison_operator TkLessEqual = Some LessEqualOp"
| "comparison_operator TkGreater = Some GreaterOp"
| "comparison_operator TkGreaterEqual = Some GreaterEqualOp"
| "comparison_operator _ = None"

definition parse_comparison :: "(Parser \<Rightarrow> SyntaxNode parsed) \<Rightarrow> Parser \<Rightarrow> SyntaxNode parsed" where
  "parse_comparison nested_or = binary_level comparison_operator (parse_unary nested_or)"

definition parse_equality :: "(Parser \<Rightarrow> SyntaxNode parsed) \<Rightarrow> Parser \<Rightarrow> SyntaxNode parsed" where
  "parse_equality nested_or = binary_level equality_operator (parse_comparison nested_or)"

definition parse_and :: "(Parser \<Rightarrow> SyntaxNode parsed) \<Rightarrow> Parser \<Rightarrow> SyntaxNode parsed" where
  "parse_and nested_or = binary_level and_operator (parse_equality nested_or)"

primrec parse_or :: "nat \<Rightarrow> Parser \<Rightarrow> SyntaxNode parsed" where
  "parse_or 0 P = Inl OutOfFuel"
| "parse_or (Suc levels) P = binary_level or_operator (parse_and (parse_or levels)) P"

definition parse_tokens :: "Token list \<Rightarrow> (ParseFailure, SyntaxNode) result" where
  "parse_tokens tokens =
     (let P = parser_new tokens in
      res_bind (current P) (\<lambda>t.
      if tk_kind t = TkEnd then Inl (syntax_error (lit ''expression is empty'') (tk_span t))
      else
        res_bind (parse_or (Suc MAX_PARSE_DEPTH) P) (\<lambda>(expression, P1).
        res_bind (current P1) (\<lambda>t.
          if tk_kind t \<noteq> TkEnd then
            Inl (syntax_error
                   (if tk_kind t = TkLeftParenthesis then lit ''function calls are not supported''
                    else lit ''unexpected '' @ describe_token (tk_kind t) @ lit '' after expression'')
                   (tk_span t))
          else Inr expression))))"

definition parse :: "str \<Rightarrow> (ParseFailure, Expression) result" where
  "parse source =
     (if str_len source > MAX_EXPRESSION_BYTES
      then Inl (syntax_error (lit ''expression exceeds 65536-byte limit'')
                  (span_new MAX_EXPRESSION_BYTES (str_len source)))
      else
        res_bind (map_err SyntaxError (tokenize source)) (\<lambda>tokens.
        res_bind (parse_tokens tokens) (\<lambda>root.
          Inr \<lparr>ex_source = source, ex_root = root\<rparr>)))"

end
