(* ===== verification/Expression_Grammar.thy ===== *)
theory Expression_Grammar
  imports Expression_Parser
begin

text \<open>
  The grammar of conditions as a derivation relation, and the proof that the parser decides it.
  The grammar is the usual layered one: level 0 is \<^verbatim>\<open>||\<close>, level 1 \<^verbatim>\<open>&&\<close>, level 2 equality, level 3
  comparison, level 4 negation and atoms; the binary levels are left-recursive, which fixes the
  grouping. A derivation counts the nesting of parentheses and negations it needs.
\<close>

datatype Tree =
  TLit ValueKind | TLookup "str list" | TNot Tree | TBin BinaryOperator Tree Tree

fun tree_of :: "SyntaxNode \<Rightarrow> Tree" where
  "tree_of (Literal v _) = TLit (v_kind v)"
| "tree_of (Lookup path _) = TLookup path"
| "tree_of (Unary _ _ operand _) = TNot (tree_of operand)"
| "tree_of (Binary operator _ left right _) = TBin operator (tree_of left) (tree_of right)"

fun literal_kind :: "TokenKind \<Rightarrow> ValueKind option" where
  "literal_kind TkNull = Some NullKind"
| "literal_kind (TkBoolean b) = Some (BooleanKind b)"
| "literal_kind (TkNumber n) = Some (NumberKind n)"
| "literal_kind (TkString s) = Some (StringKind s)"
| "literal_kind _ = None"

definition level_operator :: "nat \<Rightarrow> TokenKind \<Rightarrow> BinaryOperator option" where
  "level_operator l =
     (if l = 0 then or_operator else if l = 1 then and_operator
      else if l = 2 then equality_operator else comparison_operator)"

definition dotted :: "TokenKind list \<Rightarrow> TokenKind list" where
  "dotted ks = concat (map (\<lambda>k. [TkDot, k]) ks)"

inductive derives :: "nat \<Rightarrow> nat \<Rightarrow> TokenKind list \<Rightarrow> Tree \<Rightarrow> bool" where
  climb: "derives (Suc l) d ks t \<Longrightarrow> l < 4 \<Longrightarrow> derives l d ks t"
| binary: "derives l d ks t \<Longrightarrow> l < 4 \<Longrightarrow> level_operator l k = Some operator \<Longrightarrow>
    derives (Suc l) d' ks' t' \<Longrightarrow> derives l (max d d') (ks @ k # ks') (TBin operator t t')"
| bang: "derives 4 d ks t \<Longrightarrow> derives 4 (Suc d) (TkBang # ks) (TNot t)"
| parens: "derives 0 d ks t \<Longrightarrow> derives 4 (Suc d) (TkLeftParenthesis # ks @ [TkRightParenthesis]) t"
| literal: "literal_kind k = Some v \<Longrightarrow> derives 4 0 [k] (TLit v)"
| lookup: "list_all2 (\<lambda>k name. segment_name k = Some name) ks names \<Longrightarrow>
    derives 4 0 (TkIdentifier first # dotted ks) (TLookup (first # names))"

lemma derives_nonempty: "derives l d ks t \<Longrightarrow> ks \<noteq> []"
  by (induction rule: derives.induct) simp_all

lemma tree_of_with_span [simp]: "tree_of (with_span node s) = tree_of node"
  by (cases node) simp_all

lemma literals_plain_with_span [simp]: "literals_plain (with_span node s) = literals_plain node"
  by (cases node) simp_all

lemma node_span_with_span [simp]: "node_span (with_span node s) = s"
  by (cases node) simp_all

subsection \<open>Parser states and outcomes\<close>

fun spans_ok :: "nat \<Rightarrow> SyntaxNode \<Rightarrow> bool" where
  "spans_ok n (Literal _ s) = inside n s"
| "spans_ok n (Lookup _ s) = inside n s"
| "spans_ok n (Unary _ operator_span operand s) = (inside n operator_span \<and> spans_ok n operand \<and> inside n s)"
| "spans_ok n (Binary _ operator_span left right s) =
     (inside n operator_span \<and> spans_ok n left \<and> spans_ok n right \<and> inside n s)"

lemma spans_ok_span: "spans_ok n node \<Longrightarrow> inside n (node_span node)"
  by (cases node) simp_all

lemma spans_ok_with_span: "spans_ok n node \<Longrightarrow> inside n s \<Longrightarrow> spans_ok n (with_span node s)"
  by (cases node) simp_all

definition good_tokens :: "nat \<Rightarrow> Token list \<Rightarrow> bool" where
  "good_tokens n ts \<longleftrightarrow>
     ts \<noteq> [] \<and> tk_kind (last ts) = TkEnd \<and>
     (\<forall>t\<in>set ts. inside n (tk_span t) \<and> kind_ok (tk_kind t)) \<and>
     sorted_wrt (\<lambda>a b. sp_end (tk_span a) \<le> sp_start (tk_span b)) ts"

definition good :: "nat \<Rightarrow> Parser \<Rightarrow> bool" where
  "good n P \<longleftrightarrow> good_tokens n (ps_tokens P) \<and> ps_nesting P \<le> MAX_PARSE_DEPTH"

text \<open>
  What a parse of level \<open>l\<close> from \<open>P\<close> gives: an error inside the source, or a tree derivable from
  the tokens it took, whose spans lie in the source between the tokens before and after it.
\<close>

definition parsed_node :: "nat \<Rightarrow> nat \<Rightarrow> Parser \<Rightarrow> SyntaxNode \<Rightarrow> Parser \<Rightarrow> bool" where
  "parsed_node n l P node P' \<longleftrightarrow>
     good n P' \<and> ps_nesting P' = ps_nesting P \<and> spans_ok n node \<and> literals_plain node \<and>
     sp_start (tk_span (hd (ps_tokens P))) \<le> sp_start (node_span node) \<and>
     sp_end (node_span node) \<le> sp_start (tk_span (hd (ps_tokens P'))) \<and>
     (\<exists>us d. ps_tokens P = us @ ps_tokens P' \<and> derives l d (map tk_kind us) (tree_of node) \<and>
        ps_nesting P + d \<le> MAX_PARSE_DEPTH)"

definition failed_well :: "nat \<Rightarrow> ParseFailure \<Rightarrow> bool" where
  "failed_well n failure \<longleftrightarrow>
     (case failure of SyntaxError e \<Rightarrow> inside n (pe_span e) | _ \<Rightarrow> False)"

definition parsed_ok :: "nat \<Rightarrow> nat \<Rightarrow> Parser \<Rightarrow> SyntaxNode parsed \<Rightarrow> bool" where
  "parsed_ok n l P r \<longleftrightarrow>
     (case r of Inl failure \<Rightarrow> failed_well n failure | Inr (node, P') \<Rightarrow> parsed_node n l P node P')"

definition parses :: "nat \<Rightarrow> nat \<Rightarrow> nat \<Rightarrow> (Parser \<Rightarrow> SyntaxNode parsed) \<Rightarrow> bool" where
  "parses n m l f \<longleftrightarrow> (\<forall>P. good n P \<longrightarrow> m \<le> ps_nesting P \<longrightarrow> parsed_ok n l P (f P))"

lemma failed_well_syntax [simp]: "failed_well n (syntax_error message s) \<longleftrightarrow> inside n s"
  by (simp add: failed_well_def syntax_error_def)

lemma parsed_ok_simps [simp]:
  "parsed_ok n l P (Inl failure) \<longleftrightarrow> failed_well n failure"
  "parsed_ok n l P (Inr (node, P')) \<longleftrightarrow> parsed_node n l P node P'"
  by (simp_all add: parsed_ok_def)

lemma good_tokens_Cons:
  "good_tokens n (t # ts) \<longleftrightarrow>
     inside n (tk_span t) \<and> kind_ok (tk_kind t) \<and>
     (if ts = [] then tk_kind t = TkEnd
      else good_tokens n ts \<and> (\<forall>u\<in>set ts. sp_end (tk_span t) \<le> sp_start (tk_span u)))"
  by (auto simp: good_tokens_def)

lemma good_current:
  assumes "good n P"
  obtains t ts where "ps_tokens P = t # ts" "current P = Inr t" "inside n (tk_span t)" "kind_ok (tk_kind t)"
  using assms by (cases "ps_tokens P") (auto simp: good_def good_tokens_def current_def)

text \<open>Taking a token that is not the last leaves a good state whose head comes after it.\<close>

lemma good_take:
  assumes "good n P" "current P = Inr t" "tk_kind t \<noteq> TkEnd"
  obtains P' where "take_token P = Inr (t, P')" "good n P'" "ps_nesting P' = ps_nesting P"
    "ps_tokens P = t # ps_tokens P'" "sp_end (tk_span t) \<le> sp_start (tk_span (hd (ps_tokens P')))"
proof -
  obtain ts where ts: "ps_tokens P = t # ts"
    using assms(2) by (auto simp: current_def split: list.splits)
  then have "good_tokens n (t # ts)"
    using assms(1) by (simp add: good_def)
  then have "good_tokens n ts" "ts \<noteq> []" "sp_end (tk_span t) \<le> sp_start (tk_span (hd ts))"
    using assms(3) by (auto simp: good_tokens_Cons split: if_splits)
  then show thesis
    using assms(1) that [of "P\<lparr>ps_tokens := ts\<rparr>"] by (simp add: take_token_def ts assms(3) good_def)
qed

lemma take_end: "current P = Inr t \<Longrightarrow> tk_kind t = TkEnd \<Longrightarrow> take_token P = Inr (t, P)"
  by (auto simp: current_def take_token_def split: list.splits)

lemma good_take_any:
  assumes "good n P"
  obtains t P' where "take_token P = Inr (t, P')" "current P = Inr t" "good n P'"
    "ps_nesting P' = ps_nesting P" "inside n (tk_span t)" "kind_ok (tk_kind t)"
    "tk_kind t \<noteq> TkEnd \<longrightarrow> ps_tokens P = t # ps_tokens P' \<and>
       sp_end (tk_span t) \<le> sp_start (tk_span (hd (ps_tokens P')))"
proof -
  obtain t ts where t: "ps_tokens P = t # ts" "current P = Inr t" "inside n (tk_span t)" "kind_ok (tk_kind t)"
    using good_current [OF assms] .
  show thesis
  proof (cases "tk_kind t = TkEnd")
    case True
    then show thesis
      using take_end [OF t(2)] t assms that by blast
  next
    case False
    then show thesis
      using good_take [OF assms t(2)] t that by metis
  qed
qed

subsection \<open>The parser takes derivable trees\<close>

definition segments_ok :: "nat \<Rightarrow> str list \<Rightarrow> nat \<Rightarrow> Parser \<Rightarrow> (str list \<times> nat) parsed \<Rightarrow> bool" where
  "segments_ok n path e P r \<longleftrightarrow>
     (case r of
        Inl failure \<Rightarrow> failed_well n failure
      | Inr ((path', e'), P') \<Rightarrow>
          good n P' \<and> ps_nesting P' = ps_nesting P \<and> e \<le> e' \<and> e' \<le> n \<and>
          e' \<le> sp_start (tk_span (hd (ps_tokens P'))) \<and>
          (\<exists>us ks names. ps_tokens P = us @ ps_tokens P' \<and> map tk_kind us = dotted ks \<and>
             list_all2 (\<lambda>k name. segment_name k = Some name) ks names \<and> path' = path @ names))"

lemma segment_not_end: "segment_name k = Some name \<Longrightarrow> k \<noteq> TkEnd"
  by auto

lemma dotted_Cons: "dotted (k # ks) = TkDot # k # dotted ks"
  by (simp add: dotted_def)

lemma segments_ok_step:
  assumes "segments_ok n (path @ [name]) e' P2 r" "ps_tokens P = t # s # ps_tokens P2"
    "tk_kind t = TkDot" "segment_name (tk_kind s) = Some name" "ps_nesting P2 = ps_nesting P" "e \<le> e'"
  shows "segments_ok n path e P r"
proof (cases r)
  case (Inl failure)
  then show ?thesis
    using assms(1) by (simp add: segments_ok_def)
next
  case (Inr x)
  obtain path' e'' P' where x: "x = ((path', e''), P')"
    by (cases x) auto
  from assms(1) obtain us ks names where us: "ps_tokens P2 = us @ ps_tokens P'" "map tk_kind us = dotted ks"
    "list_all2 (\<lambda>k name. segment_name k = Some name) ks names" "path' = path @ name # names"
    by (auto simp: segments_ok_def Inr x)
  have "ps_tokens P = (t # s # us) @ ps_tokens P'" "map tk_kind (t # s # us) = dotted (tk_kind s # ks)"
    "list_all2 (\<lambda>k name. segment_name k = Some name) (tk_kind s # ks) (name # names)"
    using us assms by (simp_all add: dotted_Cons)
  then have "\<exists>us ks names. ps_tokens P = us @ ps_tokens P' \<and> map tk_kind us = dotted ks \<and>
      list_all2 (\<lambda>k name. segment_name k = Some name) ks names \<and> path' = path @ names"
    using us(4) by blast
  then show ?thesis
    using assms by (simp add: segments_ok_def Inr x)
qed

lemma lookup_segments_ok:
  assumes "good n P" "e \<le> n" "e \<le> sp_start (tk_span (hd (ps_tokens P)))"
  shows "segments_ok n path e P (lookup_segments path e P)"
  using assms
proof (induction "length (ps_tokens P)" arbitrary: path e P rule: less_induct)
  case less
  obtain t ts where t: "ps_tokens P = t # ts" "current P = Inr t" "inside n (tk_span t)"
    using good_current [OF less.prems(1)] by metis
  show ?case
  proof (cases "tk_kind t = TkDot")
    case False
    then show ?thesis
      using less.prems by (auto simp: lookup_segments.simps [of path e P] t segments_ok_def dotted_def)
  next
    case True
    then obtain P1 where P1: "take_token P = Inr (t, P1)" "good n P1" "ps_nesting P1 = ps_nesting P"
      "ps_tokens P = t # ps_tokens P1" "sp_end (tk_span t) \<le> sp_start (tk_span (hd (ps_tokens P1)))"
      using good_take [OF less.prems(1) t(2)] by auto
    obtain s P2 where s: "take_token P1 = Inr (s, P2)" "good n P2" "ps_nesting P2 = ps_nesting P1"
      "inside n (tk_span s)" "current P1 = Inr s"
      and later: "tk_kind s \<noteq> TkEnd \<longrightarrow> ps_tokens P1 = s # ps_tokens P2 \<and>
        sp_end (tk_span s) \<le> sp_start (tk_span (hd (ps_tokens P2)))"
      using good_take_any [OF P1(2)] by metis
    show ?thesis
    proof (cases "segment_name (tk_kind s)")
      case None
      then show ?thesis
        using s(4) by (simp add: lookup_segments.simps [of path e P] t True P1 s segments_ok_def)
    next
      case (Some name)
      note next_head = later [THEN mp, OF segment_not_end [OF Some]]
      have step: "lookup_segments path e P = lookup_segments (path @ [name]) (sp_end (tk_span s)) P2"
        by (simp add: lookup_segments.simps [of path e P] t True P1 s Some)
      have bound: "sp_end (tk_span s) \<le> n" "e \<le> sp_end (tk_span s)"
        using s(4, 5) less.prems P1(4, 5) t(3) next_head by (auto simp: inside_def)
      have "segments_ok n (path @ [name]) (sp_end (tk_span s)) P2
          (lookup_segments (path @ [name]) (sp_end (tk_span s)) P2)"
        using P1(4) next_head bound by (intro less.hyps s) simp_all
      then have "segments_ok n path e P (lookup_segments (path @ [name]) (sp_end (tk_span s)) P2)"
        by (rule segments_ok_step) (use bound next_head P1(3, 4) s(3) True Some in simp_all)
      then show ?thesis
        unfolding step .
    qed
  qed
qed

lemma parse_lookup_ok:
  assumes "good n P" "inside n s" "sp_end s \<le> sp_start (tk_span (hd (ps_tokens P)))"
  shows "case parse_lookup first s P of
      Inl failure \<Rightarrow> failed_well n failure
    | Inr (node, P') \<Rightarrow>
        good n P' \<and> ps_nesting P' = ps_nesting P \<and> spans_ok n node \<and> literals_plain node \<and>
        sp_start (node_span node) = sp_start s \<and>
        sp_end (node_span node) \<le> sp_start (tk_span (hd (ps_tokens P'))) \<and>
        (\<exists>us. ps_tokens P = us @ ps_tokens P' \<and>
           derives 4 0 (TkIdentifier first # map tk_kind us) (tree_of node))"
proof (cases "lookup_segments [first] (sp_end s) P")
  case (Inl failure)
  then show ?thesis
    using lookup_segments_ok [OF assms(1) _ assms(3), of "[first]"] assms(2)
    by (simp add: parse_lookup_def segments_ok_def inside_def)
next
  case (Inr r)
  obtain path e P' where r: "r = ((path, e), P')"
    by (cases r) auto
  have "sp_end s \<le> n"
    using assms(2) by (simp add: inside_def)
  then have "segments_ok n [first] (sp_end s) P (Inr ((path, e), P'))"
    using lookup_segments_ok [OF assms(1) _ assms(3), of "[first]"] Inr r by simp
  then have g: "good n P'" "ps_nesting P' = ps_nesting P" "sp_end s \<le> e" "e \<le> n"
    "e \<le> sp_start (tk_span (hd (ps_tokens P')))"
    and us: "\<exists>us. ps_tokens P = us @ ps_tokens P' \<and>
      derives 4 0 (TkIdentifier first # map tk_kind us) (TLookup path)"
    by (auto simp: segments_ok_def intro: derives.lookup)
  obtain t where t: "current P' = Inr t" "inside n (tk_span t)"
    using good_current [OF g(1)] by metis
  show ?thesis
    using g us t assms(2) by (simp add: parse_lookup_def Inr r) (simp add: inside_def span_new_def)
qed

lemma value_number_exact:
  assumes "exact_number x"
  shows "value_number x = Inr \<lparr>v_kind = NumberKind x, v_provenance = provenance_default\<rparr>"
  using assms by (auto simp: exact_number_def value_number_def from_kind_def not_less)

lemma parsed_literal:
  assumes "good n P1" "ps_nesting P1 = ps_nesting P" "ps_tokens P = t # ps_tokens P1"
    "sp_end (tk_span t) \<le> sp_start (tk_span (hd (ps_tokens P1)))" "inside n (tk_span t)"
    "literal_kind (tk_kind t) = Some (v_kind v)" "v_provenance v = provenance_default"
  shows "parsed_node n 4 P (Literal v (tk_span t)) P1"
proof -
  have "ps_tokens P = [t] @ ps_tokens P1" "derives 4 0 (map tk_kind [t]) (TLit (v_kind v))"
    using assms by (auto intro: derives.literal)
  moreover have "ps_nesting P + 0 \<le> MAX_PARSE_DEPTH"
    using assms(1, 2) by (simp add: good_def)
  ultimately show ?thesis
    using assms unfolding parsed_node_def by (auto simp: inside_def)
qed

lemma good_enter:
  assumes "good n P"
  shows "enter_nesting s P = Inl (syntax_error (lit ''expression nesting exceeds 128-level limit'') s) \<or>
    (\<exists>P'. enter_nesting s P = Inr P' \<and> good n P' \<and> ps_tokens P' = ps_tokens P \<and>
       ps_nesting P' = Suc (ps_nesting P))"
  using assms by (auto simp: enter_nesting_def good_def)

lemma leave_nesting_sel [simp]:
  "ps_tokens (leave_nesting P) = ps_tokens P"
  "ps_nesting (leave_nesting P) = ps_nesting P - 1"
  by (simp_all add: leave_nesting_def)

lemma good_leave: "good n P \<Longrightarrow> good n (leave_nesting P)"
  by (auto simp: good_def)

lemma parse_parentheses_ok:
  assumes nested: "parses n (Suc m) 0 nested_or"
    and P: "good n P" "m \<le> ps_nesting P" and t: "take_token P = Inr (t, P1)" "tk_kind t = TkLeftParenthesis"
    "good n P1" "ps_nesting P1 = ps_nesting P" "inside n (tk_span t)" "ps_tokens P = t # ps_tokens P1"
  shows "parsed_ok n 4 P (parse_primary nested_or P)"
  using good_enter [OF t(3), of "tk_span t"]
proof (elim disjE exE conjE)
  assume "enter_nesting (tk_span t) P1 =
    Inl (syntax_error (lit ''expression nesting exceeds 128-level limit'') (tk_span t))"
  then show ?thesis
    using t by (simp add: parse_primary_def)
next
  fix P2
  assume P2: "enter_nesting (tk_span t) P1 = Inr P2" "good n P2" "ps_tokens P2 = ps_tokens P1"
    "ps_nesting P2 = Suc (ps_nesting P1)"
  have ok: "parsed_ok n 0 P2 (nested_or P2)"
    using nested P P2 t(4) by (simp add: parses_def)
  show ?thesis
  proof (cases "nested_or P2")
    case (Inl failure)
    then show ?thesis
      using ok t P2 by (simp add: parse_primary_def)
  next
    case (Inr r)
    obtain node P3 where r: "r = (node, P3)"
      by (cases r)
    have node: "parsed_node n 0 P2 node P3"
      using ok Inr r by simp
    then obtain us d where us: "ps_tokens P2 = us @ ps_tokens P3" "derives 0 d (map tk_kind us) (tree_of node)"
      "ps_nesting P2 + d \<le> MAX_PARSE_DEPTH"
      unfolding parsed_node_def by blast
    have P4: "good n (leave_nesting P3)"
      using node by (simp add: parsed_node_def good_leave)
    obtain c ts where c: "current (leave_nesting P3) = Inr c" "inside n (tk_span c)" "ps_tokens P3 = c # ts"
      using good_current [OF P4] by (metis leave_nesting_sel(1))
    show ?thesis
    proof (cases "tk_kind c = TkRightParenthesis")
      case False
      then show ?thesis
        using t P2 c Inr r by (simp add: parse_primary_def)
    next
      case True
      then obtain P5 where P5: "take_token (leave_nesting P3) = Inr (c, P5)" "good n P5"
        "ps_nesting P5 = ps_nesting (leave_nesting P3)" "ps_tokens (leave_nesting P3) = c # ps_tokens P5"
        "sp_end (tk_span c) \<le> sp_start (tk_span (hd (ps_tokens P5)))"
        using good_take [OF P4 c(1)] by auto
      have "ps_tokens P = (t # us @ [c]) @ ps_tokens P5"
        using t(6) P2(3) us(1) P5(4) by simp
      moreover have "derives 4 (Suc d) (map tk_kind (t # us @ [c])) (tree_of node)"
        using derives.parens [OF us(2)] t(2) True by simp
      moreover have "ps_nesting P + Suc d \<le> MAX_PARSE_DEPTH"
        using us(3) P2(4) t(4) by simp
      moreover have "ps_tokens P1 = us @ c # ts"
        using c(3) P2(3) us(1) by simp
      then have "c \<in> set (ps_tokens P1)"
        by simp
      then have "sp_end (tk_span t) \<le> sp_start (tk_span c)"
        using P(1) t(6) by (auto simp: good_def good_tokens_Cons split: if_splits)
      then have "sp_start (tk_span t) \<le> sp_end (tk_span c)"
        using c(2) t(5) by (simp add: inside_def)
      ultimately have "parsed_node n 4 P (with_span node (through (tk_span t) (tk_span c))) P5"
        using node P2(4) t(4, 6) P5 c(2) unfolding parsed_node_def
        by (auto simp: spans_ok_with_span through_def inside_def span_new_def)
      then show ?thesis
        using t P2 c Inr r True P5(1) by (simp add: parse_primary_def Let_def)
    qed
  qed
qed

lemma parse_primary_ok:
  assumes nested: "parses n (Suc m) 0 nested_or"
  shows "parses n m 4 (parse_primary nested_or)"
  unfolding parses_def
proof (intro allI impI)
  fix P
  assume P: "good n P" "m \<le> ps_nesting P"
  obtain t P1 where t: "take_token P = Inr (t, P1)" "good n P1" "ps_nesting P1 = ps_nesting P"
    "inside n (tk_span t)" "kind_ok (tk_kind t)"
    and later: "tk_kind t \<noteq> TkEnd \<longrightarrow> ps_tokens P = t # ps_tokens P1 \<and>
      sp_end (tk_span t) \<le> sp_start (tk_span (hd (ps_tokens P1)))"
    using good_take_any [OF P(1)] by metis
  show "parsed_ok n 4 P (parse_primary nested_or P)"
  proof (cases "tk_kind t")
    case TkNull
    then show ?thesis
      using t later by (simp add: parse_primary_def parsed_literal value_null_def)
  next
    case (TkBoolean b)
    then show ?thesis
      using t later by (simp add: parse_primary_def parsed_literal value_boolean_def)
  next
    case (TkNumber x)
    then show ?thesis
      using t later by (simp add: parse_primary_def kind_ok_def value_number_exact parsed_literal)
  next
    case (TkString x)
    then show ?thesis
      using t later by (simp add: parse_primary_def parsed_literal value_string_def)
  next
    case (TkIdentifier first)
    then have tokens: "ps_tokens P = t # ps_tokens P1"
      and before: "sp_end (tk_span t) \<le> sp_start (tk_span (hd (ps_tokens P1)))"
      using later by simp_all
    have parse: "parse_primary nested_or P = parse_lookup first (tk_span t) P1"
      using t TkIdentifier by (simp add: parse_primary_def)
    show ?thesis
    proof (cases "parse_lookup first (tk_span t) P1")
      case (Inl failure)
      then show ?thesis
        using parse_lookup_ok [OF t(2, 4) before, of first] by (simp add: parse)
    next
      case (Inr r)
      obtain node P' where r: "r = (node, P')"
        by (cases r)
      with parse_lookup_ok [OF t(2, 4) before, of first] Inr obtain us where
        us: "ps_tokens P1 = us @ ps_tokens P'" "derives 4 0 (TkIdentifier first # map tk_kind us) (tree_of node)"
        and node: "good n P'" "ps_nesting P' = ps_nesting P1" "spans_ok n node" "literals_plain node"
        "sp_start (node_span node) = sp_start (tk_span t)"
        "sp_end (node_span node) \<le> sp_start (tk_span (hd (ps_tokens P')))"
        by auto
      have "ps_tokens P = (t # us) @ ps_tokens P'" "derives 4 0 (map tk_kind (t # us)) (tree_of node)"
        using tokens us TkIdentifier by simp_all
      moreover have "ps_nesting P + 0 \<le> MAX_PARSE_DEPTH"
        using P(1) by (simp add: good_def)
      ultimately have "parsed_node n 4 P node P'"
        using node t(3) tokens unfolding parsed_node_def by auto
      then show ?thesis
        by (simp add: parse Inr r)
    qed
  next
    case TkLeftParenthesis
    then show ?thesis
      using parse_parentheses_ok [OF nested P t(1)] t later by simp
  qed (use t later in \<open>simp_all add: parse_primary_def\<close>)
qed

lemma parse_unary_ok:
  assumes nested: "parses n (Suc m) 0 nested_or"
  shows "parses n m 4 (parse_unary nested_or)"
proof -
  have "parsed_ok n 4 P (parse_unary nested_or P)" if "good n P" "m \<le> ps_nesting P" for P
    using that
  proof (induction "length (ps_tokens P)" arbitrary: P rule: less_induct)
    case less
    obtain t ts where t: "ps_tokens P = t # ts" "current P = Inr t" "inside n (tk_span t)"
      using good_current [OF less.prems(1)] by metis
    show ?case
    proof (cases "tk_kind t = TkBang")
      case False
      then show ?thesis
        using parse_primary_ok [OF nested] less.prems
        by (simp add: parse_unary.simps [of nested_or P] t parses_def)
    next
      case True
      then obtain P1 where P1: "take_token P = Inr (t, P1)" "good n P1" "ps_nesting P1 = ps_nesting P"
        "ps_tokens P = t # ps_tokens P1" "sp_end (tk_span t) \<le> sp_start (tk_span (hd (ps_tokens P1)))"
        using good_take [OF less.prems(1) t(2)] by auto
      from good_enter [OF P1(2), of "tk_span t"] show ?thesis
      proof (elim disjE exE conjE)
        assume "enter_nesting (tk_span t) P1 =
          Inl (syntax_error (lit ''expression nesting exceeds 128-level limit'') (tk_span t))"
        then show ?thesis
          using t P1 True by (simp add: parse_unary.simps [of nested_or P])
      next
        fix P2
        assume P2: "enter_nesting (tk_span t) P1 = Inr P2" "good n P2" "ps_tokens P2 = ps_tokens P1"
          "ps_nesting P2 = Suc (ps_nesting P1)"
        have ok: "parsed_ok n 4 P2 (parse_unary nested_or P2)"
          using P2 P1(3, 4) less.prems(2) by (intro less.hyps) simp_all
        show ?thesis
        proof (cases "parse_unary nested_or P2")
          case (Inl failure)
          then show ?thesis
            using ok t True P1 P2 by (simp add: parse_unary.simps [of nested_or P])
        next
          case (Inr r)
          obtain node P3 where r: "r = (node, P3)"
            by (cases r)
          have node: "parsed_node n 4 P2 node P3"
            using ok Inr r by simp
          then obtain us d where us: "ps_tokens P2 = us @ ps_tokens P3"
            "derives 4 d (map tk_kind us) (tree_of node)" "ps_nesting P2 + d \<le> MAX_PARSE_DEPTH"
            unfolding parsed_node_def by blast
          have "ps_tokens P = (t # us) @ ps_tokens P3"
            using P1(4) P2(3) us(1) by simp
          moreover have "derives 4 (Suc d) (map tk_kind (t # us)) (TNot (tree_of node))"
            using derives.bang [OF us(2)] True by simp
          moreover have "ps_nesting P + Suc d \<le> MAX_PARSE_DEPTH"
            using us(3) P2(4) P1(3) by simp
          ultimately have "parsed_node n 4 P
              (Unary NotOp (tk_span t) node (through (tk_span t) (node_span node))) (leave_nesting P3)"
            using node P2(3, 4) P1(3, 4, 5) t(3) spans_ok_span [of n node] good_leave [of n P3]
            unfolding parsed_node_def
            by (auto simp: through_def inside_def span_new_def)
          then show ?thesis
            using t True P1 P2 Inr r by (simp add: parse_unary.simps [of nested_or P])
        qed
      qed
    qed
  qed
  then show ?thesis
    by (simp add: parses_def)
qed

text \<open>One round of an operator loop extends the derivation on the left.\<close>

lemma parsed_binary:
  assumes left: "parsed_node n l P left P1" and l: "l < 4" "level_operator l (tk_kind t) = Some operator"
    and t: "ps_tokens P1 = t # ps_tokens P2" "ps_nesting P2 = ps_nesting P1" "inside n (tk_span t)"
      "sp_end (tk_span t) \<le> sp_start (tk_span (hd (ps_tokens P2)))"
    and right: "parsed_node n (Suc l) P2 right P3"
  shows "parsed_node n l P
    (Binary operator (tk_span t) left right (through (node_span left) (node_span right))) P3"
proof -
  obtain us d where us: "ps_tokens P = us @ ps_tokens P1" "derives l d (map tk_kind us) (tree_of left)"
    "ps_nesting P + d \<le> MAX_PARSE_DEPTH"
    using left unfolding parsed_node_def by blast
  obtain vs d' where vs: "ps_tokens P2 = vs @ ps_tokens P3" "derives (Suc l) d' (map tk_kind vs) (tree_of right)"
    "ps_nesting P2 + d' \<le> MAX_PARSE_DEPTH"
    using right unfolding parsed_node_def by blast
  have nesting: "ps_nesting P1 = ps_nesting P"
    using left by (simp add: parsed_node_def)
  have "ps_tokens P = (us @ t # vs) @ ps_tokens P3"
    using us(1) vs(1) t(1) by simp
  moreover have "derives l (max d d') (map tk_kind (us @ t # vs)) (TBin operator (tree_of left) (tree_of right))"
    using derives.binary [OF us(2) l vs(2)] by simp
  moreover have "ps_nesting P + max d d' \<le> MAX_PARSE_DEPTH"
    using us(3) vs(3) t(2) nesting by simp
  ultimately show ?thesis
    using left right t nesting spans_ok_span [of n left] spans_ok_span [of n right]
    unfolding parsed_node_def by (auto simp: through_def inside_def span_new_def)
qed

lemma operator_not_end: "level_operator l k = Some operator \<Longrightarrow> k \<noteq> TkEnd"
  by (auto simp: level_operator_def split: if_splits)

lemma binary_loop_ok:
  assumes operand: "parses n m (Suc l) operand" and l: "l < 4"
    and P: "parsed_node n l P left P1" "m \<le> ps_nesting P" "length (ps_tokens P1) < rounds"
  shows "parsed_ok n l P (binary_loop (level_operator l) operand rounds left P1)"
  using P(1, 3)
proof (induction rounds arbitrary: left P1)
  case (Suc rounds)
  have g: "good n P1" "ps_nesting P1 = ps_nesting P"
    using Suc.prems(1) by (simp_all add: parsed_node_def)
  obtain t ts where t: "ps_tokens P1 = t # ts" "current P1 = Inr t" "inside n (tk_span t)"
    using good_current [OF g(1)] by metis
  show ?case
  proof (cases "level_operator l (tk_kind t)")
    case None
    then show ?thesis
      using Suc.prems t by simp
  next
    case (Some operator)
    obtain P2 where P2: "take_token P1 = Inr (t, P2)" "good n P2" "ps_nesting P2 = ps_nesting P1"
      "ps_tokens P1 = t # ps_tokens P2" "sp_end (tk_span t) \<le> sp_start (tk_span (hd (ps_tokens P2)))"
      using good_take [OF g(1) t(2) operator_not_end [OF Some]] .
    have ok: "parsed_ok n (Suc l) P2 (operand P2)"
      using operand P2(2, 3) g(2) P(2) by (simp add: parses_def)
    show ?thesis
    proof (cases "operand P2")
      case (Inl failure)
      then show ?thesis
        using ok t P2(1) Some by simp
    next
      case (Inr r)
      obtain right P3 where r: "r = (right, P3)"
        by (cases r)
      have right: "parsed_node n (Suc l) P2 right P3"
        using ok Inr r by simp
      have "length (ps_tokens P3) \<le> length (ps_tokens P2)"
        using right by (auto simp: parsed_node_def)
      then have "length (ps_tokens P3) < rounds"
        using Suc.prems(2) P2(4) by simp
      moreover note parsed_binary [OF Suc.prems(1) l Some P2(4, 3) t(3) P2(5) right]
      ultimately show ?thesis
        using Suc.IH t(2) P2(1) Some Inr r by simp
    qed
  qed
qed simp

lemma climb_node: "parsed_node n (Suc l) P node P' \<Longrightarrow> l < 4 \<Longrightarrow> parsed_node n l P node P'"
  unfolding parsed_node_def using derives.climb by blast

lemma binary_level_ok:
  assumes "parses n m (Suc l) operand" "l < 4"
  shows "parses n m l (binary_level (level_operator l) operand)"
  unfolding parses_def
proof (intro allI impI)
  fix P
  assume P: "good n P" "m \<le> ps_nesting P"
  have ok: "parsed_ok n (Suc l) P (operand P)"
    using assms(1) P by (simp add: parses_def)
  show "parsed_ok n l P (binary_level (level_operator l) operand P)"
  proof (cases "operand P")
    case (Inl failure)
    then show ?thesis
      using ok by (simp add: binary_level_def)
  next
    case (Inr r)
    obtain left P1 where r: "r = (left, P1)"
      by (cases r)
    then have "parsed_node n l P left P1"
      using ok Inr climb_node assms(2) by simp
    then show ?thesis
      using binary_loop_ok [OF assms _ P(2)] by (simp add: binary_level_def Inr r del: binary_loop.simps)
  qed
qed

lemma level_operators:
  "level_operator 0 = or_operator" "level_operator 1 = and_operator"
  "level_operator 2 = equality_operator" "level_operator 3 = comparison_operator"
  by (simp_all add: level_operator_def)

lemma parse_or_ok: "MAX_PARSE_DEPTH < k + m \<Longrightarrow> parses n m 0 (parse_or k)"
proof (induction k arbitrary: m)
  case 0
  then show ?case
    by (auto simp: parses_def good_def)
next
  case (Suc k)
  then have "parses n (Suc m) 0 (parse_or k)"
    by simp
  then have "parses n m 3 (parse_comparison (parse_or k))"
    using binary_level_ok [of n m 3 "parse_unary (parse_or k)"] parse_unary_ok
    by (simp add: parse_comparison_def level_operators)
  then have "parses n m 2 (parse_equality (parse_or k))"
    using binary_level_ok [of n m 2 "parse_comparison (parse_or k)"]
    by (simp add: parse_equality_def level_operators)
  then have "parses n m 1 (parse_and (parse_or k))"
    using binary_level_ok [of n m 1 "parse_equality (parse_or k)"]
    by (simp add: parse_and_def level_operator_def numeral_2_eq_2)
  then have "parses n m 0 (binary_level or_operator (parse_and (parse_or k)))"
    using binary_level_ok [of n m 0 "parse_and (parse_or k)"] by (simp add: level_operators)
  moreover have "parse_or (Suc k) = binary_level or_operator (parse_and (parse_or k))"
    by (simp add: fun_eq_iff)
  ultimately show ?case
    by simp
qed

subsection \<open>The parser finds every derivable tree\<close>

function level_parser :: "(Parser \<Rightarrow> SyntaxNode parsed) \<Rightarrow> nat \<Rightarrow> Parser \<Rightarrow> SyntaxNode parsed" where
  "level_parser nested_or l =
     (if l < 4 then binary_level (level_operator l) (level_parser nested_or (Suc l)) else parse_unary nested_or)"
  by pat_completeness auto
termination
  by (relation "measure (\<lambda>(_, l). 4 - l)") auto

declare level_parser.simps [simp del]

lemma parse_or_level: "parse_or (Suc k) = level_parser (parse_or k) 0"
  by (simp add: fun_eq_iff level_parser.simps level_operators parse_and_def parse_equality_def
      parse_comparison_def numeral_2_eq_2 numeral_3_eq_3) (simp add: level_operator_def)

text \<open>Where a level stands once its first operands are read: in its loop, or done.\<close>

definition resume ::
    "(Parser \<Rightarrow> SyntaxNode parsed) \<Rightarrow> nat \<Rightarrow> nat \<Rightarrow> SyntaxNode \<Rightarrow> Parser \<Rightarrow> SyntaxNode parsed" where
  "resume nested_or l rounds node P =
     (if l < 4 then binary_loop (level_operator l) (level_parser nested_or (Suc l)) rounds node P
      else Inr (node, P))"

definition closes :: "nat \<Rightarrow> TokenKind \<Rightarrow> bool" where
  "closes l k \<longleftrightarrow>
     k \<noteq> TkDot \<and> k \<noteq> TkLeftParenthesis \<and> (\<forall>l'. l < l' \<longrightarrow> l' < 4 \<longrightarrow> level_operator l' k = None)"

lemma level_operator_unique:
  "level_operator l k = Some operator \<Longrightarrow> l < 4 \<Longrightarrow> l' < 4 \<Longrightarrow> l' \<noteq> l \<Longrightarrow> level_operator l' k = None"
  by (cases k) (auto simp: level_operator_def split: if_splits)

lemma operator_closes: "level_operator l k = Some operator \<Longrightarrow> l < 4 \<Longrightarrow> closes l' k \<or> l' < l"
  using level_operator_unique [of l k operator]
  by (cases k) (auto simp: closes_def level_operator_def split: if_splits)

lemma resume_done:
  assumes "current P = Inr t" "l < 4 \<longrightarrow> level_operator l (tk_kind t) = None" "0 < rounds"
  shows "resume nested_or l rounds node P = Inr (node, P)"
  using assms by (cases rounds) (simp_all add: resume_def)

lemma good_suffix:
  assumes "good n P" "ps_tokens P = us @ ps_tokens P'" "ps_tokens P' \<noteq> []" "ps_nesting P' = ps_nesting P"
  shows "good n P'"
  using assms by (auto simp: good_def good_tokens_def sorted_wrt_append)

lemma current_hd: "ps_tokens P \<noteq> [] \<Longrightarrow> current P = Inr (hd (ps_tokens P))"
  by (cases "ps_tokens P") (simp_all add: current_def)

lemma lookup_segments_complete:
  assumes "list_all2 (\<lambda>k name. segment_name k = Some name) ks names"
    "ps_tokens P = us @ rest" "map tk_kind us = dotted ks" "rest \<noteq> []" "tk_kind (hd rest) \<noteq> TkDot"
  shows "\<exists>e' P'. lookup_segments path e P = Inr ((path @ names, e'), P') \<and> ps_tokens P' = rest \<and>
    ps_nesting P' = ps_nesting P"
  using assms
proof (induction ks names arbitrary: path e P us rule: list_all2_induct)
  case Nil
  then show ?case
    by (simp add: dotted_def lookup_segments.simps [of path e P] current_hd)
next
  case (Cons k ks name names)
  then obtain t s vs where us: "us = t # s # vs" "tk_kind t = TkDot" "tk_kind s = k" "map tk_kind vs = dotted ks"
    by (auto simp: dotted_Cons map_eq_Cons_conv)
  let ?P2 = "P\<lparr>ps_tokens := vs @ rest\<rparr>"
  have "tk_kind s \<noteq> TkEnd"
    using segment_not_end Cons.hyps(1) us(3) by blast
  then have "lookup_segments path e P = lookup_segments (path @ [name]) (sp_end (tk_span s)) ?P2"
    using Cons.hyps(1) Cons.prems(1) us
    by (simp add: lookup_segments.simps [of path e P] current_def take_token_def)
  then show ?case
    using Cons.IH [of ?P2 vs "path @ [name]" "sp_end (tk_span s)"] Cons.prems us by simp
qed

lemma parse_primary_literal:
  assumes "good n P" "ps_tokens P = t # rest" "literal_kind (tk_kind t) = Some v" "rest \<noteq> []"
  shows "\<exists>node. parse_primary nested_or P = Inr (node, P\<lparr>ps_tokens := rest\<rparr>) \<and> tree_of node = TLit v"
proof -
  have k: "kind_ok (tk_kind t)"
    using assms(1, 2) by (simp add: good_def good_tokens_def)
  show ?thesis
    using assms k
    by (cases "tk_kind t")
      (auto simp: parse_primary_def take_token_def value_null_def value_boolean_def value_string_def
        kind_ok_def value_number_exact)
qed

lemma parse_primary_lookup:
  assumes "ps_tokens P = t # us @ rest" "tk_kind t = TkIdentifier first" "map tk_kind us = dotted ks"
    "list_all2 (\<lambda>k name. segment_name k = Some name) ks names" "rest \<noteq> []" "closes l (tk_kind (hd rest))"
  shows "\<exists>node P'. parse_primary nested_or P = Inr (node, P') \<and> ps_tokens P' = rest \<and>
    ps_nesting P' = ps_nesting P \<and> tree_of node = TLookup (first # names)"
proof -
  let ?P1 = "P\<lparr>ps_tokens := us @ rest\<rparr>"
  obtain e' P' where P': "lookup_segments [first] (sp_end (tk_span t)) ?P1 = Inr (([first] @ names, e'), P')"
    "ps_tokens P' = rest" "ps_nesting P' = ps_nesting ?P1"
    using lookup_segments_complete [OF assms(4), of ?P1 us rest "[first]"] assms(3, 5, 6)
    by (force simp: closes_def)
  then show ?thesis
    using assms by (simp add: parse_primary_def take_token_def parse_lookup_def current_hd closes_def)
qed

lemma parse_primary_parens:
  assumes "ps_tokens P = t # ts" "tk_kind t = TkLeftParenthesis" "ps_nesting P < MAX_PARSE_DEPTH"
    and "nested_or (P\<lparr>ps_tokens := ts, ps_nesting := Suc (ps_nesting P)\<rparr>) = Inr (node, P3)"
    "ps_tokens P3 = c # rest" "tk_kind c = TkRightParenthesis" "ps_nesting P3 = Suc (ps_nesting P)"
  shows "\<exists>node' P'. parse_primary nested_or P = Inr (node', P') \<and> ps_tokens P' = rest \<and>
    ps_nesting P' = ps_nesting P \<and> tree_of node' = tree_of node"
  using assms
  by (simp add: parse_primary_def take_token_def enter_nesting_def Let_def current_def leave_nesting_def)

definition reaches :: "nat \<Rightarrow> nat \<Rightarrow> nat \<Rightarrow> Parser \<Rightarrow> Token list \<Rightarrow> Tree \<Rightarrow> bool" where
  "reaches n k l P rest t \<longleftrightarrow>
     (\<exists>node P' rounds. level_parser (parse_or k) l P = resume (parse_or k) l rounds node P' \<and>
        ps_tokens P' = rest \<and> ps_nesting P' = ps_nesting P \<and> tree_of node = t \<and> length rest < rounds)"

lemma reaches_unary:
  assumes "parse_unary (parse_or k) P = Inr (node, P')" "ps_tokens P' = rest" "ps_nesting P' = ps_nesting P"
    "tree_of node = t"
  shows "reaches n k 4 P rest t"
  unfolding reaches_def
proof (intro exI conjI)
  show "level_parser (parse_or k) 4 P = resume (parse_or k) 4 (Suc (length rest)) node P'"
    using assms by (simp add: level_parser.simps resume_def)
qed (use assms in simp_all)

lemma reaches_unaryD:
  assumes "reaches n k 4 P rest t"
  obtains node P' where "parse_unary (parse_or k) P = Inr (node, P')" "ps_tokens P' = rest"
    "ps_nesting P' = ps_nesting P" "tree_of node = t"
  using assms by (auto simp: reaches_def level_parser.simps resume_def)

lemma reaches_done:
  assumes "reaches n k l P rest t" "rest \<noteq> []" "l < 4 \<longrightarrow> level_operator l (tk_kind (hd rest)) = None"
  obtains node P' where "level_parser (parse_or k) l P = Inr (node, P')" "ps_tokens P' = rest"
    "ps_nesting P' = ps_nesting P" "tree_of node = t"
proof -
  obtain node P' rounds where r: "level_parser (parse_or k) l P = resume (parse_or k) l rounds node P'"
    "ps_tokens P' = rest" "ps_nesting P' = ps_nesting P" "tree_of node = t" "length rest < rounds"
    using assms(1) unfolding reaches_def by blast
  moreover have "resume (parse_or k) l rounds node P' = Inr (node, P')"
    using assms(2, 3) r(2, 5) by (intro resume_done [of P' "hd rest"]) (auto simp: current_hd)
  ultimately show thesis
    using that by simp
qed

lemma reaches_climb:
  assumes "reaches n k (Suc l) P rest t" "l < 4" "rest \<noteq> []" "closes l (tk_kind (hd rest))"
  shows "reaches n k l P rest t"
proof -
  obtain node P' where r: "level_parser (parse_or k) (Suc l) P = Inr (node, P')" "ps_tokens P' = rest"
    "ps_nesting P' = ps_nesting P" "tree_of node = t"
    using reaches_done [OF assms(1, 3)] assms(4) by (auto simp: closes_def)
  have "level_parser (parse_or k) l P = resume (parse_or k) l (Suc (length rest)) node P'"
    using r assms(2) by (simp add: level_parser.simps [of _ l] binary_level_def resume_def del: binary_loop.simps)
  then show ?thesis
    using r unfolding reaches_def by (metis lessI)
qed

lemma reaches_binary:
  assumes left: "reaches n k l P (o' # vs @ rest) t" and l: "l < 4" "level_operator l (tk_kind o') = Some operator"
    and right: "reaches n k (Suc l) (P\<lparr>ps_tokens := vs @ rest\<rparr>) rest t'"
    and rest: "rest \<noteq> []" "closes l (tk_kind (hd rest))"
  shows "reaches n k l P rest (TBin operator t t')"
proof -
  obtain node P1 rounds where r: "level_parser (parse_or k) l P = resume (parse_or k) l rounds node P1"
    "ps_tokens P1 = o' # vs @ rest" "ps_nesting P1 = ps_nesting P" "tree_of node = t"
    "length (o' # vs @ rest) < rounds"
    using left unfolding reaches_def by blast
  have P2: "P1\<lparr>ps_tokens := vs @ rest\<rparr> = P\<lparr>ps_tokens := vs @ rest\<rparr>"
    using r(3) by simp
  obtain node' P3 where r': "level_parser (parse_or k) (Suc l) (P\<lparr>ps_tokens := vs @ rest\<rparr>) = Inr (node', P3)"
    "ps_tokens P3 = rest" "ps_nesting P3 = ps_nesting P" "tree_of node' = t'"
    using reaches_done [OF right rest(1)] rest(2) by (auto simp: closes_def)
  obtain rounds' where rounds: "rounds = Suc rounds'" "length rest < rounds'"
    using r(5) by (cases rounds) auto
  have "tk_kind o' \<noteq> TkEnd"
    using operator_not_end [OF l(2)] .
  then have "resume (parse_or k) l rounds node P1 = resume (parse_or k) l rounds'
      (Binary operator (tk_span o') node node' (through (node_span node) (node_span node'))) P3"
    using l r(2) r'(1) P2 by (simp add: resume_def rounds current_def take_token_def)
  then show ?thesis
    using r r' rounds(2) unfolding reaches_def by (metis tree_of.simps(4))
qed

lemma derives_complete:
  assumes "derives l d ks t" "good n P" "ps_tokens P = us @ rest" "map tk_kind us = ks" "rest \<noteq> []"
    "closes l (tk_kind (hd rest))" "ps_nesting P + d \<le> MAX_PARSE_DEPTH" "MAX_PARSE_DEPTH \<le> k + ps_nesting P"
  shows "reaches n k l P rest t"
  using assms
proof (induction arbitrary: k P us rest rule: derives.induct)
  case (climb l d ks t)
  from climb.prems(5) have "closes (Suc l) (tk_kind (hd rest))"
    by (simp add: closes_def)
  from reaches_climb [OF climb.IH [OF climb.prems(1-4) this climb.prems(6, 7)] climb.hyps(2) climb.prems(4, 5)]
  show ?case .
next
  case (binary l d ks t kind operator d' ks' t')
  obtain vs o' ws where us: "us = vs @ o' # ws" "map tk_kind vs = ks" "tk_kind o' = kind" "map tk_kind ws = ks'"
    using binary.prems(3) by (auto simp: map_eq_append_conv map_eq_Cons_conv)
  have "closes l kind"
    using operator_closes [OF binary.hyps(3, 2)] by blast
  then have left: "reaches n k l P (o' # ws @ rest) t"
    using binary.prems(2, 6, 7) us by (intro binary.IH(1) [OF binary.prems(1), of vs]) simp_all
  have "good n (P\<lparr>ps_tokens := ws @ rest\<rparr>)"
    using binary.prems(2, 4) us by (intro good_suffix [OF binary.prems(1), of "vs @ [o']"]) simp_all
  moreover have "closes (Suc l) (tk_kind (hd rest))"
    using binary.prems(5) by (simp add: closes_def)
  ultimately have right: "reaches n k (Suc l) (P\<lparr>ps_tokens := ws @ rest\<rparr>) rest t'"
    using binary.prems(4, 6, 7) us by (intro binary.IH(2) [of _ ws]) simp_all
  show ?case
    using reaches_binary [OF left _ _ right] binary.hyps(2, 3) binary.prems(4, 5) us(3) by simp
next
  case (bang d ks t)
  obtain b vs where us: "us = b # vs" "tk_kind b = TkBang" "map tk_kind vs = ks"
    using bang.prems(3) by (auto simp: map_eq_Cons_conv)
  let ?P2 = "P\<lparr>ps_tokens := vs @ rest, ps_nesting := Suc (ps_nesting P)\<rparr>"
  have "good n (P\<lparr>ps_tokens := vs @ rest\<rparr>)"
    using bang.prems(2, 4) us by (intro good_suffix [OF bang.prems(1), of "[b]"]) simp_all
  then have "good n ?P2"
    using bang.prems(6) by (simp add: good_def)
  then have "reaches n k 4 ?P2 rest t"
    using bang.prems(4-7) us by (intro bang.IH [of _ vs]) simp_all
  then obtain node P' where r: "parse_unary (parse_or k) ?P2 = Inr (node, P')" "ps_tokens P' = rest"
    "ps_nesting P' = ps_nesting ?P2" "tree_of node = t"
    by (rule reaches_unaryD)
  show ?case
  proof (rule reaches_unary)
    show "parse_unary (parse_or k) P =
        Inr (Unary NotOp (tk_span b) node (through (tk_span b) (node_span node)), leave_nesting P')"
      using bang.prems us r(1)
      by (simp add: parse_unary.simps [of _ P] current_def take_token_def enter_nesting_def)
  qed (use r in simp_all)
next
  case (parens d ks t)
  obtain b vs c where us: "us = b # vs @ [c]" "tk_kind b = TkLeftParenthesis" "map tk_kind vs = ks"
    "tk_kind c = TkRightParenthesis"
    using parens.prems(3) by (auto simp: map_eq_Cons_conv map_eq_append_conv)
  let ?P2 = "P\<lparr>ps_tokens := vs @ c # rest, ps_nesting := Suc (ps_nesting P)\<rparr>"
  obtain k' where k: "k = Suc k'"
    using parens.prems(6, 7) by (cases k) auto
  have "good n (P\<lparr>ps_tokens := vs @ c # rest\<rparr>)"
    using parens.prems(2, 4) us by (intro good_suffix [OF parens.prems(1), of "[b]"]) simp_all
  then have "good n ?P2"
    using parens.prems(6) by (simp add: good_def)
  moreover have "closes 0 (tk_kind c)"
    by (simp add: closes_def us(4) level_operator_def)
  ultimately have "reaches n k' 0 ?P2 (c # rest) t"
    using parens.prems(6, 7) us k by (intro parens.IH [of _ vs]) simp_all
  then obtain node P3 where r: "level_parser (parse_or k') 0 ?P2 = Inr (node, P3)" "ps_tokens P3 = c # rest"
    "ps_nesting P3 = ps_nesting ?P2" "tree_of node = t"
    by (rule reaches_done) (simp_all add: us(4) level_operator_def)
  have "ps_nesting P < MAX_PARSE_DEPTH" "ps_tokens P = b # vs @ c # rest"
    using parens.prems(2, 6) us by simp_all
  then obtain node' P' where r': "parse_primary (parse_or k) P = Inr (node', P')" "ps_tokens P' = rest"
    "ps_nesting P' = ps_nesting P" "tree_of node' = tree_of node"
    using parse_primary_parens [of P b "vs @ c # rest" "parse_or k" node P3 c rest] r us
    by (auto simp: k parse_or_level)
  then show ?case
    using r(4) us \<open>ps_tokens P = b # vs @ c # rest\<close>
    by (intro reaches_unary [of k P node' P']) (simp_all add: parse_unary.simps [of _ P] current_def)
next
  case (literal kind v)
  obtain u where u: "us = [u]" "tk_kind u = kind"
    using literal.prems(3) by (auto simp: map_eq_Cons_conv)
  obtain node where node: "parse_primary (parse_or k) P = Inr (node, P\<lparr>ps_tokens := rest\<rparr>)" "tree_of node = TLit v"
    using parse_primary_literal [of n P u rest v "parse_or k"] literal.hyps literal.prems(1, 2, 4) u by auto
  moreover have "kind \<noteq> TkBang"
    using literal.hyps by auto
  ultimately show ?case
    using literal.prems u
    by (intro reaches_unary [of k P node "P\<lparr>ps_tokens := rest\<rparr>"])
      (simp_all add: parse_unary.simps [of _ P] current_def)
next
  case (lookup ks names first)
  obtain u vs where u: "us = u # vs" "tk_kind u = TkIdentifier first" "map tk_kind vs = dotted ks"
    using lookup.prems(3) by (auto simp: map_eq_Cons_conv)
  then obtain node P' where node: "parse_primary (parse_or k) P = Inr (node, P')" "ps_tokens P' = rest"
    "ps_nesting P' = ps_nesting P" "tree_of node = TLookup (first # names)"
    using parse_primary_lookup [of P u vs rest first ks names 4 "parse_or k"] lookup.hyps lookup.prems(2, 4, 5) by auto
  then show ?case
    using lookup.prems u
    by (intro reaches_unary [of k P node P']) (simp_all add: parse_unary.simps [of _ P] current_def)
qed

subsection \<open>Parsing a source\<close>

lemma stream_good: "stream_ok n ts \<Longrightarrow> good n (parser_new ts)"
  by (auto simp: stream_ok_def tokens_ok_def good_def good_tokens_def parser_new_def sorted_wrt_append
      kind_ok_def span_new_def inside_def)

lemma stream_kinds: "stream_ok n ts \<Longrightarrow> map tk_kind ts = map tk_kind (butlast ts) @ [TkEnd] \<and>
    (\<forall>t\<in>set (butlast ts). tk_kind t \<noteq> TkEnd)"
  by (auto simp: stream_ok_def tokens_ok_def)

text \<open>The result of parsing a token stream, in the terms of a whole source.\<close>

definition root_ok :: "nat \<Rightarrow> Token list \<Rightarrow> SyntaxNode \<Rightarrow> bool" where
  "root_ok n ts node \<longleftrightarrow>
     spans_ok n node \<and> literals_plain node \<and>
     (\<exists>d. derives 0 d (map tk_kind (butlast ts)) (tree_of node) \<and> d \<le> MAX_PARSE_DEPTH)"

lemma suffix_at_end:
  assumes "stream_ok n ts" "ts = us @ vs" "vs \<noteq> []" "tk_kind (hd vs) = TkEnd"
  shows "us = butlast ts"
proof -
  obtain ws where ws: "vs = ws @ [last vs]"
    using assms(3) by (metis append_butlast_last_id)
  then have bl: "butlast ts = us @ ws"
    using assms(2) by (metis append_assoc butlast_snoc)
  show ?thesis
  proof (cases ws)
    case (Cons w ws')
    then have "w \<in> set (butlast ts)" "tk_kind w = TkEnd"
      using bl ws assms(4) by (simp, metis append_Cons list.sel(1))
    then show ?thesis
      using stream_kinds [OF assms(1)] by blast
  qed (use bl in simp)
qed

lemma parse_tokens_ok:
  assumes "stream_ok n ts"
  shows "case parse_tokens ts of Inl failure \<Rightarrow> failed_well n failure | Inr node \<Rightarrow> root_ok n ts node"
proof -
  let ?P = "parser_new ts"
  have g: "good n ?P"
    using assms by (rule stream_good)
  obtain t where t: "current ?P = Inr t" "inside n (tk_span t)"
    using good_current [OF g] by metis
  show ?thesis
  proof (cases "tk_kind t = TkEnd")
    case True
    then show ?thesis
      using t by (simp add: parse_tokens_def Let_def)
  next
    case False
    have ok: "parsed_ok n 0 ?P (parse_or (Suc MAX_PARSE_DEPTH) ?P)"
      using parse_or_ok [of "Suc MAX_PARSE_DEPTH" 0 n] g by (simp add: parses_def del: parse_or.simps)
    show ?thesis
    proof (cases "parse_or (Suc MAX_PARSE_DEPTH) ?P")
      case (Inl failure)
      then show ?thesis
        using ok t False by (simp add: parse_tokens_def Let_def del: parse_or.simps)
    next
      case (Inr r)
      obtain node P1 where r: "r = (node, P1)"
        by (cases r)
      then have node: "parsed_node n 0 ?P node P1"
        using ok Inr by (simp del: parse_or.simps)
      then obtain u us where u: "current P1 = Inr u" "inside n (tk_span u)" "ps_tokens P1 = u # us"
        using good_current unfolding parsed_node_def by metis
      obtain vs d where vs: "ts = vs @ ps_tokens P1" "derives 0 d (map tk_kind vs) (tree_of node)" "d \<le> MAX_PARSE_DEPTH"
        using node by (auto simp: parsed_node_def parser_new_def)
      show ?thesis
      proof (cases "tk_kind u = TkEnd")
        case True
        then have "vs = butlast ts"
          using suffix_at_end [OF assms vs(1)] u(3) by simp
        then show ?thesis
          using vs node t False u True Inr r
          by (auto simp: parse_tokens_def Let_def root_ok_def parsed_node_def simp del: parse_or.simps)
      next
        case not_end: False
        then show ?thesis
          using t False u Inr r by (simp add: parse_tokens_def Let_def del: parse_or.simps)
      qed
    qed
  qed
qed

lemma parse_tokens_complete:
  assumes "stream_ok n ts" "derives 0 d (map tk_kind (butlast ts)) t" "d \<le> MAX_PARSE_DEPTH"
  shows "\<exists>node. parse_tokens ts = Inr node \<and> tree_of node = t"
proof -
  let ?P = "parser_new ts"
  have g: "good n ?P"
    using assms(1) by (rule stream_good)
  obtain us e where ts: "ts = us @ [e]" "tk_kind e = TkEnd"
    using assms(1) by (auto simp: stream_ok_def)
  have "derives 0 d (map tk_kind us) t"
    using assms(2) ts(1) by simp
  then have "reaches n MAX_PARSE_DEPTH 0 ?P [e] t"
    using assms(3) g ts(2)
    by (intro derives_complete [of 0 d "map tk_kind us"])
      (simp_all add: ts(1) parser_new_def closes_def level_operator_def)
  then obtain node P' where r: "level_parser (parse_or MAX_PARSE_DEPTH) 0 ?P = Inr (node, P')"
    "ps_tokens P' = [e]" "tree_of node = t"
    by (rule reaches_done) (simp_all add: ts(2) level_operator_def)
  obtain u vs where us: "us = u # vs"
    using derives_nonempty [OF assms(2)] ts(1) by (cases us) auto
  have "tk_kind u \<noteq> TkEnd"
    using stream_kinds [OF assms(1)] ts(1) us by simp
  then show ?thesis
    using r ts(2) ts(1) us
    by (simp add: parse_tokens_def Let_def parse_or_level current_def parser_new_def del: parse_or.simps)
qed

lemma parse_ok:
  assumes "parse source = Inr e"
  obtains ts where "tokenize source = Inr ts" "stream_ok (str_len source) ts"
    "root_ok (str_len source) ts (ex_root e)" "str_len source \<le> MAX_EXPRESSION_BYTES"
proof -
  obtain ts where ts: "tokenize source = Inr ts" "parse_tokens ts = Inr (ex_root e)"
    "str_len source \<le> MAX_EXPRESSION_BYTES"
    using assms by (auto simp: parse_def res_simps split: if_splits)
  have "stream_ok (str_len source) ts"
    using tokenize_ok [of source] ts(1) by simp
  then show thesis
    using that [of ts] ts parse_tokens_ok by fastforce
qed

lemma parse_failed:
  assumes "parse source = Inl failure"
  shows "failed_well (str_len source) failure"
proof (cases "tokenize source")
  case (Inl e)
  then show ?thesis
    using assms tokenize_ok [of source] by (auto simp: parse_def failed_well_def syntax_error_def split: if_splits)
next
  case (Inr ts)
  then have "stream_ok (str_len source) ts"
    using tokenize_ok [of source] by simp
  then show ?thesis
    using assms Inr parse_tokens_ok [of "str_len source" ts]
    by (auto simp: parse_def split: if_splits sum.splits)
qed

text \<open>The errors of evaluation point into the source as well.\<close>

lemma eval_span_eval_error [simp]: "ee_span (eval_error kind s) = s"
  by (simp add: eval_error_def)

lemma require_boolean_span: "require_boolean v operator s = Inl e \<Longrightarrow> ee_span e = s"
  by (auto simp: require_boolean_def split: ValueKind.splits)

lemma res_bind_err: "res_bind m f = Inl e \<longleftrightarrow> m = Inl e \<or> (\<exists>x. m = Inr x \<and> f x = Inl e)"
  by (cases m) auto

lemma evaluate_binary_span:
  "evaluate_binary operator s left right = Inl e \<Longrightarrow> left = Inl e \<or> right = Inl e \<or> ee_span e = s"
  by (cases operator)
    (auto simp: evaluate_binary_def res_bind_err Let_def ok_or_err split: if_splits dest: require_boolean_span)

lemma evaluate_node_span:
  "evaluate_node r depth node = Inl e \<Longrightarrow> spans_ok n node \<Longrightarrow> inside n (ee_span e)"
proof (induction node arbitrary: depth)
  case (Binary operator operator_span left right s)
  then show ?case
    using evaluate_binary_span by (fastforce split: if_splits)
qed (auto simp: res_bind_err ok_or_err split: if_splits dest: require_boolean_span)

text \<open>
  C14: The parser decides the grammar of conditions. For a source within the size limit that the
  lexer turns into tokens, parsing succeeds with a given tree exactly when the layered,
  left-associative grammar derives that tree from the tokens with at most 128 levels of parentheses
  and negations; so precedence, grouping, the treatment of keywords after a dot and the rejection of
  calls are those of the grammar, and no derivable condition is refused.
\<close>

theorem parser_decides_grammar:
  assumes "tokenize source = Inr ts" "str_len source \<le> MAX_EXPRESSION_BYTES"
  shows "(\<exists>e. parse source = Inr e \<and> tree_of (ex_root e) = t) \<longleftrightarrow>
    (\<exists>d. derives 0 d (map tk_kind (butlast ts)) t \<and> d \<le> MAX_PARSE_DEPTH)"
proof
  assume "\<exists>e. parse source = Inr e \<and> tree_of (ex_root e) = t"
  then obtain e where e: "parse source = Inr e" "tree_of (ex_root e) = t"
    by blast
  from e(1) show "\<exists>d. derives 0 d (map tk_kind (butlast ts)) t \<and> d \<le> MAX_PARSE_DEPTH"
    by (rule parse_ok) (use assms(1) e(2) in \<open>auto simp: root_ok_def\<close>)
next
  assume "\<exists>d. derives 0 d (map tk_kind (butlast ts)) t \<and> d \<le> MAX_PARSE_DEPTH"
  moreover have "stream_ok (str_len source) ts"
    using tokenize_ok [of source] assms(1) by simp
  ultimately obtain node where "parse_tokens ts = Inr node" "tree_of node = t"
    using parse_tokens_complete by blast
  then show "\<exists>e. parse source = Inr e \<and> tree_of (ex_root e) = t"
    using assms by (simp add: parse_def)
qed

text \<open>
  C18: Every source gets an answer, and every complaint points into the source. Parsing never
  indexes past the tokens, never trips over the number it expects to be finite and never exhausts
  its counters: it ends with an expression or with a syntax error. The span of a syntax error is a
  range of the source, and so is the span of every error that evaluating the parsed expression can
  give, in any context.
\<close>

theorem errors_located:
  "case parse source of
     Inl (SyntaxError e) \<Rightarrow> inside (str_len source) (pe_span e)
   | Inl _ \<Rightarrow> False
   | Inr e \<Rightarrow>
       ex_source e = source \<and>
       (\<forall>r. case evaluate e r of Inl err \<Rightarrow> inside (str_len source) (ee_span err) | Inr _ \<Rightarrow> True)"
proof (cases "parse source")
  case (Inl failure)
  then show ?thesis
    using parse_failed [OF Inl] by (cases failure) (simp_all add: failed_well_def)
next
  case (Inr e)
  then have "ex_source e = source"
    by (auto simp: parse_def res_simps split: if_splits)
  moreover have "spans_ok (str_len source) (ex_root e)"
    using Inr by (rule parse_ok) (simp add: root_ok_def)
  ultimately show ?thesis
    using Inr evaluate_node_span by (auto simp: evaluate_def split: sum.split)
qed

end
