(* ===== verification/Expression_Canonical.thy ===== *)
theory Expression_Canonical
  imports Expression_Grammar
begin

text \<open>
  The canonical form of a condition (\<^verbatim>\<open>crates/expression/src/ast.rs\<close>, \<^verbatim>\<open>canonical_source\<close>), which the
  compiler stores and the engine parses again. Printing is followed through the lexer and the
  grammar: within the limits of the parser the canonical form reads back as the same tree.
\<close>

subsection \<open>Printing\<close>

definition hex_char :: "nat \<Rightarrow> scalar" where
  "hex_char d = (if d < 10 then 48 + d else 87 + d)"

text \<open>\<^verbatim>\<open>format!("{:04x}")\<close> of a number below \<open>65536\<close>, which every control character is.\<close>

definition hex_quad :: "nat \<Rightarrow> str" where
  "hex_quad n = map hex_char [n div 4096 mod 16, n div 256 mod 16, n div 16 mod 16, n mod 16]"

definition canonical_char :: "scalar \<Rightarrow> str" where
  "canonical_char c =
     (if c = 34 then [92, 34] else if c = 92 then [92, 92] else if c = 8 then [92, 98]
      else if c = 12 then [92, 102] else if c = 10 then [92, 110] else if c = 13 then [92, 114]
      else if c = 9 then [92, 116]
      else if is_control c then [92, 117] @ hex_quad c
      else [c])"

fun write_canonical_literal :: "ValueKind \<Rightarrow> str" where
  "write_canonical_literal NullKind = lit ''null''"
| "write_canonical_literal (BooleanKind b) = (if b then lit ''true'' else lit ''false'')"
| "write_canonical_literal (NumberKind x) = (if f64_eq x (Finite 0) then [48] else f64_to_string x)"
| "write_canonical_literal (StringKind s) = 34 # concat (map canonical_char s) @ [34]"

fun write_canonical :: "SyntaxNode \<Rightarrow> str" where
  "write_canonical (Literal v _) = write_canonical_literal (v_kind v)"
| "write_canonical (Lookup path _) = join_dots path"
| "write_canonical (Unary NotOp _ operand _) = lit ''(!'' @ write_canonical operand @ [41]"
| "write_canonical (Binary operator _ left right _) =
     [40] @ write_canonical left @ [32] @ operator_text operator @ [32] @ write_canonical right @ [41]"

definition canonical_source :: "Expression \<Rightarrow> str" where
  "canonical_source e = write_canonical (ex_root e)"

text \<open>Printing sees the tree only.\<close>

fun tree_text :: "Tree \<Rightarrow> str" where
  "tree_text (TLit v) = write_canonical_literal v"
| "tree_text (TLookup path) = join_dots path"
| "tree_text (TNot t) = lit ''(!'' @ tree_text t @ [41]"
| "tree_text (TBin operator l r) =
     [40] @ tree_text l @ [32] @ operator_text operator @ [32] @ tree_text r @ [41]"

lemma write_canonical_tree: "write_canonical node = tree_text (tree_of node)"
proof (induction node)
  case (Unary operator operator_span operand s)
  then show ?case
    by (cases operator) simp
qed simp_all

subsection \<open>The tokens of the canonical form\<close>

fun operator_kind :: "BinaryOperator \<Rightarrow> TokenKind" where
  "operator_kind OrOp = TkOr"
| "operator_kind AndOp = TkAnd"
| "operator_kind EqualOp = TkEqual"
| "operator_kind NotEqualOp = TkNotEqual"
| "operator_kind LessOp = TkLess"
| "operator_kind LessEqualOp = TkLessEqual"
| "operator_kind GreaterOp = TkGreater"
| "operator_kind GreaterEqualOp = TkGreaterEqual"

fun operator_level :: "BinaryOperator \<Rightarrow> nat" where
  "operator_level OrOp = 0"
| "operator_level AndOp = 1"
| "operator_level EqualOp = 2"
| "operator_level NotEqualOp = 2"
| "operator_level _ = 3"

definition word_kind :: "str \<Rightarrow> TokenKind" where
  "word_kind w =
     (if w = lit ''null'' then TkNull else if w = lit ''true'' then TkBoolean True
      else if w = lit ''false'' then TkBoolean False else TkIdentifier w)"

fun value_token :: "ValueKind \<Rightarrow> TokenKind" where
  "value_token NullKind = TkNull"
| "value_token (BooleanKind b) = TkBoolean b"
| "value_token (NumberKind x) = TkNumber x"
| "value_token (StringKind s) = TkString s"

fun path_kinds :: "str list \<Rightarrow> TokenKind list" where
  "path_kinds [] = []"
| "path_kinds (first # names) = TkIdentifier first # dotted (map word_kind names)"

fun tree_kinds :: "Tree \<Rightarrow> TokenKind list" where
  "tree_kinds (TLit v) = [value_token v]"
| "tree_kinds (TLookup path) = path_kinds path"
| "tree_kinds (TNot t) = TkLeftParenthesis # TkBang # tree_kinds t @ [TkRightParenthesis]"
| "tree_kinds (TBin operator l r) =
     TkLeftParenthesis # tree_kinds l @ operator_kind operator # tree_kinds r @ [TkRightParenthesis]"

text \<open>The nesting the canonical form needs: two levels for a negation, one for a binary operation.\<close>

fun tree_depth :: "Tree \<Rightarrow> nat" where
  "tree_depth (TLit _) = 0"
| "tree_depth (TLookup _) = 0"
| "tree_depth (TNot t) = tree_depth t + 2"
| "tree_depth (TBin _ l r) = max (tree_depth l) (tree_depth r) + 1"

text \<open>What a tree built from lexed tokens satisfies.\<close>

fun tree_ok :: "Tree \<Rightarrow> bool" where
  "tree_ok (TLit v) = (case v of NumberKind x \<Rightarrow> exact_number x | _ \<Rightarrow> True)"
| "tree_ok (TLookup path) =
     (path \<noteq> [] \<and> list_all is_identifier path \<and> hd path \<notin> set keywords_of_values)"
| "tree_ok (TNot t) = tree_ok t"
| "tree_ok (TBin _ l r) = (tree_ok l \<and> tree_ok r)"

lemma word_kind_segment: "segment_name (word_kind w) = Some w"
  by (simp add: word_kind_def)

lemma keywords_identifiers:
  "is_identifier (lit ''null'')" "is_identifier (lit ''true'')" "is_identifier (lit ''false'')"
  by (simp_all add: is_identifier_def lit_def is_identifier_start_def is_identifier_continue_def
      is_ascii_alphabetic_def)

lemma segment_identifier: "segment_name k = Some name \<Longrightarrow> kind_ok k \<Longrightarrow> is_identifier name"
  by (cases k) (auto simp: kind_ok_def keywords_identifiers split: if_splits)

lemma derives_tree_ok: "derives l d ks t \<Longrightarrow> list_all kind_ok ks \<Longrightarrow> tree_ok t"
proof (induction rule: derives.induct)
  case (literal k v)
  then show ?case
    by (cases k) (auto simp: kind_ok_def)
next
  case (lookup ks names first)
  from lookup.hyps lookup.prems have "list_all is_identifier names"
    by (induction ks names rule: list_all2_induct) (auto simp: dotted_Cons segment_identifier)
  then show ?case
    using lookup.prems by (simp add: kind_ok_def)
qed simp_all

lemma climb_to:
  assumes "l \<le> 4" "derives 4 d ks t"
  shows "derives l d ks t"
  using assms(1)
proof (induction rule: inc_induct)
  case base
  show ?case
    by (rule assms(2))
next
  case (step l)
  show ?case
    by (rule derives.climb [OF step.IH step.hyps(2)])
qed

lemma top_level: "derives l d ks t \<Longrightarrow> l < 4 \<Longrightarrow> derives 0 d ks t"
proof (induction l)
  case (Suc l)
  have "derives l d ks t"
    using Suc.prems by (auto intro: derives.climb [of l])
  then show ?case
    using Suc by simp
qed

lemma level_operator_kind: "level_operator (operator_level operator) (operator_kind operator) = Some operator"
  by (cases operator) (simp_all add: level_operator_def)

lemma operator_level_bound: "operator_level operator < 4"
  by (cases operator) simp_all

lemma canonical_derives: "tree_ok t \<Longrightarrow> derives 4 (tree_depth t) (tree_kinds t) t"
proof (induction t)
  case (TLit v)
  then show ?case
    by (cases v) (auto intro: derives.literal)
next
  case (TLookup path)
  then obtain first names where path: "path = first # names"
    by (cases path) auto
  have "list_all2 (\<lambda>k name. segment_name k = Some name) (map word_kind names) names"
    by (simp add: list_all2_conv_all_nth word_kind_segment)
  then show ?case
    by (simp add: path derives.lookup)
next
  case (TNot t)
  then have "derives 4 (Suc (tree_depth t)) (TkBang # tree_kinds t) (TNot t)"
    by (intro derives.bang) simp
  then have "derives 0 (Suc (tree_depth t)) (TkBang # tree_kinds t) (TNot t)"
    by (rule climb_to [rotated]) simp
  from derives.parens [OF this] show ?case
    by simp
next
  case (TBin operator a b)
  let ?l = "operator_level operator"
  have "derives ?l (tree_depth a) (tree_kinds a) a" "derives (Suc ?l) (tree_depth b) (tree_kinds b) b"
    using TBin operator_level_bound [of operator] by (auto intro!: climb_to)
  then have d: "derives ?l (max (tree_depth a) (tree_depth b))
      (tree_kinds a @ operator_kind operator # tree_kinds b) (TBin operator a b)"
    by (intro derives.binary operator_level_bound level_operator_kind)
  have "derives 0 (max (tree_depth a) (tree_depth b))
      (tree_kinds a @ operator_kind operator # tree_kinds b) (TBin operator a b)"
    using d operator_level_bound by (rule top_level)
  from derives.parens [OF this] show ?case
    by simp
qed

subsection \<open>Lexing printed tokens\<close>

abbreviation lexer_at :: "str \<Rightarrow> nat \<Rightarrow> Lexer" where
  "lexer_at s p \<equiv> \<lparr>lx_remaining = s, lx_position = p\<rparr>"

lemma lexer_steps [simp]:
  "bump (lexer_at (c # cs) p) = (Some c, lexer_at cs (p + len_utf8 c))"
  "peek (lexer_at (c # cs) p) = Some c"
  "peek (lexer_at [] p) = None"
  "is_some_and (Some v) P = P v"
  "is_some_and None P = False"
  by (simp_all add: bump_def peek_def is_some_and_def)

lemma skip_while_span:
  assumes "list_all P ds" "rest = [] \<or> \<not> P (hd rest)"
  shows "skip_while P (lexer_at (ds @ rest) p) = lexer_at rest (p + str_len ds)"
  using assms
proof (induction ds arbitrary: p)
  case Nil
  then have "\<not> is_some_and (peek (lexer_at rest p)) P"
    by (cases rest) simp_all
  then show ?case
    by (simp add: skip_while.simps [of P "lexer_at rest p"])
next
  case (Cons d ds)
  then show ?case
    by (simp add: skip_while.simps [of P "lexer_at (d # ds @ rest) p"] add.assoc)
qed

text \<open>The text of a token, followed by \<open>rest\<close>, is read as that token.\<close>

definition reads :: "str \<Rightarrow> TokenKind \<Rightarrow> str \<Rightarrow> bool" where
  "reads s kind rest \<longleftrightarrow>
     s \<noteq> [] \<and> \<not> is_whitespace (hd s) \<and>
     (\<forall>p. \<exists>p'. scan_token (hd s) (lexer_at (s @ rest) p) = Inr (kind, lexer_at rest p'))"

text \<open>What may follow a word or a number in printed text.\<close>

definition stops :: "str \<Rightarrow> bool" where
  "stops rest \<longleftrightarrow> rest = [] \<or> hd rest = 32 \<or> hd rest = 41"

lemma reads_punctuation:
  "reads [40] TkLeftParenthesis rest" "reads [41] TkRightParenthesis rest" "reads [46] TkDot rest"
  by (simp_all add: reads_def is_whitespace_def scan_token_def)

lemma reads_bang: "rest \<noteq> [] \<Longrightarrow> hd rest \<noteq> 61 \<Longrightarrow> reads [33] TkBang rest"
  by (cases rest) (simp_all add: reads_def is_whitespace_def scan_token_def scan_pair_def take_if_def)

lemma reads_operator: "reads (operator_text operator) (operator_kind operator) (32 # rest)"
  by (cases operator)
    (simp_all add: reads_def is_whitespace_def scan_token_def scan_pair_def scan_double_def take_if_def lit_def)

lemma word_not_space: "is_identifier_start c \<Longrightarrow> \<not> is_whitespace c"
  by (auto simp: is_identifier_start_def is_ascii_alphabetic_def is_whitespace_def)

lemma word_character:
  "is_identifier_start c \<Longrightarrow>
     c \<notin> {40, 41, 46, 33, 61, 60, 62, 38, 124, 39, 34, 45, 36} \<and> \<not> is_ascii_digit c"
  by (auto simp: is_identifier_start_def is_ascii_alphabetic_def is_ascii_digit_def)

lemma reads_word:
  assumes "is_identifier w" "rest = [] \<or> \<not> is_identifier_continue (hd rest)"
  shows "reads w (word_kind w) rest"
proof -
  obtain c cs where w: "w = c # cs" "is_identifier_start c" "list_all is_identifier_continue cs"
    using assms(1) by (cases w) (auto simp: is_identifier_def)
  have "scan_identifier (lexer_at (w @ rest) p) = (word_kind w, lexer_at rest (p + len_utf8 c + str_len cs))" for p
    using skip_while_span [OF w(3) assms(2)]
    by (simp add: scan_identifier_def Let_def consumed_def w(1) word_kind_def)
  then show ?thesis
    using w word_not_space word_character by (auto simp: reads_def scan_token_def)
qed

lemma stops_not_continue: "stops rest \<Longrightarrow> rest = [] \<or> \<not> is_identifier_continue (hd rest)"
  by (auto simp: stops_def is_identifier_continue_def is_ascii_alphabetic_def is_ascii_digit_def)

subsubsection \<open>Numbers\<close>

lemma show_nat_leading: "0 < n \<Longrightarrow> hd (lit (show_nat n)) \<noteq> 48"
proof (induction n rule: show_nat.induct)
  case (1 n)
  show ?case
  proof (cases "n < 10")
    case True
    then show ?thesis
      using 1(2) by (simp add: show_nat.simps [of n] lit_def digit_char_value)
  next
    case False
    then have "hd (lit (show_nat (n div 10))) \<noteq> 48"
      using 1 by simp
    then show ?thesis
      using False show_nat_nonempty [of "n div 10"] by (simp add: show_nat.simps [of n] hd_append)
  qed
qed

lemma scan_decimal:
  assumes "stops rest" "f64_from_str (sign @ decimal_text scale c) = Some x" "\<not> exceeds_exact_range x" "is_finite x"
    "sign = [] \<or> sign = [45]"
  shows "\<exists>p'. scan_number (lexer_at (sign @ decimal_text scale c @ rest) p) = Inr (x, lexer_at rest p')"
proof -
  define whole where "whole = lit (show_nat (c div 10 ^ scale))"
  define after where "after = (if scale = 0 then rest else 46 # fixed_digits scale c @ rest)"
  have shape: "decimal_text scale c @ rest = whole @ after"
    by (simp add: decimal_text_def whole_def after_def)
  have digits: "list_all is_ascii_digit whole" "whole \<noteq> []"
    by (simp_all add: whole_def show_nat_digits show_nat_nonempty)
  have after: "after = [] \<or> \<not> is_ascii_digit (hd after)"
    using assms(1) by (auto simp: after_def stops_def is_ascii_digit_def)
  have rest_stop: "rest = [] \<or> \<not> is_ascii_digit (hd rest)" "rest = [] \<or> hd rest \<notin> {46, 101, 69}"
    using assms(1) by (auto simp: stops_def is_ascii_digit_def)
  let ?L = "lexer_at (sign @ whole @ after) p"
  define q where "q = p + str_len sign"
  have L1: "snd (take_if 45 ?L) = lexer_at (whole @ after) q"
    using assms(5) digits by (cases whole) (auto simp: take_if_def q_def is_ascii_digit_def)
  have head: "\<exists>zero L2. take_if 48 (lexer_at (whole @ after) q) = (zero, L2) \<and>
      \<not> (zero \<and> is_some_and (peek L2) is_ascii_digit) \<and>
      (if zero then L2 else take_ascii_digits L2) = lexer_at after (q + str_len whole)"
  proof (cases "c div 10 ^ scale = 0")
    case True
    then have w: "whole = [48]"
      by (simp add: whole_def show_nat.simps lit_def digit_char_value)
    show ?thesis
      using after by (cases after) (auto simp: w take_if_def)
  next
    case False
    then have "hd whole \<noteq> 48"
      using show_nat_leading by (simp add: whole_def)
    then have "take_if 48 (lexer_at (whole @ after) q) = (False, lexer_at (whole @ after) q)"
      using digits(2) by (cases whole) (simp_all add: take_if_def)
    moreover have "take_ascii_digits (lexer_at (whole @ after) q) = lexer_at after (q + str_len whole)"
      using skip_while_span [OF digits(1) after, of q] by (simp add: take_ascii_digits_def)
    ultimately show ?thesis
      by (intro exI [of _ False] exI [of _ "lexer_at (whole @ after) q"]) simp
  qed
  have tail: "\<exists>dot L4. take_if 46 (lexer_at after r) = (dot, L4) \<and>
      \<not> (dot \<and> \<not> is_some_and (peek L4) is_ascii_digit) \<and>
      (\<exists>p'. (if dot then take_ascii_digits L4 else L4) = lexer_at rest p')" for r
  proof (cases "scale = 0")
    case True
    then have "take_if 46 (lexer_at after r) = (False, lexer_at rest r)"
      using rest_stop by (cases rest) (auto simp: after_def take_if_def)
    then show ?thesis
      by (intro exI [of _ False] exI [of _ "lexer_at rest r"]) simp
  next
    case False
    let ?L4 = "lexer_at (fixed_digits scale c @ rest) (r + len_utf8 46)"
    have "take_if 46 (lexer_at after r) = (True, ?L4)"
      using False by (simp add: after_def take_if_def)
    moreover have "is_some_and (peek ?L4) is_ascii_digit"
      using False fixed_digits_digits [of scale c] length_fixed_digits [of scale c]
      by (cases "fixed_digits scale c") simp_all
    moreover have "take_ascii_digits ?L4 = lexer_at rest (r + len_utf8 46 + str_len (fixed_digits scale c))"
      using skip_while_span [OF fixed_digits_digits rest_stop(1)] by (simp add: take_ascii_digits_def)
    ultimately show ?thesis
      by (intro exI [of _ True] exI [of _ ?L4]) simp
  qed
  obtain zero L2 where zero: "take_if 48 (lexer_at (whole @ after) q) = (zero, L2)"
    "\<not> (zero \<and> is_some_and (peek L2) is_ascii_digit)"
    "(if zero then L2 else take_ascii_digits L2) = lexer_at after (q + str_len whole)"
    using head by blast
  obtain dot L4 p' where dot: "take_if 46 (lexer_at after (q + str_len whole)) = (dot, L4)"
    "\<not> (dot \<and> \<not> is_some_and (peek L4) is_ascii_digit)"
    "(if dot then take_ascii_digits L4 else L4) = lexer_at rest p'"
    using tail by blast
  have exponent: "scan_exponent p (lexer_at rest p') = Inr (lexer_at rest p')"
    using rest_stop(2) by (cases rest) (auto simp: scan_exponent_def)
  have "consumed ?L (lexer_at rest p') = sign @ decimal_text scale c"
    using shape by (intro consumed_append) simp
  then have "scan_number ?L = Inr (x, lexer_at rest p')"
    using assms(2-4) zero(2) dot(2)
    by (simp add: scan_number_def L1 zero(1, 3) dot(1, 3) exponent Let_def)
  then show ?thesis
    using shape by auto
qed

lemma number_text:
  assumes "exact_number x"
  obtains sign scale c where "write_canonical_literal (NumberKind x) = sign @ decimal_text scale c"
    "sign = [] \<or> sign = [45]" "f64_from_str (sign @ decimal_text scale c) = Some x"
    "\<not> exceeds_exact_range x" "is_finite x"
proof -
  obtain v where v: "x = Finite v" "representable v" "\<bar>v\<bar> \<le> MAX_EXACT_EXPRESSION_NUMBER"
    using assms by (auto simp: exact_number_def)
  have range: "\<not> exceeds_exact_range x" "is_finite x"
    using v by simp_all
  show thesis
  proof (cases "v = 0")
    case True
    have zero: "decimal_text 0 0 = [48]"
      by (simp add: decimal_text_def show_nat.simps lit_def digit_char_value)
    have "f64_from_str [48] = Some (Finite 0)"
      using from_str_unsigned(1) [OF unsigned_decimal_text, of 0 0] by (simp add: zero round_f64_def)
    then show thesis
      using that [of "[]" 0 0] v(1) True range by (simp add: zero)
  next
    case False
    obtain scale c where sc: "shortest_decimal \<bar>v\<bar> = (scale, c)"
      by (cases "shortest_decimal \<bar>v\<bar>")
    define sign :: str where "sign = (if v < 0 then [45] else [])"
    have shown: "f64_to_string x = sign @ decimal_text scale c"
      by (simp add: f64_to_string_def v(1) sc sign_def)
    show thesis
    proof (rule that)
      show "write_canonical_literal (NumberKind x) = sign @ decimal_text scale c"
        using False shown v(1) by simp
      show "sign = [] \<or> sign = [45]"
        by (simp add: sign_def)
      show "f64_from_str (sign @ decimal_text scale c) = Some x"
        using f64_display_roundtrip [OF v(2)] by (simp add: v(1) shown [unfolded v(1)])
    qed (use range in simp_all)
  qed
qed

lemma minus_not_space: "\<not> is_whitespace 45"
  by (simp add: is_whitespace_def)

lemma reads_number:
  assumes "exact_number x" "stops rest"
  shows "reads (write_canonical_literal (NumberKind x)) (TkNumber x) rest"
proof -
  obtain sign scale c where n: "write_canonical_literal (NumberKind x) = sign @ decimal_text scale c"
    "sign = [] \<or> sign = [45]" "f64_from_str (sign @ decimal_text scale c) = Some x"
    "\<not> exceeds_exact_range x" "is_finite x"
    by (rule number_text [OF assms(1)])
  obtain d ds where d: "decimal_text scale c = d # ds" "is_ascii_digit d"
    using show_nat_digits [of "c div 10 ^ scale"] show_nat_nonempty [of "c div 10 ^ scale"]
    by (cases "lit (show_nat (c div 10 ^ scale))") (auto simp: decimal_text_def)
  have scan: "\<exists>p'. scan_number (lexer_at (sign @ decimal_text scale c @ rest) p) = Inr (x, lexer_at rest p')" for p
    by (rule scan_decimal [OF assms(2) n(3, 4, 5, 2)])
  have digit: "d \<notin> {40, 41, 46, 33, 61, 60, 62, 38, 124, 39, 34, 45}" "\<not> is_whitespace d"
    using d(2) by (auto simp: is_ascii_digit_def is_whitespace_def)
  have token: "\<exists>p'. scan_token (hd (sign @ d # ds)) (lexer_at ((sign @ d # ds) @ rest) p) =
      Inr (TkNumber x, lexer_at rest p')" for p
  proof -
    obtain p' where p': "scan_number (lexer_at (sign @ d # ds @ rest) p) = Inr (x, lexer_at rest p')"
      using scan [of p] by (auto simp: d(1))
    show ?thesis
      using n(2)
    proof
      assume "sign = []"
      then show ?thesis
        using p' d(2) digit(1) by (intro exI [of _ p']) (simp add: scan_token_def)
    next
      assume "sign = [45]"
      then show ?thesis
        using p' d(2) by (intro exI [of _ p']) (simp add: scan_token_def peek_second_def)
    qed
  qed
  have "\<not> is_whitespace (hd (sign @ d # ds))"
    using n(2) digit(2) minus_not_space by (elim disjE) simp_all
  then show ?thesis
    unfolding reads_def n(1) d(1) using token by simp
qed

subsubsection \<open>Strings\<close>

lemma hex_char_digit: "d < 16 \<Longrightarrow> hex_digit (hex_char d) = Some d"
  by (auto simp: hex_digit_def hex_char_def)

lemma nibble_or:
  assumes "d < 16" "e < 16"
  shows "or (push_bit 4 (word_of_nat d)) (word_of_nat e) = (word_of_nat (16 * d + e) :: 16 word)"
proof -
  have "or (push_bit 4 (word_of_nat d)) (word_of_nat e) = (push_bit 4 (word_of_nat d) + word_of_nat e :: 16 word)"
  proof (rule disjunctive_add_eq_or [symmetric])
    show "and (push_bit 4 (word_of_nat d)) (word_of_nat e) = (0 :: 16 word)"
    proof (rule bit_word_eqI)
      fix n
      have "take_bit 4 e = e"
        using assms(2) by (simp add: take_bit_nat_eq_self)
      then have "\<not> bit e n" if "4 \<le> n"
        using bit_take_bit_iff [of 4 e n] that by simp
      then show "bit (and (push_bit 4 (word_of_nat d)) (word_of_nat e) :: 16 word) n = bit (0 :: 16 word) n"
        by (auto simp: bit_and_iff bit_push_bit_iff bit_of_nat_iff)
    qed
  qed
  then show ?thesis
    by (simp add: push_bit_eq_mult)
qed

lemma scan_hex_step:
  "hex_digit c = Some d \<Longrightarrow>
     scan_hex_digits (Suc n) start acc (lexer_at (c # cs) p) =
     scan_hex_digits n start (or (push_bit 4 acc) (word_of_nat d)) (lexer_at cs (p + len_utf8 c))"
  by simp

lemma control_small: "is_control c \<Longrightarrow> c < 160"
  by (auto simp: is_control_def)

lemma scan_control_escape:
  assumes "c < 160"
  shows "\<exists>p'. scan_unicode_escape start (lexer_at (hex_quad c @ rest) p) = Inr (c, lexer_at rest p')"
proof -
  have low: "c div 4096 mod 16 = 0" "c div 256 mod 16 = 0" "c div 16 mod 16 = c div 16" "c div 16 < 16" "c mod 16 < 16"
    using assms by simp_all
  have zero: "hex_digit (hex_char 0) = Some 0"
    by (rule hex_char_digit) simp
  have four: "(4::nat) = Suc (Suc (Suc (Suc 0)))"
    by simp
  have join: "16 * (c div 16) + c mod 16 = c"
    by simp
  have quad: "scan_hex_quad start (lexer_at (hex_quad c @ rest) p) =
      Inr (word_of_nat c, lexer_at rest (p + len_utf8 (hex_char 0) + len_utf8 (hex_char 0) +
        len_utf8 (hex_char (c div 16)) + len_utf8 (hex_char (c mod 16))))"
    using nibble_or [OF low(4, 5)]
    by (simp add: scan_hex_quad_def [unfolded four] hex_quad_def low scan_hex_step [OF zero]
        scan_hex_step [OF hex_char_digit [OF low(4)]] scan_hex_step [OF hex_char_digit [OF low(5)]] join
        del: scan_hex_digits.simps(2) mult_div_mod_eq)
  have small: "unat (word_of_nat c :: 16 word) = c"
    using assms by (simp add: unat_of_nat)
  have "\<not> (0xD800 \<le> (word_of_nat c :: 16 word))" "\<not> (0xDC00 \<le> (word_of_nat c :: 16 word))"
    using assms small by (simp_all add: word_le_unat)
  moreover have "char_from_u32 c = Some c"
    using assms by (simp add: char_from_u32_def)
  ultimately show ?thesis
    by (simp add: scan_unicode_escape_def quad small)
qed

lemma scan_canonical_char:
  "\<exists>p'. scan_string_loop 34 start acc (lexer_at (canonical_char c @ rest) p) =
     scan_string_loop 34 start (acc @ [c]) (lexer_at rest p')"
proof -
  have simple: "canonical_char c = [92, e] \<Longrightarrow> simple_escape e = Some c \<Longrightarrow> e \<noteq> 117 \<Longrightarrow> ?thesis" for e
    by (intro exI [of _ "p + len_utf8 92 + len_utf8 e"])
      (simp add: scan_string_loop.simps [of 34 start acc])
  show ?thesis
  proof (cases "c \<in> {34, 92, 8, 12, 10, 13, 9}")
    case True
    then show ?thesis
      using simple [of 34] simple [of 92] simple [of 98] simple [of 102] simple [of 110] simple [of 114] simple [of 116]
      by (auto simp: canonical_char_def simple_escape_def)
  next
    case plain: False
    show ?thesis
    proof (cases "is_control c")
      case True
      then have cc: "canonical_char c = [92, 117] @ hex_quad c"
        using plain by (simp add: canonical_char_def)
      obtain p' where "scan_unicode_escape (p + len_utf8 92 - 1) (lexer_at (hex_quad c @ rest) (p + len_utf8 92 + len_utf8 117))
          = Inr (c, lexer_at rest p')"
        using scan_control_escape [OF control_small [OF True]] by blast
      then show ?thesis
        by (intro exI [of _ p']) (simp add: cc scan_string_loop.simps [of 34 start acc])
    next
      case False
      then have "canonical_char c = [c]" "c \<noteq> 34" "c \<noteq> 92"
        using plain by (simp_all add: canonical_char_def)
      then show ?thesis
        using False
        by (intro exI [of _ "p + len_utf8 c"]) (simp add: scan_string_loop.simps [of 34 start acc])
    qed
  qed
qed

lemma scan_canonical_string:
  "\<exists>p'. scan_string_loop 34 start acc (lexer_at (concat (map canonical_char s) @ 34 # rest) p) =
     Inr (acc @ s, lexer_at rest p')"
proof (induction s arbitrary: acc p)
  case Nil
  show ?case
    by (intro exI [of _ "p + len_utf8 34"]) (simp add: scan_string_loop.simps [of 34 start acc])
next
  case (Cons c s)
  obtain q where "scan_string_loop 34 start acc
      (lexer_at (canonical_char c @ concat (map canonical_char s) @ 34 # rest) p) =
    scan_string_loop 34 start (acc @ [c]) (lexer_at (concat (map canonical_char s) @ 34 # rest) q)"
    using scan_canonical_char by blast
  then show ?case
    using Cons.IH [of "acc @ [c]" q] by simp
qed

lemma reads_string: "reads (write_canonical_literal (StringKind s)) (TkString s) rest"
proof -
  have "\<exists>p'. scan_token 34 (lexer_at (34 # concat (map canonical_char s) @ 34 # rest) p) =
      Inr (TkString s, lexer_at rest p')" for p
  proof -
    obtain p' where "scan_string_loop 34 p [] (lexer_at (concat (map canonical_char s) @ 34 # rest) (p + len_utf8 34)) =
        Inr ([] @ s, lexer_at rest p')"
      using scan_canonical_string by blast
    then show ?thesis
      by (intro exI [of _ p']) (simp add: scan_token_def scan_string_def)
  qed
  then show ?thesis
    by (simp add: reads_def is_whitespace_def)
qed

subsubsection \<open>Literals, words and paths\<close>

lemma reads_literal:
  assumes "tree_ok (TLit v)" "stops rest"
  shows "reads (write_canonical_literal v) (value_token v) rest"
proof -
  have words: "reads (lit ''null'') TkNull rest" "reads (lit ''true'') (TkBoolean True) rest"
    "reads (lit ''false'') (TkBoolean False) rest"
    using reads_word [OF keywords_identifiers(1) stops_not_continue [OF assms(2)]]
      reads_word [OF keywords_identifiers(2) stops_not_continue [OF assms(2)]]
      reads_word [OF keywords_identifiers(3) stops_not_continue [OF assms(2)]]
    by (simp_all add: word_kind_def lit_def)
  show ?thesis
  proof (cases v)
    case (NumberKind x)
    then have "exact_number x"
      using assms(1) by simp
    from reads_number [OF this assms(2)] show ?thesis
      by (simp add: NumberKind del: write_canonical_literal.simps)
  next
    case (StringKind s)
    then show ?thesis
      using reads_string [of s rest] by (simp del: write_canonical_literal.simps)
  qed (use words in simp_all)
qed

subsection \<open>Lexing the canonical form\<close>

text \<open>Reading \<open>s\<close> in front of \<open>rest\<close> adds tokens of the kinds \<open>ks\<close> and stops before \<open>rest\<close>.\<close>

definition lex_run :: "str \<Rightarrow> str \<Rightarrow> TokenKind list \<Rightarrow> bool" where
  "lex_run s rest ks \<longleftrightarrow>
     (\<forall>toks p. length toks + length ks \<le> MAX_TOKENS \<longrightarrow>
        (\<exists>ts p'. map tk_kind ts = ks \<and>
           tokenize_loop toks (lexer_at (s @ rest) p) = tokenize_loop (toks @ ts) (lexer_at rest p')))"

lemma lex_runD:
  assumes "lex_run s rest ks" "length toks + length ks \<le> MAX_TOKENS"
  obtains ts p' where "map tk_kind ts = ks"
    "tokenize_loop toks (lexer_at (s @ rest) p) = tokenize_loop (toks @ ts) (lexer_at rest p')"
  using assms unfolding lex_run_def by blast

lemma lex_run_append:
  assumes "lex_run s (s' @ rest) ks" "lex_run s' rest ks'"
  shows "lex_run (s @ s') rest (ks @ ks')"
  unfolding lex_run_def
proof (intro allI impI)
  fix toks :: "Token list" and p
  assume room: "length toks + length (ks @ ks') \<le> MAX_TOKENS"
  then have "length toks + length ks \<le> MAX_TOKENS"
    by simp
  then obtain ts q where ts: "map tk_kind ts = ks"
    "tokenize_loop toks (lexer_at (s @ s' @ rest) p) = tokenize_loop (toks @ ts) (lexer_at (s' @ rest) q)"
    by (rule lex_runD [OF assms(1)])
  have "length (toks @ ts) + length ks' \<le> MAX_TOKENS"
    using room ts(1) by (auto simp flip: length_map [of tk_kind ts])
  then obtain us r where us: "map tk_kind us = ks'"
    "tokenize_loop (toks @ ts) (lexer_at (s' @ rest) q) = tokenize_loop ((toks @ ts) @ us) (lexer_at rest r)"
    by (rule lex_runD [OF assms(2)])
  show "\<exists>ts p'. map tk_kind ts = ks @ ks' \<and>
      tokenize_loop toks (lexer_at ((s @ s') @ rest) p) = tokenize_loop (toks @ ts) (lexer_at rest p')"
    by (intro exI [of _ "ts @ us"] exI [of _ r]) (simp add: ts us)
qed

lemma lex_run_space: "lex_run [32] rest []"
  by (simp add: lex_run_def tokenize_loop.simps [of _ "lexer_at (32 # rest) _"] is_whitespace_def) blast

lemma lex_run_token:
  assumes "reads s kind rest"
  shows "lex_run s rest [kind]"
  unfolding lex_run_def
proof (intro allI impI)
  fix toks :: "Token list" and p
  assume room: "length toks + length [kind] \<le> MAX_TOKENS"
  obtain c cs where s: "s = c # cs" "\<not> is_whitespace c"
    using assms by (cases s) (auto simp: reads_def)
  obtain p' where p': "scan_token c (lexer_at (s @ rest) p) = Inr (kind, lexer_at rest p')"
    using assms s by (force simp: reads_def)
  let ?t = "\<lparr>tk_kind = kind, tk_span = span_new p p'\<rparr>"
  have "tokenize_loop toks (lexer_at (s @ rest) p) = tokenize_loop (toks @ [?t]) (lexer_at rest p')"
    using room p' s by (simp add: tokenize_loop.simps [of toks "lexer_at (c # cs @ rest) p"])
  then show "\<exists>ts p'. map tk_kind ts = [kind] \<and>
      tokenize_loop toks (lexer_at (s @ rest) p) = tokenize_loop (toks @ ts) (lexer_at rest p')"
    by (intro exI [of _ "[?t]"] exI [of _ p']) simp
qed

lemma dot_not_continue: "\<not> is_identifier_continue 46"
  by (simp add: is_identifier_continue_def is_ascii_alphabetic_def is_ascii_digit_def)

lemma lex_run_path:
  assumes "list_all is_identifier (w # ws)" "stops rest"
  shows "lex_run (join_dots (w # ws)) rest (word_kind w # dotted (map word_kind ws))"
  using assms(1)
proof (induction ws arbitrary: w)
  case Nil
  then show ?case
    using reads_word [OF _ stops_not_continue [OF assms(2)]] by (simp add: lex_run_token dotted_def)
next
  case (Cons v ws)
  have "reads w (word_kind w) (46 # join_dots (v # ws) @ rest)"
    using Cons.prems by (intro reads_word) (simp_all add: dot_not_continue)
  then have first: "lex_run w ([46] @ join_dots (v # ws) @ rest) [word_kind w]"
    by (simp add: lex_run_token)
  have "lex_run [46] (join_dots (v # ws) @ rest) [TkDot]"
    by (rule lex_run_token [OF reads_punctuation(3)])
  moreover have "lex_run (join_dots (v # ws)) rest (word_kind v # dotted (map word_kind ws))"
    using Cons.prems by (intro Cons.IH) simp
  ultimately have "lex_run ([46] @ join_dots (v # ws)) rest ([TkDot] @ word_kind v # dotted (map word_kind ws))"
    by (rule lex_run_append)
  from lex_run_append [OF _ this, of w "[word_kind w]"] first show ?case
    by (simp add: dotted_Cons)
qed

lemma reads_head:
  assumes "reads s kind rest" "kind \<noteq> TkEqual"
  shows "s \<noteq> [] \<and> hd s \<noteq> 61"
proof -
  obtain p' where scan: "scan_token (hd s) (lexer_at (s @ rest) 0) = Inr (kind, lexer_at rest p')"
    using assms(1) unfolding reads_def by blast
  have "scan_token 61 L = Inr (kind', L') \<Longrightarrow> kind' = TkEqual" for L kind' L'
    by (simp add: scan_token_def scan_double_def split: prod.splits if_splits)
  then show ?thesis
    using scan assms by (auto simp: reads_def)
qed

lemma text_head: "tree_ok t \<Longrightarrow> tree_text t \<noteq> [] \<and> hd (tree_text t) \<noteq> 61"
proof (cases t)
  case (TLit v)
  assume ok: "tree_ok t"
  have "value_token v \<noteq> TkEqual"
    by (cases v) simp_all
  then show ?thesis
    using reads_head [OF reads_literal [of v "[]"]] ok TLit by (simp add: stops_def del: tree_ok.simps)
next
  case (TLookup path)
  assume ok: "tree_ok t"
  then obtain w ws where path: "path = w # ws" "is_identifier w"
    using TLookup by (cases path) auto
  then have "w \<noteq> []" "is_identifier_start (hd w)"
    by (simp_all add: is_identifier_def)
  then show ?thesis
    using word_character [of "hd w"] path(1) TLookup by (cases ws) (auto simp: hd_append)
qed (simp_all add: lit_def)

lemma lex_run_tree: "tree_ok t \<Longrightarrow> stops rest \<Longrightarrow> lex_run (tree_text t) rest (tree_kinds t)"
proof (induction t arbitrary: rest)
  case (TLit v)
  then show ?case
    using lex_run_token [OF reads_literal] by (simp del: tree_ok.simps)
next
  case (TLookup path)
  then obtain w ws where path: "path = w # ws"
    by (cases path) auto
  then have "word_kind w = TkIdentifier w"
    using TLookup.prems by (auto simp: word_kind_def keywords_of_values_def)
  then show ?case
    using lex_run_path [of w ws rest] TLookup.prems path by simp
next
  case (TNot t)
  have operand: "lex_run (tree_text t) ([41] @ rest) (tree_kinds t)"
    using TNot by (intro TNot.IH) (simp_all add: stops_def)
  have "reads [33] TkBang (tree_text t @ [41] @ rest)"
    using text_head [of t] TNot.prems by (intro reads_bang) (simp_all add: hd_append)
  note bang = lex_run_token [OF this]
  have "lex_run ([40] @ [33] @ tree_text t @ [41]) rest
      ([TkLeftParenthesis] @ [TkBang] @ tree_kinds t @ [TkRightParenthesis])"
    using operand bang
    by (intro lex_run_append) (simp_all add: lex_run_token reads_punctuation)
  then show ?case
    by (simp add: lit_def)
next
  case (TBin operator l r)
  have right: "lex_run (tree_text r) ([41] @ rest) (tree_kinds r)"
    using TBin by (intro TBin.IH(2)) (simp_all add: stops_def)
  have left: "lex_run (tree_text l) ([32] @ operator_text operator @ [32] @ tree_text r @ [41] @ rest) (tree_kinds l)"
    using TBin by (intro TBin.IH(1)) (simp_all add: stops_def)
  have op: "lex_run (operator_text operator) ([32] @ tree_text r @ [41] @ rest) [operator_kind operator]"
    using lex_run_token [OF reads_operator] by simp
  have "lex_run ([40] @ tree_text l @ [32] @ operator_text operator @ [32] @ tree_text r @ [41]) rest
      ([TkLeftParenthesis] @ tree_kinds l @ [] @ [operator_kind operator] @ [] @ tree_kinds r @ [TkRightParenthesis])"
    using left right op
    by (intro lex_run_append) (simp_all add: lex_run_token reads_punctuation lex_run_space)
  then show ?case
    by simp
qed

subsection \<open>The canonical form reads back\<close>

definition canonical_fits :: "Tree \<Rightarrow> bool" where
  "canonical_fits t \<longleftrightarrow>
     str_len (tree_text t) \<le> MAX_EXPRESSION_BYTES \<and> length (tree_kinds t) \<le> MAX_TOKENS \<and>
     tree_depth t \<le> MAX_PARSE_DEPTH"

lemma lex_run_tokenize:
  assumes "lex_run s [] ks" "length ks \<le> MAX_TOKENS"
  obtains ts where "tokenize s = Inr ts" "map tk_kind (butlast ts) = ks"
proof -
  have "length ([] :: Token list) + length ks \<le> MAX_TOKENS"
    using assms(2) by simp
  with assms(1) obtain ts p' where ts: "map tk_kind ts = ks"
    "tokenize_loop [] (lexer_at (s @ []) 0) = tokenize_loop ([] @ ts) (lexer_at [] p')"
    by (rule lex_runD)
  have "tokenize s = Inr (ts @ [\<lparr>tk_kind = TkEnd, tk_span = span_new p' p'\<rparr>])"
    using ts(2) by (simp add: tokenize_def lexer_new_def tokenize_loop.simps [of ts "lexer_at [] p'"])
  then show thesis
    using that ts(1) by simp
qed

lemma tokenize_canonical:
  assumes "tree_ok t" "length (tree_kinds t) \<le> MAX_TOKENS"
  obtains ts where "tokenize (tree_text t) = Inr ts" "map tk_kind (butlast ts) = tree_kinds t"
proof -
  have "lex_run (tree_text t) [] (tree_kinds t)"
    using assms(1) by (rule lex_run_tree) (simp add: stops_def)
  then show thesis
    using lex_run_tokenize [OF _ assms(2)] that by blast
qed

lemma canonical_reparses:
  assumes "tree_ok t" "canonical_fits t"
  shows "\<exists>e. parse (tree_text t) = Inr e \<and> tree_of (ex_root e) = t"
proof -
  obtain ts where ts: "tokenize (tree_text t) = Inr ts" "map tk_kind (butlast ts) = tree_kinds t"
    using tokenize_canonical assms by (auto simp: canonical_fits_def)
  have "stream_ok (str_len (tree_text t)) ts"
    using tokenize_ok [of "tree_text t"] ts(1) by simp
  moreover have "derives 0 (tree_depth t) (map tk_kind (butlast ts)) t"
    unfolding ts(2) by (rule climb_to [OF _ canonical_derives [OF assms(1)]]) simp
  ultimately obtain node where "parse_tokens ts = Inr node" "tree_of node = t"
    using parse_tokens_complete assms(2) by (force simp: canonical_fits_def)
  then show ?thesis
    using ts(1) assms(2) by (simp add: parse_def canonical_fits_def)
qed

lemma parsed_tree_ok:
  assumes "parse source = Inr e"
  shows "tree_ok (tree_of (ex_root e))"
proof -
  obtain ts where ts: "stream_ok (str_len source) ts" "root_ok (str_len source) ts (ex_root e)"
    using assms by (rule parse_ok)
  then obtain d where "derives 0 d (map tk_kind (butlast ts)) (tree_of (ex_root e))"
    by (auto simp: root_ok_def)
  moreover have "list_all kind_ok (map tk_kind (butlast ts))"
    using ts(1) by (auto simp: stream_ok_def tokens_ok_def list_all_iff)
  ultimately show ?thesis
    by (rule derives_tree_ok)
qed

subsection \<open>Evaluation sees the tree only\<close>

text \<open>The outcome of an evaluation without the place of its error.\<close>

definition outcome :: "evaluated \<Rightarrow> (EvalErrorKind, Value) result" where
  "outcome = map_err ee_kind"

lemma outcome_simps [simp]:
  "outcome (Inl e) = Inl (ee_kind e)"
  "outcome (Inr v) = Inr v"
  by (simp_all add: outcome_def)

lemma outcome_bind: "outcome (res_bind m f) = res_bind (outcome m) (\<lambda>v. outcome (f v))"
  by (cases m) simp_all

lemma outcome_Inl: "outcome m = Inl k \<longleftrightarrow> (\<exists>e. m = Inl e \<and> ee_kind e = k)"
  by (cases m) auto

lemma outcome_Inr: "outcome m = Inr v \<longleftrightarrow> m = Inr v"
  by (cases m) auto

lemma binary_left_error: "evaluate_binary operator s (Inl e) right = Inl e"
  by (cases operator) (simp_all add: evaluate_binary_def)

lemma outcome_require:
  "outcome (res_bind (require_boolean v t s) f) =
     (case v_kind v of
        BooleanKind b \<Rightarrow> outcome (f (b, v_provenance v))
      | _ \<Rightarrow> Inl (ExpectedBoolean t (value_type v)))"
  by (simp add: require_boolean_def eval_error_def split: ValueKind.split)

lemma outcome_operands:
  "outcome right = outcome right' \<Longrightarrow>
     outcome (evaluate_binary operator s (Inr l) right) = outcome (evaluate_binary operator s' (Inr l) right')"
proof (cases "outcome right")
  case (Inl k)
  assume same: "outcome right = outcome right'"
  obtain e e' where "right = Inl e" "right' = Inl e'" "ee_kind e = ee_kind e'"
    using Inl same outcome_Inl [of right k] outcome_Inl [of right' k] by auto
  then show ?thesis
    by (cases operator) (simp_all add: evaluate_binary_def outcome_require split: ValueKind.split)
next
  case (Inr r)
  assume "outcome right = outcome right'"
  then have "right = Inr r" "right' = Inr r"
    using Inr by (metis outcome_Inr)+
  then show ?thesis
    by (cases operator)
      (simp_all add: evaluate_binary_def outcome_require Let_def eval_error_def ok_or_def
        split: ValueKind.split option.split)
qed

lemma outcome_binary:
  assumes "outcome left = outcome left'" "outcome right = outcome right'"
  shows "outcome (evaluate_binary operator s left right) = outcome (evaluate_binary operator s' left' right')"
proof (cases "outcome left")
  case (Inl k)
  then obtain e e' where "left = Inl e" "left' = Inl e'" "ee_kind e = ee_kind e'"
    using assms(1) outcome_Inl [of left k] outcome_Inl [of left' k] by auto
  then show ?thesis
    by (simp add: binary_left_error)
next
  case (Inr l)
  then have "left = Inr l" "left' = Inr l"
    using assms(1) by (metis outcome_Inr)+
  then show ?thesis
    using outcome_operands [OF assms(2)] by simp
qed

lemma outcome_tree:
  assumes "tree_of a = tree_of b" "literals_plain a" "literals_plain b"
  shows "outcome (evaluate_node r depth a) = outcome (evaluate_node r depth b)"
  using assms
proof (induction a arbitrary: b depth)
  case (Literal v s)
  then obtain w s' where "b = Literal w s'" "v_kind w = v_kind v"
    by (cases b) auto
  then show ?case
    using Literal by (cases v; cases w) (simp add: eval_error_def)
next
  case (Lookup path s)
  then show ?case
    by (cases b) (auto simp: eval_error_def ok_or_def split: option.split)
next
  case (Unary operator operator_span operand s)
  then obtain o' os' operand' s' where b: "b = Unary o' os' operand' s'" "tree_of operand' = tree_of operand"
    by (cases b) auto
  then have ih: "outcome (evaluate_node r (depth + 1) operand) = outcome (evaluate_node r (depth + 1) operand')"
    using Unary by (intro Unary.IH) auto
  show ?case
    using ih unfolding b(1) by (simp add: eval_error_def outcome_bind outcome_require)
next
  case (Binary operator operator_span left right s)
  then obtain os' left' right' s' where b: "b = Binary operator os' left' right' s'"
    "tree_of left' = tree_of left" "tree_of right' = tree_of right"
    by (cases b) auto
  then have "outcome (evaluate_node r (depth + 1) left) = outcome (evaluate_node r (depth + 1) left')"
    "outcome (evaluate_node r (depth + 1) right) = outcome (evaluate_node r (depth + 1) right')"
    using Binary by (intro Binary.IH; auto)+
  then show ?case
    using outcome_binary unfolding b(1) by (simp add: eval_error_def)
qed

lemma references_tree:
  "tree_of a = tree_of b \<Longrightarrow> collect_references a s = collect_references b s"
proof (induction a arbitrary: b s)
  case (Literal v sp)
  then show ?case
    by (cases b) simp_all
next
  case (Lookup path sp)
  then show ?case
    by (cases b) simp_all
next
  case (Unary operator operator_span operand sp)
  from Unary.prems obtain o' os' operand' s' where b: "b = Unary o' os' operand' s'" "tree_of operand = tree_of operand'"
    by (cases b) auto
  show ?case
    using Unary.IH [OF b(2)] by (simp add: b(1))
next
  case (Binary operator operator_span left right sp)
  from Binary.prems obtain os' left' right' s' where b: "b = Binary operator os' left' right' s'"
    "tree_of left = tree_of left'" "tree_of right = tree_of right'"
    by (cases b) auto
  show ?case
    using Binary.IH(1) [OF b(2)] Binary.IH(2) [OF b(3)] by (simp add: b(1))
qed

subsection \<open>Where the limits bite\<close>

text \<open>
  A negation costs the parser one level of nesting in a source and two in the canonical form, which
  puts it in parentheses.
\<close>

lemma operand_fails: "parse_unary (parse_or k) P = Inl failure \<Longrightarrow> parse_or (Suc k) P = Inl failure"
  by (simp add: parse_and_def parse_equality_def parse_comparison_def binary_level_def)

definition nesting_error :: "Span \<Rightarrow> ParseFailure" where
  "nesting_error = syntax_error (lit ''expression nesting exceeds 128-level limit'')"

lemma enter_nesting_fails:
  "MAX_PARSE_DEPTH \<le> ps_nesting P \<Longrightarrow> enter_nesting s P = Inl (nesting_error s)"
  by (simp add: enter_nesting_def nesting_error_def)

lemma negations_too_deep:
  assumes "map tk_kind (ps_tokens P) = concat (replicate j [TkLeftParenthesis, TkBang]) @ ks"
    "ps_nesting P \<le> MAX_PARSE_DEPTH" "MAX_PARSE_DEPTH < ps_nesting P + 2 * j"
    "MAX_PARSE_DEPTH \<le> ps_nesting P + k"
  shows "\<exists>s. parse_unary (parse_or k) P = Inl (nesting_error s)"
  using assms
proof (induction j arbitrary: k P)
  case (Suc j)
  then obtain t u ts where ts: "ps_tokens P = t # u # ts" "tk_kind t = TkLeftParenthesis" "tk_kind u = TkBang"
    "map tk_kind ts = concat (replicate j [TkLeftParenthesis, TkBang]) @ ks"
    by (auto simp: map_eq_Cons_conv)
  let ?P2 = "P\<lparr>ps_tokens := u # ts, ps_nesting := Suc (ps_nesting P)\<rparr>"
  let ?P4 = "P\<lparr>ps_tokens := ts, ps_nesting := Suc (Suc (ps_nesting P))\<rparr>"
  have primary: "parse_unary (parse_or k) P = parse_primary (parse_or k) P"
    using ts by (simp add: parse_unary.simps [of _ P] current_def)
  show ?case
  proof (cases "ps_nesting P \<ge> MAX_PARSE_DEPTH")
    case True
    then show ?thesis
      using ts by (auto simp: primary parse_primary_def take_token_def enter_nesting_fails)
  next
    case False
    then obtain k' where k: "k = Suc k'"
      using Suc.prems(4) by (cases k) auto
    have "\<exists>s. parse_unary (parse_or k') ?P2 = Inl (nesting_error s)"
    proof (cases "Suc (ps_nesting P) \<ge> MAX_PARSE_DEPTH")
      case True
      then show ?thesis
        using ts by (auto simp: parse_unary.simps [of _ ?P2] current_def take_token_def enter_nesting_fails)
    next
      case shallow: False
      then obtain s where "parse_unary (parse_or k') ?P4 = Inl (nesting_error s)"
        using Suc.IH [of ?P4 k'] Suc.prems(3,4) ts(4) k by auto
      then show ?thesis
        using ts shallow
        by (auto simp: parse_unary.simps [of _ ?P2] current_def take_token_def enter_nesting_def)
    qed
    then have "\<exists>s. parse_or k ?P2 = Inl (nesting_error s)"
      using operand_fails unfolding k by blast
    then show ?thesis
      using ts False by (auto simp: primary parse_primary_def take_token_def enter_nesting_def)
  qed
qed simp

definition negations :: "nat \<Rightarrow> str" where
  "negations n = replicate n 33 @ lit ''true''"

fun nots :: "nat \<Rightarrow> Tree" where
  "nots 0 = TLit (BooleanKind True)"
| "nots (Suc n) = TNot (nots n)"

lemma nots_ok: "tree_ok (nots n)"
  by (induction n) simp_all

lemma nots_kinds:
  "tree_kinds (nots n) = concat (replicate n [TkLeftParenthesis, TkBang]) @
     TkBoolean True # replicate n TkRightParenthesis"
proof (induction n)
  case (Suc n)
  have "replicate n TkRightParenthesis @ [TkRightParenthesis] = TkRightParenthesis # replicate n TkRightParenthesis"
    by (simp add: replicate_append_same)
  then show ?case
    by (simp add: Suc)
qed simp

lemma negations_derive: "derives 4 n (replicate n TkBang @ [TkBoolean True]) (nots n)"
  by (induction n) (simp_all add: derives.literal derives.bang)

lemma negations_lex: "lex_run (negations n) [] (replicate n TkBang @ [TkBoolean True])"
proof (induction n)
  case 0
  then show ?case
    using lex_run_token [OF reads_literal [of "BooleanKind True" "[]"]] by (simp add: negations_def stops_def)
next
  case (Suc n)
  have "reads [33] TkBang (negations n @ [])"
    by (rule reads_bang) (cases n; simp add: negations_def lit_def)+
  from lex_run_append [OF lex_run_token [OF this] Suc] show ?case
    by (simp add: negations_def)
qed

lemma str_len_replicate [simp]: "str_len (replicate n c) = n * len_utf8 c"
  by (induction n) simp_all

lemma negations_parse:
  assumes "n \<le> MAX_PARSE_DEPTH"
  shows "\<exists>e. parse (negations n) = Inr e \<and> tree_of (ex_root e) = nots n"
proof -
  have small: "str_len (negations n) \<le> MAX_EXPRESSION_BYTES"
    using assms by (simp add: negations_def lit_def len_utf8_def MAX_EXPRESSION_BYTES_def MAX_PARSE_DEPTH_def)
  obtain ts where ts: "tokenize (negations n) = Inr ts"
    "map tk_kind (butlast ts) = replicate n TkBang @ [TkBoolean True]"
    using lex_run_tokenize [OF negations_lex [of n]] assms by (auto simp: MAX_TOKENS_def MAX_PARSE_DEPTH_def)
  have "stream_ok (str_len (negations n)) ts"
    using tokenize_ok [of "negations n"] ts(1) by simp
  moreover have "derives 0 n (map tk_kind (butlast ts)) (nots n)"
    unfolding ts(2) by (rule climb_to [OF _ negations_derive]) simp
  ultimately obtain node where "parse_tokens ts = Inr node" "tree_of node = nots n"
    using parse_tokens_complete assms by blast
  then show ?thesis
    using ts(1) small by (simp add: parse_def)
qed

lemma nots_fit:
  assumes "n \<le> MAX_PARSE_DEPTH"
  shows "str_len (tree_text (nots n)) \<le> MAX_EXPRESSION_BYTES" "length (tree_kinds (nots n)) \<le> MAX_TOKENS"
    "tree_depth (nots n) = 2 * n"
proof -
  have "str_len (tree_text (nots n)) = 3 * n + 4"
    by (induction n) (simp_all add: lit_def len_utf8_def)
  then show "str_len (tree_text (nots n)) \<le> MAX_EXPRESSION_BYTES"
    using assms by (simp add: MAX_EXPRESSION_BYTES_def MAX_PARSE_DEPTH_def)
  show "length (tree_kinds (nots n)) \<le> MAX_TOKENS"
    using assms unfolding nots_kinds
    by (simp add: MAX_TOKENS_def MAX_PARSE_DEPTH_def length_concat sum_list_replicate)
  show "tree_depth (nots n) = 2 * n"
    by (induction n) simp_all
qed

lemma deep_negations_rejected:
  assumes "MAX_PARSE_DEPTH < 2 * n" "n \<le> MAX_PARSE_DEPTH"
  shows "\<exists>s. parse (tree_text (nots n)) = Inl (nesting_error s)"
proof -
  obtain ts where ts: "tokenize (tree_text (nots n)) = Inr ts"
    "map tk_kind (butlast ts) = tree_kinds (nots n)"
    using tokenize_canonical [OF nots_ok nots_fit(2) [OF assms(2)]] by auto
  then have stream: "stream_ok (str_len (tree_text (nots n))) ts"
    using tokenize_ok [of "tree_text (nots n)"] by simp
  have kinds: "map tk_kind ts = concat (replicate n [TkLeftParenthesis, TkBang]) @
      TkBoolean True # replicate n TkRightParenthesis @ [TkEnd]"
    using stream_kinds [OF stream] ts(2) by (simp add: nots_kinds)
  then obtain s where "parse_unary (parse_or MAX_PARSE_DEPTH) (parser_new ts) = Inl (nesting_error s)"
    using negations_too_deep [of "parser_new ts" n _ MAX_PARSE_DEPTH] assms(1) by (auto simp: parser_new_def)
  from operand_fails [OF this] have "parse_or (Suc MAX_PARSE_DEPTH) (parser_new ts) = Inl (nesting_error s)" .
  moreover obtain t where "current (parser_new ts) = Inr t" "tk_kind t \<noteq> TkEnd"
  proof -
    from assms(1) obtain m where "n = Suc m" by (cases n) auto
    with kinds show ?thesis
      using that by (auto simp: map_eq_Cons_conv parser_new_def current_def)
  qed
  ultimately show ?thesis
    using ts(1) nots_fit(1) [OF assms(2)]
    by (auto simp: parse_def parse_tokens_def Let_def res_simps simp del: parse_or.simps)
qed

text \<open>
  C15: The canonical form is a normal form. Let a source parse to an expression whose canonical form
  is within the limits of the parser. Then the canonical form parses, to an expression with the same
  canonical form, the same references and, in every context, the same result: the same value with
  the same provenance, or the same kind of error. And it identifies the expression: another parsed
  expression whose canonical form is within the limits has the same canonical form exactly when it
  has the same syntax tree.
\<close>

theorem canonical_roundtrip:
  assumes "parse source = Inr e" "canonical_fits (tree_of (ex_root e))"
  shows "(\<exists>e'. parse (canonical_source e) = Inr e' \<and> canonical_source e' = canonical_source e \<and>
      context_references e' = context_references e \<and>
      (\<forall>r. outcome (evaluate e' r) = outcome (evaluate e r))) \<and>
    (parse source2 = Inr e2 \<and> canonical_fits (tree_of (ex_root e2)) \<longrightarrow>
      (canonical_source e2 = canonical_source e \<longleftrightarrow> tree_of (ex_root e2) = tree_of (ex_root e)))"
proof -
  have shape: "canonical_source x = tree_text (tree_of (ex_root x))" for x
    by (simp add: canonical_source_def write_canonical_tree)
  have plain: "parse s = Inr x \<Longrightarrow> literals_plain (ex_root x)" for s x
    by (erule parse_ok) (simp add: root_ok_def)
  obtain e' where e': "parse (canonical_source e) = Inr e'" "tree_of (ex_root e') = tree_of (ex_root e)"
    using canonical_reparses [OF parsed_tree_ok [OF assms(1)] assms(2)] by (auto simp: shape)
  then have "\<exists>e'. parse (canonical_source e) = Inr e' \<and> canonical_source e' = canonical_source e \<and>
      context_references e' = context_references e \<and>
      (\<forall>r. outcome (evaluate e' r) = outcome (evaluate e r))"
    using references_tree [OF e'(2)] outcome_tree [OF e'(2) plain [OF e'(1)] plain [OF assms(1)]]
    by (intro exI [of _ e']) (simp add: shape context_references_def evaluate_def)
  moreover have "parse source2 = Inr e2 \<and> canonical_fits (tree_of (ex_root e2)) \<longrightarrow>
      (canonical_source e2 = canonical_source e \<longleftrightarrow> tree_of (ex_root e2) = tree_of (ex_root e))"
    using e' canonical_reparses [OF parsed_tree_ok] by (fastforce simp: shape)
  ultimately show ?thesis
    by blast
qed

text \<open>
  C35: The canonical form of an accepted condition may be rejected, and exactly how far it is safe.
  Up to 128 negations in front of \<open>true\<close> parse. Their canonical form puts every negation in
  parentheses and so needs two levels of nesting for each: up to 64 it parses and prints as itself,
  and from 65 on the parser refuses it with the error of the nesting limit.
\<close>

theorem canonical_not_reparsed:
  assumes "n \<le> 128"
  shows "\<exists>e. parse (negations n) = Inr e \<and>
     (if n \<le> 64
      then \<exists>e'. parse (canonical_source e) = Inr e' \<and> canonical_source e' = canonical_source e
      else \<exists>s. parse (canonical_source e) =
             Inl (syntax_error (lit ''expression nesting exceeds 128-level limit'') s))"
proof -
  have n: "n \<le> MAX_PARSE_DEPTH"
    using assms by (simp add: MAX_PARSE_DEPTH_def)
  have shape: "canonical_source x = tree_text (tree_of (ex_root x))" for x
    by (simp add: canonical_source_def write_canonical_tree)
  obtain e where e: "parse (negations n) = Inr e" "tree_of (ex_root e) = nots n"
    using negations_parse [OF n] by auto
  have "\<exists>e'. parse (canonical_source e) = Inr e' \<and> canonical_source e' = canonical_source e" if "n \<le> 64"
    using that canonical_reparses [OF nots_ok [of n]] nots_fit [OF n] e(2)
    by (auto simp: shape canonical_fits_def MAX_PARSE_DEPTH_def)
  moreover have "\<exists>s. parse (canonical_source e) =
      Inl (syntax_error (lit ''expression nesting exceeds 128-level limit'') s)" if "\<not> n \<le> 64"
    using that deep_negations_rejected [OF _ n] e(2)
    by (simp add: shape nesting_error_def MAX_PARSE_DEPTH_def)
  ultimately show ?thesis
    using e(1) by auto
qed

end
