(* ===== verification/Conditions.thy ===== *)
theory Conditions
  imports Expression_Canonical
begin

text \<open>
  Conditions on their way from a workflow to the engine. The compiler checks a condition and stores
  its canonical form (\<^verbatim>\<open>normalize_expression\<close>, \<^verbatim>\<open>crates/compiler/src/triggers.rs\<close>), joins the
  condition of a reusable call to those of the jobs it expands to (\<^verbatim>\<open>combine_conditions\<close>,
  \<^verbatim>\<open>crates/compiler/src/reusable/rewrite.rs\<close>), and the engine parses the stored text again when it
  admits a capsule and when it decides whether a job runs
  (\<^verbatim>\<open>crates/engine/src/{conditions.rs,validation/capsule.rs}\<close>).
\<close>

subsection \<open>Error messages\<close>

definition show_size :: "nat \<Rightarrow> str" where
  "show_size n = lit (show_nat n)"

definition display_at :: "str \<Rightarrow> Span \<Rightarrow> str" where
  "display_at message s = message @ lit '' at bytes '' @ show_size (sp_start s) @ lit ''..'' @ show_size (sp_end s)"

definition display_parse_error :: "ParseError \<Rightarrow> str" where
  "display_parse_error e = display_at (pe_message e) (pe_span e)"

fun display_value_type :: "ValueType \<Rightarrow> str" where
  "display_value_type NullType = lit ''null''"
| "display_value_type BooleanType = lit ''boolean''"
| "display_value_type NumberType = lit ''number''"
| "display_value_type StringType = lit ''string''"

fun display_eval_error_kind :: "EvalErrorKind \<Rightarrow> str" where
  "display_eval_error_kind (UnknownContext path) = lit ''unknown context path `'' @ path @ lit ''`''"
| "display_eval_error_kind (ExpectedBoolean operator found) =
     lit ''operator `'' @ operator @ lit ''` requires boolean, found '' @ display_value_type found"
| "display_eval_error_kind (Incomparable operator left right) =
     lit ''operator `'' @ operator @ lit ''` cannot compare '' @ display_value_type left @ lit '' with '' @
     display_value_type right"
| "display_eval_error_kind DepthLimitExceeded = lit ''evaluation depth limit exceeded''"

definition display_eval_error :: "EvalError \<Rightarrow> str" where
  "display_eval_error e = display_at (display_eval_error_kind (ee_kind e)) (ee_span e)"

fun display_value_error :: "ValueError \<Rightarrow> str" where
  "display_value_error NonFiniteNumber = lit ''expression numbers must be finite''"
| "display_value_error InexactNumberRange =
     lit ''expression numbers must stay within the exact range +/-9007199254740991''"

text \<open>Parsing fails with a \<^verbatim>\<open>ParseError\<close> only; the other outcomes of the model have no message.\<close>

fun display_parse_failure :: "ParseFailure \<Rightarrow> str" where
  "display_parse_failure (SyntaxError e) = display_parse_error e"
| "display_parse_failure Panic = []"
| "display_parse_failure OutOfFuel = []"

subsection \<open>The compiler\<close>

datatype CompileError = Semantic str str

definition ALLOWED_ROOTS :: "str list" where
  "ALLOWED_ROOTS =
     [lit ''event'', lit ''matrix'', lit ''vars'', lit ''inputs'', lit ''needs'', lit ''steps'', lit ''git'',
      lit ''success'', lit ''failure'', lit ''cancelled'']"

definition reference_root :: "str \<Rightarrow> str" where
  "reference_root reference = takeWhile (\<lambda>c. c \<noteq> 46) reference"

definition check_root :: "str \<Rightarrow> str \<Rightarrow> (CompileError, unit) result" where
  "check_root path reference =
     fail_if (reference_root reference \<notin> set ALLOWED_ROOTS)
       (Semantic path (lit ''unknown expression context root `'' @ reference_root reference @ lit ''`''))"

definition normalize_expression :: "str \<Rightarrow> str \<Rightarrow> (CompileError, str) result" where
  "normalize_expression source path =
     res_bind
       (map_err (\<lambda>failure. Semantic path (lit ''invalid typed expression: '' @ display_parse_failure failure))
         (parse source)) (\<lambda>e.
     res_bind (seq_checks (map (check_root path) (context_references e))) (\<lambda>_.
     res_bind
       (if context_references e = [] then
          res_bind
            (map_err
              (\<lambda>error. Semantic path (lit ''condition must evaluate to a boolean: '' @ display_eval_error error))
              (evaluate_bool e (resolve context_new)))
            (\<lambda>_. Inr ())
        else Inr ()) (\<lambda>_.
       Inr (canonical_source e))))"

definition combine_conditions :: "str \<Rightarrow> str option \<Rightarrow> (CompileError, str) result" where
  "combine_conditions parent child =
     (let combined =
        (case child of
           None \<Rightarrow> parent
         | Some child \<Rightarrow> lit ''('' @ parent @ lit '') && ('' @ child @ lit '')'') in
      map_err
        (\<lambda>failure. Semantic (lit ''if'') (lit ''invalid combined condition: '' @ display_parse_failure failure))
        (res_bind (parse combined) (\<lambda>e. Inr (canonical_source e))))"

subsection \<open>The engine\<close>

datatype ScalarValue = ScString str | ScInteger int | ScNumber f64 | ScBoolean bool

type_synonym RuntimeContext = "(str, ScalarValue) btree"

datatype EngineError = InvalidCondition str str

definition trim_start :: "str \<Rightarrow> str" where
  "trim_start s = dropWhile is_whitespace s"

definition trim :: "str \<Rightarrow> str" where
  "trim s = rev (trim_start (rev (trim_start s)))"

definition unwrap_expression :: "str \<Rightarrow> str" where
  "unwrap_expression s =
     (let s' = trim s in
      case Option.bind (strip_prefix (lit ''${{'') s') (strip_suffix (lit ''}}'')) of
        None \<Rightarrow> s'
      | Some inner \<Rightarrow> trim inner)"

fun expression_value :: "ScalarValue \<Rightarrow> (str, Value) result" where
  "expression_value (ScString s) = Inr (value_string s)"
| "expression_value (ScInteger n) = map_err display_value_error (value_integer n)"
| "expression_value (ScNumber x) = map_err display_value_error (value_number x)"
| "expression_value (ScBoolean b) = Inr (value_boolean b)"

fun insert_all ::
    "str \<Rightarrow> (str \<times> ScalarValue) list \<Rightarrow> ExpressionContext \<Rightarrow> (EngineError, ExpressionContext) result" where
  "insert_all condition [] c = Inr c"
| "insert_all condition ((path, v) # entries) c =
     res_bind (map_err (InvalidCondition condition) (expression_value v)) (\<lambda>value.
       insert_all condition entries (with_value path value c))"

text \<open>\<^verbatim>\<open>runtrue_expression::evaluate_bool\<close>, with the text of its error.\<close>

definition evaluate_bool_source :: "str \<Rightarrow> Resolver \<Rightarrow> (str, bool) result" where
  "evaluate_bool_source source resolver =
     res_bind (map_err display_parse_failure (parse source)) (\<lambda>e.
       map_err display_eval_error (evaluate_bool e resolver))"

definition evaluate_condition :: "str option \<Rightarrow> RuntimeContext \<Rightarrow> (EngineError, bool) result" where
  "evaluate_condition condition ctx =
     (case condition of
        None \<Rightarrow> Inr True
      | Some condition \<Rightarrow>
          res_bind (insert_all condition (bt_entries ctx) context_new) (\<lambda>expression_context.
            map_err (InvalidCondition condition)
              (evaluate_bool_source (unwrap_expression condition) (resolve expression_context))))"

definition validate_condition_syntax :: "str option \<Rightarrow> (EngineError, unit) result" where
  "validate_condition_syntax condition =
     (case condition of
        None \<Rightarrow> Inr ()
      | Some condition \<Rightarrow>
          map_err (\<lambda>failure. InvalidCondition condition (display_parse_failure failure))
            (res_bind (parse (unwrap_expression condition)) (\<lambda>_. Inr ())))"

subsection \<open>Stored text is left alone\<close>

lemma dropWhile_head: "s \<noteq> [] \<Longrightarrow> \<not> P (hd s) \<Longrightarrow> dropWhile P s = s"
  by (cases s) simp_all

lemma trim_edges: "s \<noteq> [] \<Longrightarrow> \<not> is_whitespace (hd s) \<Longrightarrow> \<not> is_whitespace (last s) \<Longrightarrow> trim s = s"
  by (simp add: trim_def trim_start_def dropWhile_head hd_rev)

definition edges_ok :: "str \<Rightarrow> bool" where
  "edges_ok s \<longleftrightarrow> s \<noteq> [] \<and> \<not> is_whitespace (hd s) \<and> hd s \<noteq> 36 \<and> \<not> is_whitespace (last s)"

lemma unwrap_edges: "edges_ok s \<Longrightarrow> unwrap_expression s = s"
proof -
  assume e: "edges_ok s"
  then have t: "trim s = s"
    by (simp add: edges_ok_def trim_edges)
  have "strip_prefix (lit ''${{'') s = None"
    using e by (cases s) (auto simp: edges_ok_def strip_prefix_def lit_def)
  then show ?thesis
    by (simp add: unwrap_expression_def t)
qed

lemma identifier_edges:
  assumes "is_identifier w"
  shows "edges_ok w"
proof -
  obtain c cs where w: "w = c # cs" "is_identifier_start c" "list_all is_identifier_continue cs"
    using assms by (cases w) (auto simp: is_identifier_def)
  have "is_identifier_continue (last w)"
    using w by (auto simp: list_all_iff is_identifier_start_def is_identifier_continue_def)
  then have "\<not> is_whitespace (last w)"
    by (auto simp: is_identifier_continue_def is_ascii_alphabetic_def is_ascii_digit_def is_whitespace_def)
  then show ?thesis
    using w word_character [OF w(2)] word_not_space by (auto simp: edges_ok_def)
qed

lemma edges_append: "edges_ok s \<Longrightarrow> edges_ok s' \<Longrightarrow> edges_ok (s @ c # s')"
  by (simp add: edges_ok_def)

lemma path_edges: "list_all is_identifier (w # ws) \<Longrightarrow> edges_ok (join_dots (w # ws))"
proof (induction ws arbitrary: w)
  case (Cons v ws)
  then show ?case
    using edges_append [of w "join_dots (v # ws)" 46] by (simp add: identifier_edges)
qed (simp add: identifier_edges)

lemma digit_edge: "is_ascii_digit c \<Longrightarrow> \<not> is_whitespace c \<and> c \<noteq> 36"
  by (auto simp: is_ascii_digit_def is_whitespace_def)

lemma decimal_edges:
  "decimal_text scale c \<noteq> []" "is_ascii_digit (hd (decimal_text scale c))" "is_ascii_digit (last (decimal_text scale c))"
proof -
  have whole: "lit (show_nat (c div 10 ^ scale)) \<noteq> []" "list_all is_ascii_digit (lit (show_nat (c div 10 ^ scale)))"
    by (simp_all add: show_nat_nonempty show_nat_digits)
  then show "decimal_text scale c \<noteq> []" "is_ascii_digit (hd (decimal_text scale c))"
    by (auto simp: decimal_text_def list_all_iff hd_append)
  have "scale \<noteq> 0 \<Longrightarrow> fixed_digits scale c \<noteq> []"
    by (metis length_fixed_digits list.size(3))
  then show "is_ascii_digit (last (decimal_text scale c))"
    using whole fixed_digits_digits [of scale c]
    by (auto simp: decimal_text_def list_all_iff)
qed

lemma text_edges: "tree_ok t \<Longrightarrow> edges_ok (tree_text t)"
proof (cases t)
  case (TLit v)
  assume ok: "tree_ok t"
  show ?thesis
  proof (cases v)
    case (NumberKind x)
    then have "exact_number x"
      using ok TLit by simp
    then obtain sign scale c where "write_canonical_literal (NumberKind x) = sign @ decimal_text scale c"
      "sign = [] \<or> sign = [45]"
      by (rule number_text)
    then show ?thesis
      using decimal_edges [of scale c] digit_edge TLit NumberKind minus_not_space
      by (auto simp: edges_ok_def simp del: write_canonical_literal.simps)
  next
    case (StringKind s)
    then show ?thesis
      using TLit by (simp add: edges_ok_def is_whitespace_def)
  qed (use TLit in \<open>simp_all add: edges_ok_def lit_def is_whitespace_def\<close>)
next
  case (TLookup path)
  assume "tree_ok t"
  then show ?thesis
    using path_edges TLookup by (cases path) auto
qed (simp_all add: edges_ok_def lit_def is_whitespace_def)

subsection \<open>Evaluating the stored text\<close>

lemma parsed_plain: "parse source = Inr e \<Longrightarrow> literals_plain (ex_root e)"
  by (erule parse_ok) (simp add: root_ok_def)

lemma evaluate_bool_Inr: "evaluate_bool e r = Inr b \<longleftrightarrow> (\<exists>v. evaluate e r = Inr v \<and> as_bool v = Some b)"
  by (auto simp: evaluate_bool_def res_simps)

lemma evaluate_bool_outcome:
  "outcome (evaluate e r) = outcome (evaluate e' r') \<Longrightarrow> evaluate_bool e r = Inr b \<longleftrightarrow> evaluate_bool e' r' = Inr b"
  by (metis evaluate_bool_Inr outcome_Inr)

lemma same_tree_same_value:
  assumes "parse source = Inr e" "parse source' = Inr e'" "tree_of (ex_root e) = tree_of (ex_root e')"
  shows "outcome (evaluate e r) = outcome (evaluate e' r)"
  unfolding evaluate_def
  by (rule outcome_tree [OF assms(3) parsed_plain [OF assms(1)] parsed_plain [OF assms(2)]])

lemma evaluate_condition_parsed:
  assumes "edges_ok c" "parse c = Inr e"
  shows "evaluate_condition (Some c) ctx = Inr b \<longleftrightarrow>
    (\<exists>xc. insert_all c (bt_entries ctx) context_new = Inr xc \<and> evaluate_bool e (resolve xc) = Inr b)"
  by (auto simp: evaluate_condition_def unwrap_edges [OF assms(1)] evaluate_bool_source_def assms(2) res_simps)

text \<open>Only its message mentions the condition a context is built for.\<close>

lemma insert_all_Inr:
  "insert_all c entries x = Inr y \<longleftrightarrow> insert_all c' entries x = Inr y"
proof (induction entries arbitrary: x)
  case (Cons p entries)
  then show ?case
    by (cases p) (auto simp: res_simps)
qed simp

text \<open>Evaluation that stays clear of the depth limit does not depend on where it starts.\<close>

lemma outcome_depth:
  assumes "depth + tree_depth (tree_of node) \<le> MAX_EVALUATION_DEPTH"
    "depth' + tree_depth (tree_of node) \<le> MAX_EVALUATION_DEPTH"
  shows "outcome (evaluate_node r depth node) = outcome (evaluate_node r depth' node)"
  using assms
proof (induction node arbitrary: depth depth')
  case (Unary operator operator_span operand s)
  then have "outcome (evaluate_node r (depth + 1) operand) = outcome (evaluate_node r (depth' + 1) operand)"
    by (intro Unary.IH) simp_all
  then show ?case
    using Unary.prems by (simp add: outcome_bind outcome_require)
next
  case (Binary operator operator_span left right s)
  have "outcome (evaluate_node r (depth + 1) left) = outcome (evaluate_node r (depth' + 1) left)"
    using Binary.prems by (intro Binary.IH(1)) simp_all
  moreover have "outcome (evaluate_node r (depth + 1) right) = outcome (evaluate_node r (depth' + 1) right)"
    using Binary.prems by (intro Binary.IH(2)) simp_all
  ultimately show ?case
    using Binary.prems outcome_binary by simp
qed simp_all

subsection \<open>From the compiler to the engine\<close>

lemma canonical_source_tree: "canonical_source e = tree_text (tree_of (ex_root e))"
  by (simp add: canonical_source_def write_canonical_tree)

text \<open>What the engine makes of a stored tree that fits the limits of the parser.\<close>

lemma evaluate_stored:
  assumes "tree_ok t" "canonical_fits t" "parse source = Inr e" "tree_of (ex_root e) = t"
  shows "evaluate_condition (Some (tree_text t)) ctx = Inr b \<longleftrightarrow>
    (\<exists>xc. insert_all [] (bt_entries ctx) context_new = Inr xc \<and> evaluate_bool e (resolve xc) = Inr b)"
proof -
  obtain e' where e': "parse (tree_text t) = Inr e'" "tree_of (ex_root e') = t"
    using canonical_reparses [OF assms(1, 2)] by blast
  have "evaluate_bool e' r = Inr b \<longleftrightarrow> evaluate_bool e r = Inr b" for r
    using e' assms(3, 4) by (intro evaluate_bool_outcome same_tree_same_value) auto
  then show ?thesis
    using evaluate_condition_parsed [OF text_edges [OF assms(1)] e'(1)] insert_all_Inr [of "tree_text t" _ _ _ "[]"]
    by simp
qed

lemma normalize_canonical:
  "normalize_expression source path = Inr c \<Longrightarrow> \<exists>e. parse source = Inr e \<and> c = canonical_source e"
  by (auto simp: normalize_expression_def res_simps)

lemma validate_stored:
  assumes "tree_ok t" "canonical_fits t"
  shows "validate_condition_syntax (Some (tree_text t)) = Inr ()"
  using canonical_reparses [OF assms] by (auto simp: validate_condition_syntax_def unwrap_edges [OF text_edges [OF assms(1)]])

subsection \<open>Joining conditions\<close>

definition combined_text :: "str \<Rightarrow> str \<Rightarrow> str" where
  "combined_text parent child = [40] @ parent @ [41] @ [32] @ lit ''&&'' @ [32] @ [40] @ child @ [41]"

definition combine_fits :: "Tree \<Rightarrow> Tree \<Rightarrow> bool" where
  "combine_fits t u \<longleftrightarrow>
     str_len (combined_text (tree_text t) (tree_text u)) \<le> MAX_EXPRESSION_BYTES \<and>
     length (tree_kinds t) + length (tree_kinds u) + 5 \<le> MAX_TOKENS \<and>
     max (tree_depth t) (tree_depth u) < MAX_PARSE_DEPTH"

lemma combine_fits_parts:
  assumes "combine_fits t u"
  shows "canonical_fits t" "canonical_fits u" "canonical_fits (TBin AndOp t u)"
  using assms
  by (auto simp: combine_fits_def canonical_fits_def combined_text_def lit_def len_utf8_def)

lemma combined_lex:
  assumes "tree_ok t" "tree_ok u"
  shows "lex_run (combined_text (tree_text t) (tree_text u)) []
    ([TkLeftParenthesis] @ tree_kinds t @ [TkRightParenthesis] @ [] @ [TkAnd] @ [] @ [TkLeftParenthesis] @
     tree_kinds u @ [TkRightParenthesis])"
proof -
  have t: "lex_run (tree_text t) ([41] @ rest) (tree_kinds t)" for rest
    using assms(1) by (rule lex_run_tree) (simp add: stops_def)
  have u: "lex_run (tree_text u) ([41] @ rest) (tree_kinds u)" for rest
    using assms(2) by (rule lex_run_tree) (simp add: stops_def)
  have conj: "lex_run (lit ''&&'') ([32] @ rest) [TkAnd]" for rest
    using lex_run_token [OF reads_operator, of AndOp rest] by simp
  have sp: "lex_run [32] rest []" "lex_run [40] rest [TkLeftParenthesis]" "lex_run [41] rest [TkRightParenthesis]" for rest
    by (simp_all add: lex_run_space lex_run_token reads_punctuation)
  show ?thesis
    unfolding combined_text_def
    by (intro lex_run_append) (simp_all only: append_assoc t u conj sp)
qed

lemma combined_derives:
  assumes "tree_ok t" "tree_ok u"
  shows "derives 0 (max (Suc (tree_depth t)) (Suc (tree_depth u)))
    ([TkLeftParenthesis] @ tree_kinds t @ [TkRightParenthesis] @ [] @ [TkAnd] @ [] @ [TkLeftParenthesis] @
     tree_kinds u @ [TkRightParenthesis]) (TBin AndOp t u)"
proof -
  have inner: "derives 4 (Suc (tree_depth v)) (TkLeftParenthesis # tree_kinds v @ [TkRightParenthesis]) v"
    if "tree_ok v" for v
    using climb_to [OF _ canonical_derives [OF that], of 0] by (intro derives.parens) simp
  have "derives 1 (Suc (tree_depth t)) (TkLeftParenthesis # tree_kinds t @ [TkRightParenthesis]) t"
    by (rule climb_to [OF _ inner [OF assms(1)]]) simp
  moreover have "derives (Suc 1) (Suc (tree_depth u)) (TkLeftParenthesis # tree_kinds u @ [TkRightParenthesis]) u"
    by (rule climb_to [OF _ inner [OF assms(2)]]) simp
  ultimately have "derives 1 (max (Suc (tree_depth t)) (Suc (tree_depth u)))
      ((TkLeftParenthesis # tree_kinds t @ [TkRightParenthesis]) @ TkAnd #
        TkLeftParenthesis # tree_kinds u @ [TkRightParenthesis]) (TBin AndOp t u)"
    by (intro derives.binary) (simp_all add: level_operator_def)
  from top_level [OF this] show ?thesis
    by simp
qed

lemma combined_parse:
  assumes "tree_ok t" "tree_ok u" "combine_fits t u"
  shows "\<exists>e. parse (combined_text (tree_text t) (tree_text u)) = Inr e \<and> tree_of (ex_root e) = TBin AndOp t u"
proof -
  let ?s = "combined_text (tree_text t) (tree_text u)"
  obtain ts where ts: "tokenize ?s = Inr ts" "map tk_kind (butlast ts) =
      [TkLeftParenthesis] @ tree_kinds t @ [TkRightParenthesis] @ [] @ [TkAnd] @ [] @ [TkLeftParenthesis] @
      tree_kinds u @ [TkRightParenthesis]"
    using lex_run_tokenize [OF combined_lex [OF assms(1, 2)]] assms(3) by (auto simp: combine_fits_def)
  have "stream_ok (str_len ?s) ts"
    using tokenize_ok [of ?s] ts(1) by simp
  moreover have "max (Suc (tree_depth t)) (Suc (tree_depth u)) \<le> MAX_PARSE_DEPTH"
    using assms(3) by (auto simp: combine_fits_def)
  ultimately obtain node where "parse_tokens ts = Inr node" "tree_of node = TBin AndOp t u"
    using parse_tokens_complete [of "str_len ?s" ts] combined_derives [OF assms(1, 2)] ts(2) by metis
  then show ?thesis
    using ts(1) assms(3) by (simp add: parse_def combine_fits_def)
qed

lemma combine_conditions_text:
  "combine_conditions parent (Some child) =
     map_err
       (\<lambda>failure. Semantic (lit ''if'') (lit ''invalid combined condition: '' @ display_parse_failure failure))
       (res_bind (parse (combined_text parent child)) (\<lambda>e. Inr (canonical_source e)))"
  by (simp add: combine_conditions_def combined_text_def lit_def)

lemma as_bool_iff: "as_bool v = Some b \<longleftrightarrow> v_kind v = BooleanKind b"
  by (auto simp: as_bool_def split: ValueKind.splits)

lemma evaluate_bool_and:
  assumes "ex_root e = Binary AndOp os l r s"
  shows "evaluate_bool e res = Inr b \<longleftrightarrow>
    (\<exists>v. evaluate_node res 1 l = Inr v \<and>
      (as_bool v = Some False \<and> \<not> b \<or>
       as_bool v = Some True \<and> (\<exists>w. evaluate_node res 1 r = Inr w \<and> as_bool w = Some b)))"
proof -
  have root: "evaluate e res = evaluate_binary AndOp os (evaluate_node res 1 l) (evaluate_node res 1 r)"
    by (simp add: evaluate_def assms MAX_EVALUATION_DEPTH_def)
  show ?thesis
  proof (cases "evaluate_node res 1 l")
    case (Inl e')
    then show ?thesis
      by (simp add: evaluate_bool_Inr root binary_left_error del: One_nat_def)
  next
    case (Inr v)
    have "evaluate e res = evaluate_binary AndOp os (Inr v) (evaluate_node res 1 r)"
      by (simp add: root Inr del: One_nat_def)
    then show ?thesis
      unfolding Inr evaluate_bool_Inr as_bool_iff
      by (cases "v_kind v")
        (auto simp: evaluate_binary_def require_boolean_known require_boolean_ok res_simps
          require_boolean_def [of v] simp del: One_nat_def split: if_splits)
  qed
qed

text \<open>
  C16: The engine decides what the author wrote. If the compiler accepts a condition and stores its
  canonical form, and that form is within the limits of the parser, then the engine admits the
  stored text, and in every runtime context it decides the stored condition exactly as the source
  text evaluates in the values of that context: the same truth value, or no decision where the
  source has none.
\<close>

theorem compiled_condition_agrees:
  assumes "normalize_expression source path = Inr c" "parse source = Inr e"
    "canonical_fits (tree_of (ex_root e))"
  shows "validate_condition_syntax (Some c) = Inr () \<and>
    (evaluate_condition (Some c) ctx = Inr b \<longleftrightarrow>
      (\<exists>xc. insert_all source (bt_entries ctx) context_new = Inr xc \<and> evaluate_bool e (resolve xc) = Inr b))"
proof -
  have c: "c = tree_text (tree_of (ex_root e))"
    using normalize_canonical [OF assms(1)] assms(2) by (auto simp: canonical_source_tree)
  note ok = parsed_tree_ok [OF assms(2)]
  show ?thesis
    unfolding c insert_all_Inr [of source _ _ _ "[]"]
    using validate_stored [OF ok assms(3)] evaluate_stored [OF ok assms(3, 2) refl, of ctx b] by blast
qed

text \<open>
  C17: A job of a reusable workflow runs only when the call and the job both say so. Joining the
  stored conditions of the call and of the job succeeds when the joined text is within the limits,
  and in every runtime context the engine decides the joined condition as the conjunction evaluated
  from the left: a call condition that is false settles it whatever the condition of the job does,
  one that is true leaves the decision to the job, and one that cannot be decided leaves it
  undecided.
\<close>

theorem combined_condition_conjoins:
  assumes "parse source = Inr e" "parse source' = Inr e'"
    "combine_fits (tree_of (ex_root e)) (tree_of (ex_root e'))"
  shows "\<exists>c. combine_conditions (canonical_source e) (Some (canonical_source e')) = Inr c \<and>
    (\<forall>ctx b. evaluate_condition (Some c) ctx = Inr b \<longleftrightarrow>
      evaluate_condition (Some (canonical_source e)) ctx = Inr False \<and> \<not> b \<or>
      evaluate_condition (Some (canonical_source e)) ctx = Inr True \<and>
      evaluate_condition (Some (canonical_source e')) ctx = Inr b)"
proof -
  let ?t = "tree_of (ex_root e)" and ?u = "tree_of (ex_root e')"
  note ok = parsed_tree_ok [OF assms(1)] parsed_tree_ok [OF assms(2)]
  note fits = combine_fits_parts [OF assms(3)]
  obtain x where x: "parse (combined_text (tree_text ?t) (tree_text ?u)) = Inr x"
    "tree_of (ex_root x) = TBin AndOp ?t ?u"
    using combined_parse [OF ok assms(3)] by blast
  then obtain os l r s where root: "ex_root x = Binary AndOp os l r s" "tree_of l = ?t" "tree_of r = ?u"
    by (cases "ex_root x") auto
  have "literals_plain l" "literals_plain r"
    using parsed_plain [OF x(1)] root(1) by simp_all
  then have l: "outcome (evaluate_node res 0 l) = outcome (evaluate e res)"
    and r: "outcome (evaluate_node res 0 r) = outcome (evaluate e' res)" for res
    unfolding evaluate_def using root parsed_plain assms(1, 2) by (blast intro: outcome_tree)+
  have "outcome (evaluate_node res 1 l) = outcome (evaluate_node res 0 l)"
    "outcome (evaluate_node res 1 r) = outcome (evaluate_node res 0 r)" for res
    using fits root(2, 3)
    by (auto intro!: outcome_depth simp: canonical_fits_def MAX_EVALUATION_DEPTH_def MAX_PARSE_DEPTH_def)
  with l r have parts: "(\<exists>v. evaluate_node res 1 l = Inr v \<and> as_bool v = Some c) \<longleftrightarrow> evaluate_bool e res = Inr c"
    "(\<exists>v. evaluate_node res 1 r = Inr v \<and> as_bool v = Some c) \<longleftrightarrow> evaluate_bool e' res = Inr c" for res c
    unfolding evaluate_bool_Inr by (metis outcome_Inr)+
  have and_iff: "evaluate_bool x res = Inr b \<longleftrightarrow>
      evaluate_bool e res = Inr False \<and> \<not> b \<or> evaluate_bool e res = Inr True \<and> evaluate_bool e' res = Inr b"
    for res b
    unfolding evaluate_bool_and [OF root(1)] parts [symmetric] by blast
  have "combine_conditions (canonical_source e) (Some (canonical_source e')) = Inr (tree_text (TBin AndOp ?t ?u))"
    using x by (simp add: combine_conditions_text canonical_source_tree del: tree_text.simps)
  moreover have "tree_ok (TBin AndOp ?t ?u)"
    using ok by simp
  note stored = evaluate_stored [OF this fits(3) x] evaluate_stored [OF ok(1) fits(1) assms(1) refl]
    evaluate_stored [OF ok(2) fits(2) assms(2) refl]
  have "evaluate_condition (Some (tree_text (TBin AndOp ?t ?u))) ctx = Inr b \<longleftrightarrow>
      evaluate_condition (Some (tree_text ?t)) ctx = Inr False \<and> \<not> b \<or>
      evaluate_condition (Some (tree_text ?t)) ctx = Inr True \<and>
      evaluate_condition (Some (tree_text ?u)) ctx = Inr b" for ctx b
    unfolding stored and_iff by (cases "insert_all [] (bt_entries ctx) context_new") auto
  ultimately show ?thesis
    unfolding canonical_source_tree [of e] canonical_source_tree [of e'] by blast
qed

end
