(* ===== verification/Expression_Examples.thy ===== *)
theory Expression_Examples
  imports Conditions
begin

text \<open>
  Conditions on concrete inputs: a guard as a workflow author writes it, the contexts it is evaluated
  in, and a condition that shows the precedence of the operators.
\<close>

subsection \<open>A guard and its contexts\<close>

definition guard_tree :: Tree where
  "guard_tree =
     TBin AndOp (TLookup [lit ''event'', lit ''ok''])
       (TBin NotEqualOp (TLookup [lit ''inputs'', lit ''mode'']) (TLit (StringKind (lit ''dry''))))"

definition no_span :: Span where
  "no_span = span_new 0 0"

definition guard_node :: SyntaxNode where
  "guard_node =
     Binary AndOp no_span (Lookup [lit ''event'', lit ''ok''] no_span)
       (Binary NotEqualOp no_span (Lookup [lit ''inputs'', lit ''mode''] no_span)
         (Literal (value_string (lit ''dry'')) no_span) no_span) no_span"

definition guard :: Expression where
  "guard = \<lparr>ex_source = tree_text guard_tree, ex_root = guard_node\<rparr>"

definition event_context :: "bool \<Rightarrow> ExpressionContext" where
  "event_context ok = with_value (lit ''event.ok'') (value_boolean ok) context_new"

definition secret_context :: "bool \<Rightarrow> ExpressionContext" where
  "secret_context ok =
     with_value (lit ''inputs.mode'') (mark_secret (value_string (lit ''wet''))) (event_context ok)"

lemma guard_node_tree: "tree_of guard_node = guard_tree"
  by (simp add: guard_node_def guard_tree_def value_string_def)

lemma guard_paths:
  "join_dots [lit ''event'', lit ''ok''] = lit ''event.ok''" "join_dots [lit ''inputs'', lit ''mode''] = lit ''inputs.mode''"
  "lit ''event.ok'' \<noteq> lit ''inputs.mode''" "lit ''inputs.mode'' \<noteq> lit ''event.ok''"
  by (simp_all add: lit_def)

lemma guard_tree_ok: "tree_ok guard_tree"
  by (simp add: guard_tree_def is_identifier_def lit_def is_identifier_start_def is_identifier_continue_def
      is_ascii_alphabetic_def keywords_of_values_def)

lemma guard_fits: "canonical_fits guard_tree"
  by (simp add: canonical_fits_def guard_tree_def MAX_EXPRESSION_BYTES_def MAX_TOKENS_def MAX_PARSE_DEPTH_def
      lit_def len_utf8_def canonical_char_def is_control_def dotted_def)

lemmas context_simps = secret_context_def event_context_def mark_secret_def with_taint_def context_new_def

lemma resolve_empty [simp]: "resolve bt_empty p = None"
  by (simp add: resolve_def)

lemma guard_parses: "\<exists>e. parse (tree_text guard_tree) = Inr e \<and> tree_of (ex_root e) = guard_tree"
  by (rule canonical_reparses [OF guard_tree_ok guard_fits])

lemma guard_closed: "evaluate guard (resolve (secret_context False)) = Inr (with_source (lit ''event.ok'') (value_boolean False))"
  by (simp add: guard_def guard_node_def evaluate_def context_simps lit_def evaluate_binary_def
      require_boolean_def value_boolean_def with_source_def MAX_EVALUATION_DEPTH_def res_simps add_source_def
      provenance_default_def)

theorem labels_sound_witness:
  "evaluate guard (resolve (event_context False)) = Inr (with_source (lit ''event.ok'') (value_boolean False))"
  by (rule labels_sound [OF guard_closed, of ta_secret])
    (auto simp: with_source_def value_boolean_def provenance_default_def add_source_def taint_trusted_def
      agrees_except_def context_simps)

definition open_value :: Value where
  "open_value =
     with_provenance \<lparr>pr_taint = taint_secret, pr_sources = [lit ''event.ok'', lit ''inputs.mode'']\<rparr> (value_boolean True)"

lemma guard_open: "evaluate guard (resolve (secret_context True)) = Inr open_value"
  by (simp add: guard_def guard_node_def evaluate_def context_simps lit_def evaluate_binary_def open_value_def
      require_boolean_def value_boolean_def value_string_def with_source_def MAX_EVALUATION_DEPTH_def res_simps
      add_source_def provenance_default_def with_provenance_def provenance_merge_def taint_merge_def
      taint_trusted_def taint_secret_def)

theorem sources_explain_witness:
  "evaluate guard (resolve (with_value (lit ''event.branch'') value_null (secret_context True))) = Inr open_value \<and>
   (\<exists>p w. join_dots p \<in> set (context_references guard) \<and> join_dots p \<in> set (value_sources open_value) \<and>
     resolve (secret_context True) p = Some w \<and> ta_secret (value_taint w))"
  using sources_explain [OF guard_open, of "resolve (with_value (lit ''event.branch'') value_null (secret_context True))" ta_secret]
  by (simp add: guard_def guard_node_def open_value_def with_provenance_def value_boolean_def value_string_def
      taint_secret_def provenance_default_def lit_def)

subsection \<open>Precedence\<close>

definition precedence_source :: str where
  "precedence_source = join_dots [lit ''a''] @ [32] @ lit ''||'' @ [32] @ join_dots [lit ''b''] @ [32] @ lit ''&&'' @ [32] @
     join_dots [lit ''c'']"

definition precedence_kinds :: "TokenKind list" where
  "precedence_kinds =
     [word_kind (lit ''a'')] @ [] @ [TkOr] @ [] @ [word_kind (lit ''b'')] @ [] @ [TkAnd] @ [] @ [word_kind (lit ''c'')]"

definition precedence_tree :: Tree where
  "precedence_tree =
     TBin OrOp (TLookup [lit ''a'']) (TBin AndOp (TLookup [lit ''b'']) (TLookup [lit ''c'']))"

lemma letter_lex: "c \<in> {''a'', ''b'', ''c''} \<Longrightarrow> stops rest \<Longrightarrow> lex_run (join_dots [lit c]) rest [word_kind (lit c)]"
  using lex_run_path [of "lit c" "[]" rest]
  by (auto simp: is_identifier_def lit_def is_identifier_start_def is_ascii_alphabetic_def dotted_def)

lemma precedence_lex: "lex_run precedence_source [] precedence_kinds"
proof -
  have conj: "lex_run (lit ''&&'') ([32] @ rest) [TkAnd]" "lex_run (lit ''||'') ([32] @ rest) [TkOr]" for rest
    using lex_run_token [OF reads_operator, of AndOp rest] lex_run_token [OF reads_operator, of OrOp rest] by simp_all
  have letter: "c \<in> {''a'', ''b'', ''c''} \<Longrightarrow> lex_run (join_dots [lit c]) ([32] @ rest) [word_kind (lit c)]"
    "c \<in> {''a'', ''b'', ''c''} \<Longrightarrow> lex_run (join_dots [lit c]) [] [word_kind (lit c)]" for c rest
    by (rule letter_lex; simp add: stops_def)+
  show ?thesis
    unfolding precedence_source_def precedence_kinds_def
    by (intro lex_run_append) (simp_all only: append_assoc letter conj lex_run_space insert_iff simp_thms)
qed

lemma letter_derives: "c \<in> {''a'', ''b'', ''c''} \<Longrightarrow> l \<le> 4 \<Longrightarrow> derives l 0 [word_kind (lit c)] (TLookup [lit c])"
  using derives.lookup [of "[]" "[]" "lit c"]
  by (auto intro!: climb_to simp: word_kind_def lit_def dotted_def)

lemma precedence_derives: "derives 0 0 precedence_kinds precedence_tree"
proof -
  have "derives 1 (max 0 0) ([word_kind (lit ''b'')] @ TkAnd # [word_kind (lit ''c'')])
      (TBin AndOp (TLookup [lit ''b'']) (TLookup [lit ''c'']))"
    by (intro derives.binary letter_derives) (simp_all add: level_operator_def)
  then have "derives 0 (max 0 0) ([word_kind (lit ''a'')] @ TkOr # [word_kind (lit ''b'')] @ TkAnd # [word_kind (lit ''c'')])
      precedence_tree"
    unfolding precedence_tree_def
    by (intro derives.binary letter_derives) (simp_all add: level_operator_def)
  then show ?thesis
    by (simp add: precedence_kinds_def)
qed

theorem parser_decides_grammar_witness:
  "\<exists>e. parse precedence_source = Inr e \<and> tree_of (ex_root e) = precedence_tree"
proof -
  obtain ts where ts: "tokenize precedence_source = Inr ts" "map tk_kind (butlast ts) = precedence_kinds"
    using precedence_lex by (rule lex_run_tokenize) (simp add: precedence_kinds_def MAX_TOKENS_def)
  have "str_len precedence_source \<le> MAX_EXPRESSION_BYTES"
    by (simp add: precedence_source_def lit_def len_utf8_def MAX_EXPRESSION_BYTES_def)
  from parser_decides_grammar [OF ts(1) this, of precedence_tree] show ?thesis
    using precedence_derives ts(2) by auto
qed

subsection \<open>The guard from source to engine\<close>

theorem canonical_roundtrip_witness:
  "\<exists>e e'. parse (tree_text guard_tree) = Inr e \<and> parse (canonical_source e) = Inr e' \<and>
     canonical_source e' = canonical_source e \<and> (\<forall>r. outcome (evaluate e' r) = outcome (evaluate e r))"
proof -
  obtain e where e: "parse (tree_text guard_tree) = Inr e" "tree_of (ex_root e) = guard_tree"
    using guard_parses by blast
  with canonical_roundtrip [OF e(1), THEN conjunct1] guard_fits show ?thesis
    by auto
qed

lemma guard_references:
  assumes "tree_of (ex_root e) = guard_tree"
  shows "context_references e = [lit ''event.ok'', lit ''inputs.mode'']"
proof -
  have "context_references e = bt_keys (collect_references guard_node bt_empty)"
    using references_tree [of "ex_root e" guard_node] assms by (simp add: guard_node_tree context_references_def)
  then show ?thesis
    by (simp add: guard_node_def lit_def) code_simp
qed

theorem compiled_condition_agrees_witness:
  "\<exists>e c. parse (tree_text guard_tree) = Inr e \<and> normalize_expression (tree_text guard_tree) (lit ''if'') = Inr c \<and>
     validate_condition_syntax (Some c) = Inr ()"
proof -
  obtain e where e: "parse (tree_text guard_tree) = Inr e" "tree_of (ex_root e) = guard_tree"
    using guard_parses by blast
  have "normalize_expression (tree_text guard_tree) (lit ''if'') = Inr (canonical_source e)"
    by (simp add: normalize_expression_def e(1) guard_references [OF e(2)] check_root_def reference_root_def
        ALLOWED_ROOTS_def lit_def fail_if_def res_simps)
  with compiled_condition_agrees [OF this e(1)] e guard_fits show ?thesis
    by auto
qed

theorem combined_condition_conjoins_witness:
  "\<exists>e c. parse (tree_text guard_tree) = Inr e \<and>
     combine_conditions (canonical_source e) (Some (canonical_source e)) = Inr c \<and>
     (\<forall>ctx. evaluate_condition (Some c) ctx = Inr True \<longleftrightarrow> evaluate_condition (Some (canonical_source e)) ctx = Inr True)"
proof -
  obtain e where e: "parse (tree_text guard_tree) = Inr e" "tree_of (ex_root e) = guard_tree"
    using guard_parses by blast
  have "combine_fits guard_tree guard_tree"
    by (simp add: combine_fits_def combined_text_def guard_tree_def MAX_EXPRESSION_BYTES_def MAX_TOKENS_def
        MAX_PARSE_DEPTH_def lit_def len_utf8_def canonical_char_def is_control_def dotted_def)
  with combined_condition_conjoins [OF e(1) e(1)] e show ?thesis
    by auto
qed

theorem canonical_not_reparsed_witness:
  "\<exists>e s. parse (negations 65) = Inr e \<and> parse (canonical_source e) =
     Inl (syntax_error (lit ''expression nesting exceeds 128-level limit'') s)"
  using canonical_not_reparsed [of 65] by auto

end
