(* ===== verification/Policy_Lifecycle.thy ===== *)
theory Policy_Lifecycle
  imports Exec_Validation Lifecycle
begin

text \<open>
  \<^verbatim>\<open>crates/policy/src/lifecycle.rs\<close>: the life of a policy version, from draft through test and shadow
  to enforcement and retirement, and the merge of the decisions of independently evaluated policies.
  The hash and the hexadecimal encoder are arguments, as in \<open>Model_Primitives\<close>.
\<close>

subsection \<open>Calls that check first\<close>

text \<open>
  The operations of this crate return the first failed check with the value as it is, or else the
  changed value.
\<close>

lemma checked_call:
  "(case m of Inl e \<Rightarrow> (Inl e, r) | Inr u \<Rightarrow> (Inr x, r1)) = (Inr s, r') \<longleftrightarrow> is_ok m \<and> s = x \<and> r' = r1"
  by (cases m) auto

lemma failed_call:
  "(case m of Inl e \<Rightarrow> (Inl e, r) | Inr u \<Rightarrow> (Inr x, r1)) = (Inl e', r') \<Longrightarrow> r' = r"
  by (cases m) auto

subsection \<open>Text checks\<close>

text \<open>
  \<^verbatim>\<open>str::trim().is_empty()\<close>: every character of the text has the Unicode property \<^verbatim>\<open>White_Space\<close>. The
  text is the list of its UTF-8 bytes, so a blank character is one of the following byte sequences.
\<close>

definition byte_in :: "char \<Rightarrow> nat list \<Rightarrow> bool" where
  "byte_in c bs \<longleftrightarrow> of_char c \<in> set bs"

definition blank1 :: "char \<Rightarrow> bool" where
  "blank1 a \<longleftrightarrow> byte_in a [9, 10, 11, 12, 13, 32]"

definition blank2 :: "char \<Rightarrow> char \<Rightarrow> bool" where
  "blank2 a b \<longleftrightarrow> byte_in a [0xC2] \<and> byte_in b [0x85, 0xA0]"

definition blank3 :: "char \<Rightarrow> char \<Rightarrow> char \<Rightarrow> bool" where
  "blank3 a b c \<longleftrightarrow>
     byte_in a [0xE1] \<and> byte_in b [0x9A] \<and> byte_in c [0x80] \<or>
     byte_in a [0xE2] \<and> byte_in b [0x80] \<and>
       byte_in c ([0x80..<0x8B] @ [0xA8, 0xA9, 0xAF]) \<or>
     byte_in a [0xE2] \<and> byte_in b [0x81] \<and> byte_in c [0x9F] \<or>
     byte_in a [0xE3] \<and> byte_in b [0x80] \<and> byte_in c [0x80]"

fun is_blank :: "string \<Rightarrow> bool" where
  "is_blank [] = True"
| "is_blank [a] = blank1 a"
| "is_blank [a, b] = (if blank1 a then is_blank [b] else blank2 a b)"
| "is_blank (a # b # c # s) =
     (if blank1 a then is_blank (b # c # s)
      else if blank2 a b then is_blank (c # s)
      else blank3 a b c \<and> is_blank s)"

definition MAX_POLICY_SOURCE_BYTES :: nat where
  "MAX_POLICY_SOURCE_BYTES = 1024 * 1024"

definition MAX_POLICY_DIAGNOSTICS :: nat where
  "MAX_POLICY_DIAGNOSTICS = 1000"

definition MAX_POLICY_DIAGNOSTIC_BYTES :: nat where
  "MAX_POLICY_DIAGNOSTIC_BYTES = 4096"

datatype PolicyLifecycleError =
    PL_InvalidIdentifier string
  | PL_InvalidVersion
  | PL_InvalidDiagnostics
  | PL_InvalidTransition string
  | PL_NotValidated
  | PL_ValidationFailed
  | PL_ActivationEvidenceRequired
  | PL_SeparationOfDuties
  | PL_SourceDigestMismatch
  | PL_DuplicateEvaluation string
  | PL_InactiveEvaluation string

definition pl_identifier :: "string \<Rightarrow> string \<Rightarrow> (PolicyLifecycleError, unit) result" where
  "pl_identifier kind s =
     fail_if (s = [] \<or> length s > MAX_POLICY_DIAGNOSTIC_BYTES \<or> list_ex is_ascii_control s)
       (PL_InvalidIdentifier kind)"

definition pl_diagnostics :: "string list \<Rightarrow> (PolicyLifecycleError, unit) result" where
  "pl_diagnostics values =
     fail_if
       (length values > MAX_POLICY_DIAGNOSTICS \<or>
        list_ex (\<lambda>s. s = [] \<or> length s > MAX_POLICY_DIAGNOSTIC_BYTES \<or> CHR 0x00 \<in> set s) values)
       PL_InvalidDiagnostics"

subsection \<open>Versions\<close>

datatype PolicyLayer =
    Layer_Authorization | Layer_Admission | Layer_Execution | Layer_Secret | Layer_Network
  | Layer_CacheArtifact | Layer_Environment | Layer_SupplyChain | Layer_Operational

datatype PolicyVersionStatus = PV_Draft | PV_Test | PV_Shadow | PV_Enforce | PV_Retired

record PolicyValidationReport =
  vr_schema_digest :: ContentDigest
  vr_validator_version :: string
  vr_errors :: "string list"
  vr_warnings :: "string list"
  vr_validated_unix_ms :: u64

definition report_is_valid :: "PolicyValidationReport \<Rightarrow> bool" where
  "report_is_valid r \<longleftrightarrow> vr_errors r = []"

definition report_validate :: "PolicyValidationReport \<Rightarrow> (PolicyLifecycleError, unit) result" where
  "report_validate r =
     seq_checks
       [pl_identifier ''validator version'' (vr_validator_version r),
        pl_diagnostics (vr_errors r),
        pl_diagnostics (vr_warnings r)]"

record PolicyActivationEvidence =
  ev_simulation_digest :: ContentDigest
  ev_approval_id :: string
  ev_approved_by :: string
  ev_approved_unix_ms :: u64

definition activation_evidence_validate :: "PolicyActivationEvidence \<Rightarrow> u64 \<Rightarrow> (PolicyLifecycleError, unit) result" where
  "activation_evidence_validate e created_unix_ms =
     seq_checks
       [pl_identifier ''policy approval id'' (ev_approval_id e),
        pl_identifier ''policy approver'' (ev_approved_by e),
        fail_if (ev_approved_unix_ms e < created_unix_ms)
          (PL_InvalidTransition ''policy approval predates the version'')]"

record PolicyVersion =
  pv_id :: string
  pv_policy_id :: string
  pv_version :: u64
  pv_layer :: PolicyLayer
  pv_source :: string
  pv_source_digest :: ContentDigest
  pv_author_id :: string
  pv_security_critical :: bool
  pv_status :: PolicyVersionStatus
  pv_created_unix_ms :: u64
  pv_validation :: "PolicyValidationReport option"
  pv_activation :: "PolicyActivationEvidence option"

record NewPolicyVersion =
  np_id :: string
  np_policy_id :: string
  np_version :: u64
  np_layer :: PolicyLayer
  np_source :: string
  np_author_id :: string
  np_security_critical :: bool
  np_created_unix_ms :: u64

text \<open>\<^verbatim>\<open>str::as_bytes\<close>\<close>

definition as_bytes :: "string \<Rightarrow> u8 list" where
  "as_bytes s = map of_char s"

type_synonym digester = "u8 list \<Rightarrow> ContentDigest"

definition policy_version_new :: "digester \<Rightarrow> NewPolicyVersion \<Rightarrow> (PolicyLifecycleError, PolicyVersion) result" where
  "policy_version_new digest new =
     res_bind
       (seq_checks
         [pl_identifier ''policy version id'' (np_id new),
          pl_identifier ''policy id'' (np_policy_id new),
          pl_identifier ''policy author'' (np_author_id new),
          fail_if
            (np_version new = 0 \<or> is_blank (np_source new) \<or> length (np_source new) > MAX_POLICY_SOURCE_BYTES)
            PL_InvalidVersion])
       (\<lambda>_.
         Inr \<lparr>pv_id = np_id new, pv_policy_id = np_policy_id new, pv_version = np_version new,
              pv_layer = np_layer new, pv_source = np_source new,
              pv_source_digest = digest (as_bytes (np_source new)), pv_author_id = np_author_id new,
              pv_security_critical = np_security_critical new, pv_status = PV_Draft,
              pv_created_unix_ms = np_created_unix_ms new, pv_validation = None, pv_activation = None\<rparr>)"

definition record_validation ::
    "PolicyValidationReport \<Rightarrow> PolicyVersion \<Rightarrow> (PolicyLifecycleError, unit) result \<times> PolicyVersion" where
  "record_validation report v =
     (case seq_checks
         [fail_if (pv_status v \<noteq> PV_Draft)
            (PL_InvalidTransition ''validation can be recorded only on a draft''),
          report_validate report,
          fail_if (vr_validated_unix_ms report < pv_created_unix_ms v)
            (PL_InvalidTransition ''validation predates the policy version'')] of
        Inl e \<Rightarrow> (Inl e, v)
      | Inr _ \<Rightarrow> (Inr (), v\<lparr>pv_validation := Some report\<rparr>))"

definition transition_allowed :: "PolicyVersionStatus \<Rightarrow> PolicyVersionStatus \<Rightarrow> bool" where
  "transition_allowed status target \<longleftrightarrow>
     (status, target) \<in>
       {(PV_Draft, PV_Test), (PV_Test, PV_Shadow), (PV_Shadow, PV_Enforce), (PV_Draft, PV_Retired),
        (PV_Test, PV_Retired), (PV_Shadow, PV_Retired), (PV_Enforce, PV_Retired)}"

definition pv_transition ::
    "PolicyVersionStatus \<Rightarrow> PolicyActivationEvidence option \<Rightarrow> PolicyVersion \<Rightarrow>
     (PolicyLifecycleError, unit) result \<times> PolicyVersion" where
  "pv_transition target evidence v =
     (case
        res_bind
          (fail_if (\<not> transition_allowed (pv_status v) target)
            (PL_InvalidTransition ''policy lifecycle transition is not allowed'')) (\<lambda>_.
        res_bind (ok_or (pv_validation v) PL_NotValidated) (\<lambda>validation.
        res_bind (fail_if (\<not> report_is_valid validation) PL_ValidationFailed) (\<lambda>_.
          if target = PV_Enforce then
            res_bind (ok_or evidence PL_ActivationEvidenceRequired) (\<lambda>e.
            res_bind (activation_evidence_validate e (pv_created_unix_ms v)) (\<lambda>_.
            res_bind (fail_if (ev_approved_by e = pv_author_id v) PL_SeparationOfDuties) (\<lambda>_.
              Inr (Some e))))
          else
            res_bind
              (fail_if (evidence \<noteq> None)
                (PL_InvalidTransition ''activation evidence is accepted only when enforcing''))
              (\<lambda>_. Inr (pv_activation v)))))
      of
        Inl e \<Rightarrow> (Inl e, v)
      | Inr activation \<Rightarrow> (Inr (), v\<lparr>pv_activation := activation, pv_status := target\<rparr>))"

definition verify_source :: "digester \<Rightarrow> PolicyVersion \<Rightarrow> (PolicyLifecycleError, unit) result" where
  "verify_source digest v =
     fail_if (digest (as_bytes (pv_source v)) \<noteq> pv_source_digest v) PL_SourceDigestMismatch"

subsection \<open>Merging decisions\<close>

datatype EvaluationEffect = Permit | Deny | NotApplicable | EvaluationFailed

record LayerEvaluation =
  le_policy_version_id :: string
  le_layer :: PolicyLayer
  le_mode :: PolicyVersionStatus
  le_effect :: EvaluationEffect
  le_diagnostic_code :: "string option"

record MergedPolicyDecision =
  md_allowed :: bool
  md_permitting_versions :: "string list"
  md_denying_versions :: "string list"
  md_error_versions :: "string list"
  md_shadow_denials :: "string list"

record merge_state =
  ms_seen :: "string bset"
  ms_permits :: "string list"
  ms_denies :: "string list"
  ms_errors :: "string list"
  ms_shadow :: "string list"

definition merge_start :: merge_state where
  "merge_start = \<lparr>ms_seen = bt_empty, ms_permits = [], ms_denies = [], ms_errors = [], ms_shadow = []\<rparr>"

definition merge_one :: "LayerEvaluation \<Rightarrow> merge_state \<Rightarrow> (PolicyLifecycleError, merge_state) result" where
  "merge_one e m =
     (let i = le_policy_version_id e in
      res_bind (pl_identifier ''evaluated policy version'' i) (\<lambda>_.
      res_bind (fail_if (bs_mem i (ms_seen m)) (PL_DuplicateEvaluation i)) (\<lambda>_.
      let m = m\<lparr>ms_seen := bs_insert i (ms_seen m)\<rparr> in
      res_bind
        (case le_diagnostic_code e of
           None \<Rightarrow> Inr () | Some code \<Rightarrow> pl_identifier ''policy diagnostic code'' code) (\<lambda>_.
        case (le_mode e, le_effect e) of
          (PV_Enforce, Permit) \<Rightarrow> Inr (m\<lparr>ms_permits := ms_permits m @ [i]\<rparr>)
        | (PV_Enforce, Deny) \<Rightarrow> Inr (m\<lparr>ms_denies := ms_denies m @ [i]\<rparr>)
        | (PV_Enforce, EvaluationFailed) \<Rightarrow> Inr (m\<lparr>ms_errors := ms_errors m @ [i]\<rparr>)
        | (PV_Shadow, Deny) \<Rightarrow> Inr (m\<lparr>ms_shadow := ms_shadow m @ [i]\<rparr>)
        | (PV_Shadow, EvaluationFailed) \<Rightarrow> Inr (m\<lparr>ms_shadow := ms_shadow m @ [i]\<rparr>)
        | (PV_Draft, _) \<Rightarrow> Inl (PL_InactiveEvaluation i)
        | (PV_Retired, _) \<Rightarrow> Inl (PL_InactiveEvaluation i)
        | _ \<Rightarrow> Inr m))))"

fun merge_loop :: "LayerEvaluation list \<Rightarrow> merge_state \<Rightarrow> (PolicyLifecycleError, merge_state) result" where
  "merge_loop [] m = Inr m"
| "merge_loop (e # es) m = res_bind (merge_one e m) (merge_loop es)"

definition merge_policy_evaluations ::
    "LayerEvaluation list \<Rightarrow> (PolicyLifecycleError, MergedPolicyDecision) result" where
  "merge_policy_evaluations evaluations =
     res_bind (merge_loop evaluations merge_start) (\<lambda>m.
       Inr \<lparr>md_allowed = (ms_permits m \<noteq> [] \<and> ms_denies m = [] \<and> ms_errors m = []),
            md_permitting_versions = ms_permits m, md_denying_versions = ms_denies m,
            md_error_versions = ms_errors m, md_shadow_denials = ms_shadow m\<rparr>)"

subsection \<open>The table of a version\<close>

fun version_rank :: "PolicyVersionStatus \<Rightarrow> nat" where
  "version_rank PV_Draft = 4"
| "version_rank PV_Test = 3"
| "version_rank PV_Shadow = 2"
| "version_rank PV_Enforce = 1"
| "version_rank PV_Retired = 0"

interpretation policy_version: ranked_lifecycle transition_allowed "\<lambda>s. s = PV_Retired" version_rank
proof (unfold_locales, goal_cases)
  case (2 s)
  then show ?case
    by (intro exI [of _ PV_Retired]) (cases s; simp add: transition_allowed_def)
qed (auto simp: transition_allowed_def)

subsection \<open>Every enforced version was reviewed\<close>

text \<open>A call of one of the two operations that change a version, whether it succeeds or not.\<close>

inductive version_step :: "PolicyVersion \<Rightarrow> PolicyVersion \<Rightarrow> bool" where
  validates: "version_step v (snd (record_validation report v))"
| transitions: "version_step v (snd (pv_transition target evidence v))"

inductive_cases version_stepE: "version_step v v'"

definition validated :: "PolicyVersion \<Rightarrow> bool" where
  "validated v \<longleftrightarrow>
     (\<exists>r. pv_validation v = Some r \<and> report_is_valid r \<and> pv_created_unix_ms v \<le> vr_validated_unix_ms r)"

definition independently_approved :: "PolicyVersion \<Rightarrow> bool" where
  "independently_approved v \<longleftrightarrow>
     (\<exists>e. pv_activation v = Some e \<and> ev_approved_by e \<noteq> pv_author_id v \<and>
       pv_created_unix_ms v \<le> ev_approved_unix_ms e)"

text \<open>What creation fixes for good.\<close>

definition same_policy :: "PolicyVersion \<Rightarrow> PolicyVersion \<Rightarrow> bool" where
  "same_policy v v' \<longleftrightarrow>
     (pv_id v', pv_policy_id v', pv_version v', pv_layer v', pv_source v', pv_source_digest v') =
     (pv_id v, pv_policy_id v, pv_version v, pv_layer v, pv_source v, pv_source_digest v) \<and>
     (pv_author_id v', pv_security_critical v', pv_created_unix_ms v') =
     (pv_author_id v, pv_security_critical v, pv_created_unix_ms v)"

definition version_ok :: "PolicyVersion \<Rightarrow> bool" where
  "version_ok v \<longleftrightarrow>
     (\<forall>r. pv_validation v = Some r \<longrightarrow> pv_created_unix_ms v \<le> vr_validated_unix_ms r) \<and>
     (pv_status v \<noteq> PV_Draft \<longrightarrow> validated v) \<and>
     (pv_status v = PV_Enforce \<longrightarrow> independently_approved v) \<and>
     (pv_activation v \<noteq> None \<longrightarrow> independently_approved v \<and> pv_status v \<in> {PV_Enforce, PV_Retired})"

lemma record_validation_cases:
  "record_validation report v = (Inr (), v\<lparr>pv_validation := Some report\<rparr>) \<and> pv_status v = PV_Draft \<and>
     pv_created_unix_ms v \<le> vr_validated_unix_ms report \<or>
   (\<exists>e. record_validation report v = (Inl e, v))"
  by (cases "seq_checks
         [fail_if (pv_status v \<noteq> PV_Draft)
            (PL_InvalidTransition ''validation can be recorded only on a draft''),
          report_validate report,
          fail_if (vr_validated_unix_ms report < pv_created_unix_ms v)
            (PL_InvalidTransition ''validation predates the policy version'')]")
    (auto simp: record_validation_def res_simps)

lemma pv_transition_ok:
  assumes "pv_transition target evidence v = (Inr (), v')"
  obtains activation where "v' = v\<lparr>pv_activation := activation, pv_status := target\<rparr>"
    "transition_allowed (pv_status v) target" "\<exists>r. pv_validation v = Some r \<and> report_is_valid r"
    "if target = PV_Enforce
     then \<exists>e. activation = Some e \<and> ev_approved_by e \<noteq> pv_author_id v \<and>
       pv_created_unix_ms v \<le> ev_approved_unix_ms e
     else activation = pv_activation v"
  using assms unfolding pv_transition_def
  by (auto simp: res_simps activation_evidence_validate_def not_less split: sum.splits if_splits)

lemma pv_transition_cases:
  "fst (pv_transition target evidence v) = Inr () \<or> snd (pv_transition target evidence v) = v"
  unfolding pv_transition_def by (auto split: sum.split)

lemma version_step_ok:
  assumes "version_step v v'" "version_ok v"
  shows "version_ok v' \<and> same_policy v v'"
  using assms(1)
proof cases
  case (validates report)
  then show ?thesis
    using assms(2) record_validation_cases [of report v]
    by (auto simp: version_ok_def same_policy_def independently_approved_def)
next
  case (transitions target evidence)
  show ?thesis
  proof (cases "fst (pv_transition target evidence v) = Inr ()")
    case True
    then have "pv_transition target evidence v = (Inr (), v')"
      using transitions by (metis prod.collapse)
    then obtain activation where facts: "v' = v\<lparr>pv_activation := activation, pv_status := target\<rparr>"
      "transition_allowed (pv_status v) target" "\<exists>r. pv_validation v = Some r \<and> report_is_valid r"
      "if target = PV_Enforce
       then \<exists>e. activation = Some e \<and> ev_approved_by e \<noteq> pv_author_id v \<and>
         pv_created_unix_ms v \<le> ev_approved_unix_ms e
       else activation = pv_activation v"
      by (rule pv_transition_ok)
    show ?thesis
      unfolding facts(1) using facts(2-4) assms(2)
      by (auto simp: version_ok_def same_policy_def validated_def independently_approved_def transition_allowed_def
          split: if_splits)
  next
    case False
    then show ?thesis
      using transitions assms(2) pv_transition_cases [of target evidence v] by (auto simp: same_policy_def)
  qed
qed

lemma version_new_ok:
  assumes "policy_version_new digest new = Inr v"
  shows "version_ok v" "verify_source digest v = Inr ()"
  using assms by (auto simp: policy_version_new_def version_ok_def verify_source_def res_simps)

lemma version_reach_ok:
  assumes "version_step\<^sup>*\<^sup>* v v'" "version_ok v"
  shows "version_ok v' \<and> same_policy v v'"
  using assms
proof (induction rule: rtranclp_induct)
  case (step u w)
  then show ?case
    using version_step_ok [of u w] by (auto simp: same_policy_def)
qed (simp add: same_policy_def)

text \<open>
  No policy version is enforced without review. Whatever calls are made on a version after its
  creation, and whether they succeed or fail, its text, digest, author and identity are those it was
  created with, so its source verifies; once it has left the draft state it carries a validation
  report without errors that does not predate it; and while it is enforced it carries an approval
  by someone other than its author that does not predate it either.
\<close>

theorem enforced_policy_reviewed:
  assumes "policy_version_new digest new = Inr v" "version_step\<^sup>*\<^sup>* v v'"
  shows "same_policy v v' \<and> verify_source digest v' = Inr () \<and>
    (pv_status v' \<noteq> PV_Draft \<longrightarrow> validated v') \<and>
    (pv_status v' = PV_Enforce \<longrightarrow> independently_approved v')"
proof -
  have "version_ok v' \<and> same_policy v v'"
    by (rule version_reach_ok [OF assms(2) version_new_ok(1) [OF assms(1)]])
  then show ?thesis
    using version_new_ok(2) [OF assms(1)] by (simp add: version_ok_def same_policy_def verify_source_def)
qed

subsection \<open>Merging, exactly\<close>

definition evaluation_ok :: "LayerEvaluation \<Rightarrow> bool" where
  "evaluation_ok e \<longleftrightarrow>
     pl_identifier ''evaluated policy version'' (le_policy_version_id e) = Inr () \<and>
     (case le_diagnostic_code e of
        None \<Rightarrow> True | Some code \<Rightarrow> pl_identifier ''policy diagnostic code'' code = Inr ()) \<and>
     le_mode e \<notin> {PV_Draft, PV_Retired}"

definition evaluations_ok :: "LayerEvaluation list \<Rightarrow> bool" where
  "evaluations_ok es \<longleftrightarrow> list_all evaluation_ok es \<and> distinct (map le_policy_version_id es)"

definition versions :: "PolicyVersionStatus \<Rightarrow> EvaluationEffect set \<Rightarrow> LayerEvaluation list \<Rightarrow> string list" where
  "versions mode effects es =
     map le_policy_version_id (filter (\<lambda>e. le_mode e = mode \<and> le_effect e \<in> effects) es)"

definition merge_result :: "LayerEvaluation list \<Rightarrow> merge_state \<Rightarrow> merge_state" where
  "merge_result es m =
     \<lparr>ms_seen = fold bs_insert (map le_policy_version_id es) (ms_seen m),
      ms_permits = ms_permits m @ versions PV_Enforce {Permit} es,
      ms_denies = ms_denies m @ versions PV_Enforce {Deny} es,
      ms_errors = ms_errors m @ versions PV_Enforce {EvaluationFailed} es,
      ms_shadow = ms_shadow m @ versions PV_Shadow {Deny, EvaluationFailed} es\<rparr>"

lemma pl_identifier_unit: "pl_identifier kind s = Inr u \<longleftrightarrow> pl_identifier kind s = Inr ()"
  by simp

lemma merge_one_ok:
  "merge_one e m = Inr m' \<longleftrightarrow>
     evaluation_ok e \<and> \<not> bs_mem (le_policy_version_id e) (ms_seen m) \<and> m' = merge_result [e] m"
proof (cases "le_mode e")
  case PV_Enforce
  then show ?thesis
    by (cases "le_effect e")
      (auto simp: merge_one_def Let_def res_simps evaluation_ok_def merge_result_def versions_def split: option.splits)
next
  case PV_Shadow
  then show ?thesis
    by (cases "le_effect e")
      (auto simp: merge_one_def Let_def res_simps evaluation_ok_def merge_result_def versions_def split: option.splits)
qed (auto simp: merge_one_def Let_def res_simps evaluation_ok_def merge_result_def versions_def split: option.splits)

lemma merge_result_append: "merge_result es (merge_result es' m) = merge_result (es' @ es) m"
  by (simp add: merge_result_def versions_def)

lemma merge_loop_ok:
  "merge_loop es m = Inr m' \<longleftrightarrow>
     evaluations_ok es \<and> (\<forall>e\<in>set es. \<not> bs_mem (le_policy_version_id e) (ms_seen m)) \<and>
     m' = merge_result es m"
proof (induction es arbitrary: m)
  case Nil
  then show ?case
    by (auto simp: evaluations_ok_def merge_result_def versions_def)
next
  case (Cons e es)
  have seen: "bs_mem i (ms_seen (merge_result [e] m)) \<longleftrightarrow> i = le_policy_version_id e \<or> bs_mem i (ms_seen m)" for i
    by (simp add: merge_result_def)
  show ?case
    by (auto simp: res_simps merge_one_ok Cons.IH seen merge_result_append evaluations_ok_def) (metis imageI)
qed

text \<open>
  Denials override, and errors deny. Merging succeeds exactly when every evaluation is well
  formed, no version is evaluated twice and none of them is a draft or retired. Then the access is
  allowed exactly when some enforced version permits it and no enforced version denies it or fails;
  what versions in test or shadow say has no influence, and the lists of the decision name exactly
  the versions that permitted, denied or failed, in order.
\<close>

theorem merged_decision_exact:
  "merge_policy_evaluations es = Inr d \<longleftrightarrow>
     evaluations_ok es \<and>
     (md_allowed d \<longleftrightarrow>
       (\<exists>e\<in>set es. le_mode e = PV_Enforce \<and> le_effect e = Permit) \<and>
       \<not> (\<exists>e\<in>set es. le_mode e = PV_Enforce \<and> le_effect e \<in> {Deny, EvaluationFailed})) \<and>
     md_permitting_versions d = versions PV_Enforce {Permit} es \<and>
     md_denying_versions d = versions PV_Enforce {Deny} es \<and>
     md_error_versions d = versions PV_Enforce {EvaluationFailed} es \<and>
     md_shadow_denials d = versions PV_Shadow {Deny, EvaluationFailed} es"
proof -
  have loop: "merge_loop es merge_start = Inr m \<longleftrightarrow> evaluations_ok es \<and> m = merge_result es merge_start" for m
    by (auto simp: merge_loop_ok merge_start_def)
  have nonempty: "versions mode effects es = [] \<longleftrightarrow> \<not> (\<exists>e\<in>set es. le_mode e = mode \<and> le_effect e \<in> effects)"
    for mode effects
    by (auto simp: versions_def filter_empty_conv)
  have result: "merge_policy_evaluations es = Inr d \<longleftrightarrow> evaluations_ok es \<and>
      (let m = merge_result es merge_start in
       \<lparr>md_allowed = (ms_permits m \<noteq> [] \<and> ms_denies m = [] \<and> ms_errors m = []),
        md_permitting_versions = ms_permits m, md_denying_versions = ms_denies m,
        md_error_versions = ms_errors m, md_shadow_denials = ms_shadow m\<rparr> = d)"
    by (auto simp: merge_policy_evaluations_def res_simps loop Let_def)
  show ?thesis
    unfolding result by (cases d) (auto simp: Let_def merge_result_def merge_start_def nonempty)
qed

end
