(* ===== verification/Break_Glass.thy ===== *)
theory Break_Glass
  imports Policy_Lifecycle
begin

unbundle bit_operations_syntax

text \<open>
  \<^verbatim>\<open>crates/policy/src/break_glass\<close>: emergency authorization of one exact action. A request waits for an
  independent approval where one is required, then for an acknowledged notification, and is then
  good for one use before it expires. A stored request is checked by replaying its evidence.
\<close>

subsection \<open>Requests\<close>

datatype BreakGlassStatus =
  BG_PendingApproval | BG_PendingNotification | BG_Active | BG_Denied | BG_Expired | BG_Consumed

datatype BreakGlassError =
    BG_InvalidText string
  | BG_PermanentlyForbiddenAction string
  | BG_InvalidDuration
  | BG_RecentMfaRequired
  | BG_InvalidApproverSet
  | BG_InvalidState BreakGlassStatus
  | BG_SubjectMismatch
  | BG_IneligibleApprover
  | BG_InvalidDecisionTime
  | BG_InvalidNotificationTime
  | BG_IntegrityMismatch

definition MAX_BREAK_GLASS_DURATION_MS :: u64 where
  "MAX_BREAK_GLASS_DURATION_MS = 15 * 60 * 1000"

definition MAX_BREAK_GLASS_MFA_AGE_MS :: u64 where
  "MAX_BREAK_GLASS_MFA_AGE_MS = 5 * 60 * 1000"

definition MAX_BREAK_GLASS_TEXT_BYTES :: nat where
  "MAX_BREAK_GLASS_TEXT_BYTES = 2000"

definition MAX_BREAK_GLASS_APPROVERS :: nat where
  "MAX_BREAK_GLASS_APPROVERS = 1000"

definition NEVER_BREAK_GLASS_ACTIONS :: "string list" where
  "NEVER_BREAK_GLASS_ACTIONS =
     [''RevealNonExportableSigningKey'', ''DeleteAuditEvent'', ''SuppressAuditEvent'']"

record NewBreakGlassRequest =
  nb_id :: string
  nb_tenant_id :: string
  nb_requester_id :: string
  nb_action :: string
  nb_resource_kind :: string
  nb_resource_id :: string
  nb_reason :: string
  nb_incident_reference :: string
  nb_requested_unix_ms :: u64
  nb_requester_mfa_unix_ms :: u64
  nb_expires_unix_ms :: u64
  nb_require_second_approver :: bool
  nb_eligible_approvers :: "string bset"

record BreakGlassApproval =
  ap_actor_id :: string
  ap_approve :: bool
  ap_reason :: string
  ap_subject_digest :: ContentDigest
  ap_decided_unix_ms :: u64
  ap_actor_mfa_unix_ms :: u64

record BreakGlassNotificationReceipt =
  nr_subject_digest :: ContentDigest
  nr_channel :: string
  nr_delivery_id :: string
  nr_notified_unix_ms :: u64

record BreakGlassUse =
  us_subject_digest :: ContentDigest
  us_actor_id :: string
  us_action :: string
  us_resource_kind :: string
  us_resource_id :: string
  us_incident_reference :: string
  us_used_unix_ms :: u64
  us_reauthenticated_unix_ms :: u64

text \<open>A \<^verbatim>\<open>BreakGlassRequest\<close> has the fields of the new request and what happened to it since.\<close>

record BreakGlassRequest = NewBreakGlassRequest +
  bg_subject_digest :: ContentDigest
  bg_status :: BreakGlassStatus
  bg_approval :: "BreakGlassApproval option"
  bg_notification :: "BreakGlassNotificationReceipt option"
  bg_use_record :: "BreakGlassUse option"

subsection \<open>The subject\<close>

definition to_be_bytes :: "u64 \<Rightarrow> u8 list" where
  "to_be_bytes w = map (\<lambda>i. ucast (drop_bit (8 * i) w)) (rev [0..<8])"

definition length_prefixed :: "string \<Rightarrow> u8 list" where
  "length_prefixed s = to_be_bytes (try_from_size_or_max (length s)) @ as_bytes s"

definition BREAK_GLASS_DOMAIN :: "u8 list" where
  "BREAK_GLASS_DOMAIN = as_bytes ''runtrue.break-glass.subject.v1'' @ [0]"

definition subject_bytes :: "('a) NewBreakGlassRequest_scheme \<Rightarrow> u8 list" where
  "subject_bytes r =
     BREAK_GLASS_DOMAIN @
     concat (map length_prefixed
       [nb_id r, nb_tenant_id r, nb_requester_id r, nb_action r, nb_resource_kind r, nb_resource_id r,
        nb_reason r, nb_incident_reference r]) @
     to_be_bytes (nb_requested_unix_ms r) @ to_be_bytes (nb_requester_mfa_unix_ms r) @
     to_be_bytes (nb_expires_unix_ms r) @ [if nb_require_second_approver r then 1 else 0] @
     concat (map length_prefixed (bt_keys (nb_eligible_approvers r)))"

definition bg_digest :: "digester \<Rightarrow> ('a) NewBreakGlassRequest_scheme \<Rightarrow> ContentDigest" where
  "bg_digest digest r = digest (subject_bytes r)"

definition validate_recent_mfa :: "u64 \<Rightarrow> u64 \<Rightarrow> (BreakGlassError, unit) result" where
  "validate_recent_mfa mfa_unix_ms action_unix_ms =
     fail_if
       (mfa_unix_ms > action_unix_ms \<or>
        saturating_sub action_unix_ms mfa_unix_ms > MAX_BREAK_GLASS_MFA_AGE_MS)
       BG_RecentMfaRequired"

definition validate_text :: "string \<Rightarrow> string \<Rightarrow> (BreakGlassError, unit) result" where
  "validate_text kind s =
     fail_if (is_blank s \<or> length s > MAX_BREAK_GLASS_TEXT_BYTES \<or> list_ex is_ascii_control s)
       (BG_InvalidText kind)"

subsection \<open>Operations\<close>

definition initial_status :: "('a) NewBreakGlassRequest_scheme \<Rightarrow> BreakGlassStatus" where
  "initial_status r = (if nb_require_second_approver r then BG_PendingApproval else BG_PendingNotification)"

definition request_checks :: "('a) NewBreakGlassRequest_scheme \<Rightarrow> (BreakGlassError, unit) result" where
  "request_checks r =
     seq_checks
       ([validate_text ''request id'' (nb_id r),
         validate_text ''tenant id'' (nb_tenant_id r),
         validate_text ''requester id'' (nb_requester_id r),
         validate_text ''action'' (nb_action r),
         validate_text ''resource kind'' (nb_resource_kind r),
         validate_text ''resource id'' (nb_resource_id r),
         validate_text ''reason'' (nb_reason r),
         validate_text ''incident reference'' (nb_incident_reference r),
         fail_if (nb_action r \<in> set NEVER_BREAK_GLASS_ACTIONS) (BG_PermanentlyForbiddenAction (nb_action r)),
         fail_if
           (nb_requested_unix_ms r \<ge> nb_expires_unix_ms r \<or>
            saturating_sub (nb_expires_unix_ms r) (nb_requested_unix_ms r) > MAX_BREAK_GLASS_DURATION_MS)
           BG_InvalidDuration,
         validate_recent_mfa (nb_requester_mfa_unix_ms r) (nb_requested_unix_ms r),
         fail_if
           (bt_len (nb_eligible_approvers r) > MAX_BREAK_GLASS_APPROVERS \<or>
            bs_mem (nb_requester_id r) (nb_eligible_approvers r) \<or>
            nb_require_second_approver r \<and> bt_len (nb_eligible_approvers r) = 0)
           BG_InvalidApproverSet]
        @ map (validate_text ''eligible approver'') (bt_keys (nb_eligible_approvers r)))"

definition bg_create :: "digester \<Rightarrow> NewBreakGlassRequest \<Rightarrow> (BreakGlassError, BreakGlassRequest) result" where
  "bg_create digest new =
     res_bind (request_checks new) (\<lambda>_.
       Inr (NewBreakGlassRequest.extend new
         \<lparr>bg_subject_digest = bg_digest digest new, bg_status = initial_status new, bg_approval = None,
          bg_notification = None, bg_use_record = None\<rparr>))"



definition earliest_notification :: "BreakGlassRequest \<Rightarrow> u64" where
  "earliest_notification r =
     (case bg_approval r of None \<Rightarrow> nb_requested_unix_ms r | Some approval \<Rightarrow> ap_decided_unix_ms approval)"







subsection \<open>Which requests can exist\<close>




text \<open>The request as it was created.\<close>

definition bg_base :: "BreakGlassRequest \<Rightarrow> BreakGlassRequest" where
  "bg_base r =
     r\<lparr>bg_status := initial_status r, bg_approval := None, bg_notification := None, bg_use_record := None\<rparr>"

definition request_ok :: "digester \<Rightarrow> BreakGlassRequest \<Rightarrow> bool" where
  "request_ok digest r \<longleftrightarrow> request_checks r = Inr () \<and> bg_subject_digest r = bg_digest digest r"

text \<open>What each piece of evidence had to satisfy when it was recorded.\<close>

definition decision_ok :: "BreakGlassRequest \<Rightarrow> BreakGlassApproval \<Rightarrow> bool" where
  "decision_ok r a \<longleftrightarrow>
     nb_require_second_approver r \<and>
     validate_text ''approval actor'' (ap_actor_id a) = Inr () \<and>
     validate_text ''approval reason'' (ap_reason a) = Inr () \<and>
     ap_subject_digest a = bg_subject_digest r \<and>
     bs_mem (ap_actor_id a) (nb_eligible_approvers r) \<and> ap_actor_id a \<noteq> nb_requester_id r \<and>
     nb_requested_unix_ms r \<le> ap_decided_unix_ms a \<and> ap_decided_unix_ms a < nb_expires_unix_ms r \<and>
     validate_recent_mfa (ap_actor_mfa_unix_ms a) (ap_decided_unix_ms a) = Inr ()"

definition receipt_ok :: "BreakGlassRequest \<Rightarrow> BreakGlassNotificationReceipt \<Rightarrow> bool" where
  "receipt_ok r n \<longleftrightarrow>
     (nb_require_second_approver r \<longrightarrow> (\<exists>a. bg_approval r = Some a \<and> ap_approve a)) \<and>
     nr_subject_digest n = bg_subject_digest r \<and>
     validate_text ''notification channel'' (nr_channel n) = Inr () \<and>
     validate_text ''notification delivery id'' (nr_delivery_id n) = Inr () \<and>
     earliest_notification r \<le> nr_notified_unix_ms n \<and> nr_notified_unix_ms n < nb_expires_unix_ms r"

definition use_ok :: "BreakGlassRequest \<Rightarrow> BreakGlassUse \<Rightarrow> bool" where
  "use_ok r u \<longleftrightarrow>
     bg_notification r \<noteq> None \<and>
     us_subject_digest u = bg_subject_digest r \<and> us_actor_id u = nb_requester_id r \<and>
     us_action u = nb_action r \<and> us_resource_kind u = nb_resource_kind r \<and>
     us_resource_id u = nb_resource_id r \<and> us_incident_reference u = nb_incident_reference r \<and>
     us_used_unix_ms u < nb_expires_unix_ms r \<and>
     validate_recent_mfa (us_reauthenticated_unix_ms u) (us_used_unix_ms u) = Inr ()"

text \<open>The state the evidence leads to.\<close>

definition evidence_status :: "BreakGlassRequest \<Rightarrow> BreakGlassStatus" where
  "evidence_status r =
     (if bg_use_record r \<noteq> None then BG_Consumed
      else if bg_notification r \<noteq> None then BG_Active
      else case bg_approval r of
        None \<Rightarrow> initial_status r
      | Some a \<Rightarrow> if ap_approve a then BG_PendingNotification else BG_Denied)"



subsection \<open>Every operation keeps the evidence in order\<close>


text \<open>Which parts of a request each condition reads.\<close>

lemma request_frame [simp]:
  "request_checks (bg_status_update f r) = request_checks r"
  "request_checks (bg_approval_update g r) = request_checks r"
  "request_checks (bg_notification_update h r) = request_checks r"
  "request_checks (bg_use_record_update k r) = request_checks r"
  "bg_digest digest (bg_status_update f r) = bg_digest digest r"
  "bg_digest digest (bg_approval_update g r) = bg_digest digest r"
  "bg_digest digest (bg_notification_update h r) = bg_digest digest r"
  "bg_digest digest (bg_use_record_update k r) = bg_digest digest r"
  "initial_status (bg_status_update f r) = initial_status r"
  "initial_status (bg_approval_update g r) = initial_status r"
  "initial_status (bg_notification_update h r) = initial_status r"
  "initial_status (bg_use_record_update k r) = initial_status r"
  by (simp_all add: request_checks_def bg_digest_def subject_bytes_def initial_status_def)

lemma request_ok_frame [simp]:
  "request_ok digest (bg_status_update f r) = request_ok digest r"
  "request_ok digest (bg_approval_update g r) = request_ok digest r"
  "request_ok digest (bg_notification_update h r) = request_ok digest r"
  "request_ok digest (bg_use_record_update k r) = request_ok digest r"
  by (simp_all add: request_ok_def)

lemma evidence_frame [simp]:
  "decision_ok (bg_status_update f r) = decision_ok r"
  "decision_ok (bg_approval_update g r) = decision_ok r"
  "decision_ok (bg_notification_update h r) = decision_ok r"
  "decision_ok (bg_use_record_update k r) = decision_ok r"
  "earliest_notification (bg_status_update f r) = earliest_notification r"
  "earliest_notification (bg_notification_update h r) = earliest_notification r"
  "earliest_notification (bg_use_record_update k r) = earliest_notification r"
  "receipt_ok (bg_status_update f r) = receipt_ok r"
  "receipt_ok (bg_notification_update h r) = receipt_ok r"
  "receipt_ok (bg_use_record_update k r) = receipt_ok r"
  "use_ok (bg_status_update f r) = use_ok r"
  "use_ok (bg_approval_update g r) = use_ok r"
  "use_ok (bg_use_record_update k r) = use_ok r"
  "evidence_status (bg_status_update f r) = evidence_status r"
  by (auto simp: fun_eq_iff decision_ok_def receipt_ok_def use_ok_def evidence_status_def
      earliest_notification_def split: option.split)

















text \<open>Creation, seen from the created request.\<close>

lemma truncate_frame [simp]:
  "request_checks (NewBreakGlassRequest.truncate r) = request_checks r"
  "bg_digest digest (NewBreakGlassRequest.truncate r) = bg_digest digest r"
  "initial_status (NewBreakGlassRequest.truncate r) = initial_status r"
  by (simp_all add: request_checks_def bg_digest_def subject_bytes_def initial_status_def
      NewBreakGlassRequest.truncate_def)





subsection \<open>The replay of the evidence\<close>





lemma bg_base_sel [simp]:
  "bg_subject_digest (bg_base r) = bg_subject_digest r" "bg_status (bg_base r) = initial_status r"
  "bg_approval (bg_base r) = None" "bg_notification (bg_base r) = None" "bg_use_record (bg_base r) = None"
  "nb_expires_unix_ms (bg_base r) = nb_expires_unix_ms r" "nb_requested_unix_ms (bg_base r) = nb_requested_unix_ms r"
  "nb_requester_id (bg_base r) = nb_requester_id r" "nb_eligible_approvers (bg_base r) = nb_eligible_approvers r"
  "nb_incident_reference (bg_base r) = nb_incident_reference r" "nb_action (bg_base r) = nb_action r"
  "nb_resource_kind (bg_base r) = nb_resource_kind r" "nb_resource_id (bg_base r) = nb_resource_id r"
  by (simp_all add: bg_base_def)







subsection \<open>The subject identifies the request\<close>

lemma length_to_be_bytes [simp]: "length (to_be_bytes w) = 8"
  by (simp add: to_be_bytes_def)

lemma to_be_bytes_inject:
  assumes "to_be_bytes v = to_be_bytes w"
  shows "v = w"
proof (rule bit_word_eqI)
  fix n
  assume n: "n < LENGTH(64)"
  have "n div 8 < 8"
    using n by simp
  then have "(ucast (drop_bit (8 * (n div 8)) v) :: u8) = ucast (drop_bit (8 * (n div 8)) w)"
    using assms by (simp add: to_be_bytes_def)
  then have "bit (ucast (drop_bit (8 * (n div 8)) v) :: u8) (n mod 8) = bit (ucast (drop_bit (8 * (n div 8)) w) :: u8) (n mod 8)"
    by simp
  then show "bit v n = bit w n"
    using n by (simp add: bit_simps)
qed

lemma unat_of_char: "unat (of_char c :: u8) = of_char c"
proof -
  have "(of_char c :: u8) = word_of_nat (of_char c)"
    by (rule of_nat_of_char [symmetric])
  then have "unat (of_char c :: u8) = of_char c mod 2 ^ LENGTH(8)"
    by (simp only: unat_of_nat)
  then show ?thesis
    using nat_of_char_less_256 [of c] by simp
qed

lemma as_bytes_inject: "as_bytes s = as_bytes t \<longleftrightarrow> s = t"
proof -
  have "inj (of_char :: char \<Rightarrow> u8)"
    by (rule injI) (metis unat_of_char of_char_eq_iff)
  then show ?thesis
    by (simp add: as_bytes_def inj_map_eq_map)
qed

lemma length_prefixed_inject:
  assumes "length_prefixed s @ xs = length_prefixed t @ ys" "length s < 2 ^ 64" "length t < 2 ^ 64"
  shows "s = t \<and> xs = ys"
proof -
  have "to_be_bytes (try_from_size_or_max (length s)) = to_be_bytes (try_from_size_or_max (length t))"
    and rest: "as_bytes s @ xs = as_bytes t @ ys"
    using assms(1) by (simp_all add: length_prefixed_def append_eq_append_conv)
  then have "unat (try_from_size_or_max (length s) :: u64) = unat (try_from_size_or_max (length t) :: u64)"
    using to_be_bytes_inject by metis
  then have "length s = length t"
    using assms(2, 3) by (simp add: unat_try_from_size_or_max)
  then have "as_bytes s = as_bytes t \<and> xs = ys"
    using rest by (simp add: append_eq_append_conv as_bytes_def)
  then show ?thesis
    by (simp add: as_bytes_inject)
qed

lemma length_prefixed_nonempty [simp]: "length_prefixed s \<noteq> []"
  by (metis append_is_Nil_conv length_0_conv length_prefixed_def length_to_be_bytes zero_neq_numeral)

definition short :: "string \<Rightarrow> bool" where
  "short s \<longleftrightarrow> length s < 2 ^ 64"

lemma prefixed_list_inject:
  assumes "concat (map length_prefixed ss) @ xs = concat (map length_prefixed ts) @ ys"
    "list_all short ss" "list_all short ts" "length ss = length ts"
  shows "ss = ts \<and> xs = ys"
  using assms
proof (induction ss arbitrary: ts)
  case (Cons s ss)
  then obtain t ts' where ts: "ts = t # ts'"
    by (cases ts) auto
  then have "s = t \<and> concat (map length_prefixed ss) @ xs = concat (map length_prefixed ts') @ ys"
    using Cons.prems by (intro length_prefixed_inject) (simp_all add: short_def)
  then show ?case
    using Cons.IH [of ts'] Cons.prems ts by simp
qed simp

lemma prefixed_lists_inject:
  assumes "concat (map length_prefixed ss) = concat (map length_prefixed ts)" "list_all short ss" "list_all short ts"
  shows "ss = ts"
  using assms
proof (induction ss arbitrary: ts)
  case Nil
  then show ?case
    by (cases ts) auto
next
  case (Cons s ss)
  then obtain t ts' where ts: "ts = t # ts'"
    by (cases ts) auto
  then have "s = t \<and> concat (map length_prefixed ss) = concat (map length_prefixed ts')"
    using Cons.prems by (intro length_prefixed_inject) (simp_all add: short_def)
  then show ?case
    using Cons.IH [of ts'] Cons.prems ts by simp
qed

lemma bt_keys_inject: "bt_keys s = bt_keys t \<Longrightarrow> s = (t :: 'a::linorder bset)"
  by (metis bt_keys_set btree_eqI bt_dom_iff option.exhaust old.unit.exhaust)

lemma validate_text_short: "validate_text kind s = Inr () \<Longrightarrow> short s"
  by (auto simp: validate_text_def res_simps short_def MAX_BREAK_GLASS_TEXT_BYTES_def)

lemma request_checks_short:
  assumes "request_checks r = Inr ()"
  shows "list_all short [nb_id r, nb_tenant_id r, nb_requester_id r, nb_action r, nb_resource_kind r,
      nb_resource_id r, nb_reason r, nb_incident_reference r]"
    "list_all short (bt_keys (nb_eligible_approvers r))"
  using assms by (auto simp: request_checks_def res_simps list_all_iff intro: validate_text_short)

subsection \<open>What an emergency authorization guarantees\<close>






text \<open>
  The subject digest stands for one request. Two requests that were accepted, and whose digests
  are equal although the hash does not collide on their subjects, agree in every field, the eligible
  approvers included: an approval or a notification given for one subject cannot be presented for
  another.
\<close>

theorem subject_identifies_request:
  assumes "bg_create digest new = Inr r" "bg_create digest new' = Inr r'"
    "bg_subject_digest r = bg_subject_digest r'"
    "digest (subject_bytes new) = digest (subject_bytes new') \<Longrightarrow> subject_bytes new = subject_bytes new'"
  shows "new = new'"
proof -
  let ?texts = "\<lambda>r. [nb_id r, nb_tenant_id r, nb_requester_id r, nb_action r, nb_resource_kind r, nb_resource_id r,
    nb_reason r, nb_incident_reference r]"
  have checks: "request_checks new = Inr ()" "request_checks new' = Inr ()"
    using assms(1, 2) by (auto simp: bg_create_def res_simps)
  have "digest (subject_bytes new) = digest (subject_bytes new')"
    using assms(1-3) by (auto simp: bg_create_def res_simps bg_digest_def NewBreakGlassRequest.extend_def)
  then have bytes: "subject_bytes new = subject_bytes new'"
    by (rule assms(4))
  have "?texts new = ?texts new' \<and>
      to_be_bytes (nb_requested_unix_ms new) @ to_be_bytes (nb_requester_mfa_unix_ms new) @
      to_be_bytes (nb_expires_unix_ms new) @ [if nb_require_second_approver new then 1 else 0] @
      concat (map length_prefixed (bt_keys (nb_eligible_approvers new))) =
      to_be_bytes (nb_requested_unix_ms new') @ to_be_bytes (nb_requester_mfa_unix_ms new') @
      to_be_bytes (nb_expires_unix_ms new') @ [if nb_require_second_approver new' then 1 else 0] @
      concat (map length_prefixed (bt_keys (nb_eligible_approvers new')))"
    using bytes request_checks_short(1) [OF checks(1)] request_checks_short(1) [OF checks(2)]
    by (intro prefixed_list_inject) (simp_all add: subject_bytes_def)
  then have same: "?texts new = ?texts new'" "nb_requested_unix_ms new = nb_requested_unix_ms new'"
    "nb_requester_mfa_unix_ms new = nb_requester_mfa_unix_ms new'" "nb_expires_unix_ms new = nb_expires_unix_ms new'"
    "nb_require_second_approver new = nb_require_second_approver new'"
    "concat (map length_prefixed (bt_keys (nb_eligible_approvers new))) =
     concat (map length_prefixed (bt_keys (nb_eligible_approvers new')))"
    by (auto simp: append_eq_append_conv dest!: to_be_bytes_inject split: if_splits)
  have "nb_eligible_approvers new = nb_eligible_approvers new'"
    using prefixed_lists_inject [OF same(6)] request_checks_short(2) [OF checks(1)]
      request_checks_short(2) [OF checks(2)] bt_keys_inject by blast
  with same show ?thesis
    by simp
qed

end
