(* ===== verification/Approvals.thy ===== *)
theory Approvals
  imports Policy_Lifecycle
begin

text \<open>
  \<^verbatim>\<open>crates/policy/src/lib.rs\<close> and \<^verbatim>\<open>seal.rs\<close>: approval of one exact subject by a quorum, the emergency
  denials that come before any permission, and the Seal a Capsule gets from an approved request.
\<close>

type_synonym u16 = "16 word"

subsection \<open>Rules and requests\<close>

definition MAX_APPROVAL_REASON_BYTES :: nat where
  "MAX_APPROVAL_REASON_BYTES = 2000"

definition MAX_APPROVERS :: nat where
  "MAX_APPROVERS = 1000"

datatype ApprovalKind =
  AK_WorkflowDefinition | AK_PrivilegedExecution | AK_EnvironmentDeployment | AK_ArtifactPromotion | AK_BreakGlass

datatype Decision = Approve | DenyIt

datatype ApprovalStatus = AS_Pending | AS_Approved | AS_Denied | AS_Expired | AS_Consumed

datatype PolicyError =
    PE_InvalidRule string
  | PE_InvalidRequest string
  | PE_RequestNotPending ApprovalStatus
  | PE_SubjectConflict ContentDigest ContentDigest
  | PE_RuleConflict
  | PE_InvalidDecisionTime
  | PE_InvalidReason
  | PE_IneligibleApprover string
  | PE_SeparationOfDuties string
  | PE_DuplicateDecision string
  | PE_NotAuthorized ApprovalStatus
  | PE_NotCapsuleApproval ApprovalKind
  | PE_NotSealed ApprovalStatus
  | PE_InvalidSeal string
  | PE_EmergencyDenied string

record ApprovalRule =
  ru_id :: string
  ru_required_approvals :: u16
  ru_eligible_approvers :: "string bset"
  ru_forbidden_approvers :: "string bset"
  ru_one_shot :: bool

definition has_nul :: "string \<Rightarrow> bool" where
  "has_nul s \<longleftrightarrow> CHR 0x00 \<in> set s"

definition rule_validate :: "ApprovalRule \<Rightarrow> (PolicyError, unit) result" where
  "rule_validate rule =
     seq_checks
       [fail_if (ru_id rule = [] \<or> has_nul (ru_id rule)) (PE_InvalidRule ''rule id''),
        fail_if (ru_required_approvals rule = 0)
          (PE_InvalidRule ''required approvals must be greater than zero''),
        fail_if
          (bt_len (ru_eligible_approvers rule) = 0 \<or> bt_len (ru_eligible_approvers rule) > MAX_APPROVERS \<or>
           unat (ru_required_approvals rule) >
             bt_len (ru_eligible_approvers rule) - bt_len (ru_forbidden_approvers rule))
          (PE_InvalidRule ''approval threshold exceeds the bounded eligible set''),
        fail_if (\<not> bs_subset (ru_forbidden_approvers rule) (ru_eligible_approvers rule))
          (PE_InvalidRule ''forbidden approvers must be members of the eligible set'')]"

record ApprovalDecision =
  ad_actor_id :: string
  ad_decision :: Decision
  ad_reason :: string
  ad_rule_id :: string
  ad_subject_digest :: ContentDigest
  ad_decided_unix_ms :: u64

record ApprovalRequest =
  ar_id :: string
  ar_kind :: ApprovalKind
  ar_subject_digest :: ContentDigest
  ar_risk_score :: u32
  ar_created_unix_ms :: u64
  ar_expires_unix_ms :: u64
  ar_rule :: ApprovalRule
  ar_status :: ApprovalStatus
  ar_decisions :: "(string, ApprovalDecision) btree"

definition approval_create ::
    "string \<Rightarrow> ApprovalKind \<Rightarrow> ContentDigest \<Rightarrow> u32 \<Rightarrow> u64 \<Rightarrow> u64 \<Rightarrow> ApprovalRule \<Rightarrow>
     (PolicyError, ApprovalRequest) result" where
  "approval_create i kind subject_digest risk_score created_unix_ms expires_unix_ms rule =
     res_bind
       (seq_checks
         [rule_validate rule,
          fail_if (i = [] \<or> has_nul i) (PE_InvalidRequest ''request id''),
          fail_if (expires_unix_ms \<le> created_unix_ms) (PE_InvalidRequest ''expiry must be after creation'')])
       (\<lambda>_.
         Inr \<lparr>ar_id = i, ar_kind = kind, ar_subject_digest = subject_digest, ar_risk_score = risk_score,
              ar_created_unix_ms = created_unix_ms, ar_expires_unix_ms = expires_unix_ms, ar_rule = rule,
              ar_status = AS_Pending, ar_decisions = bt_empty\<rparr>)"

definition approval_refresh :: "u64 \<Rightarrow> ApprovalRequest \<Rightarrow> ApprovalRequest" where
  "approval_refresh now_unix_ms r =
     (if ar_status r \<in> {AS_Pending, AS_Approved} \<and> now_unix_ms \<ge> ar_expires_unix_ms r
      then r\<lparr>ar_status := AS_Expired\<rparr> else r)"

definition validate_reason :: "string \<Rightarrow> (PolicyError, unit) result" where
  "validate_reason reason =
     fail_if (is_blank reason \<or> length reason > MAX_APPROVAL_REASON_BYTES \<or> has_nul reason) PE_InvalidReason"

definition approvals_in :: "(string, ApprovalDecision) btree \<Rightarrow> nat" where
  "approvals_in ds = length (filter (\<lambda>d. ad_decision d = Approve) (bt_values ds))"

definition approval_decide ::
    "ApprovalDecision \<Rightarrow> u64 \<Rightarrow> ApprovalRequest \<Rightarrow> (PolicyError, ApprovalStatus) result \<times> ApprovalRequest" where
  "approval_decide decision now_unix_ms r0 =
     (let r = approval_refresh now_unix_ms r0; rule = ar_rule r; actor = ad_actor_id decision in
      case seq_checks
        [fail_if (ar_status r \<noteq> AS_Pending) (PE_RequestNotPending (ar_status r)),
         fail_if (ad_subject_digest decision \<noteq> ar_subject_digest r)
           (PE_SubjectConflict (ar_subject_digest r) (ad_subject_digest decision)),
         fail_if (ad_rule_id decision \<noteq> ru_id rule) PE_RuleConflict,
         fail_if
           (ad_decided_unix_ms decision > now_unix_ms \<or> ad_decided_unix_ms decision < ar_created_unix_ms r)
           PE_InvalidDecisionTime,
         validate_reason (ad_reason decision),
         fail_if (\<not> bs_mem actor (ru_eligible_approvers rule)) (PE_IneligibleApprover actor),
         fail_if (bs_mem actor (ru_forbidden_approvers rule)) (PE_SeparationOfDuties actor),
         fail_if (bt_contains_key (ar_decisions r) actor) (PE_DuplicateDecision actor)]
      of
        Inl e \<Rightarrow> (Inl e, r)
      | Inr _ \<Rightarrow>
          let decisions = bt_insert actor decision (ar_decisions r);
              status =
                (if ad_decision decision = DenyIt then AS_Denied
                 else if approvals_in decisions \<ge> unat (ru_required_approvals rule) then AS_Approved
                 else AS_Pending) in
          (Inr status, r\<lparr>ar_decisions := decisions, ar_status := status\<rparr>))"

definition approval_authorize ::
    "ContentDigest \<Rightarrow> u64 \<Rightarrow> ApprovalRequest \<Rightarrow> (PolicyError, unit) result \<times> ApprovalRequest" where
  "approval_authorize subject_digest now_unix_ms r0 =
     (let r = approval_refresh now_unix_ms r0 in
      case seq_checks
        [fail_if (subject_digest \<noteq> ar_subject_digest r)
           (PE_SubjectConflict (ar_subject_digest r) subject_digest),
         fail_if (ar_status r \<noteq> AS_Approved) (PE_NotAuthorized (ar_status r))]
      of
        Inl e \<Rightarrow> (Inl e, r)
      | Inr _ \<Rightarrow> (Inr (), if ru_one_shot (ar_rule r) then r\<lparr>ar_status := AS_Consumed\<rparr> else r))"

subsection \<open>Emergency denials\<close>

record PolicyAdmissionContext =
  cx_action :: string
  cx_tenant_id :: string
  cx_repository_id :: string
  cx_risk_score :: u32
  cx_privileged :: bool
  cx_untrusted :: bool

record EmergencyDeny =
  ed_id :: string
  ed_actions :: "string bset"
  ed_repository_id :: "string option"
  ed_minimum_risk_score :: "u32 option"
  ed_deny_privileged :: bool
  ed_deny_untrusted :: bool

definition deny_matches :: "PolicyAdmissionContext \<Rightarrow> EmergencyDeny \<Rightarrow> bool" where
  "deny_matches cx d \<longleftrightarrow>
     (bt_len (ed_actions d) = 0 \<or> bs_mem (cx_action cx) (ed_actions d)) \<and>
     (case ed_repository_id d of None \<Rightarrow> True | Some repository \<Rightarrow> repository = cx_repository_id cx) \<and>
     (case ed_minimum_risk_score d of None \<Rightarrow> True | Some minimum \<Rightarrow> cx_risk_score cx \<ge> minimum) \<and>
     (\<not> ed_deny_privileged d \<or> cx_privileged cx) \<and>
     (\<not> ed_deny_untrusted d \<or> cx_untrusted cx)"

record DenyFirstPolicy =
  df_emergency_denies :: "EmergencyDeny list"

definition no_denies :: DenyFirstPolicy where
  "no_denies = \<lparr>df_emergency_denies = []\<rparr>"

definition policy_admit :: "DenyFirstPolicy \<Rightarrow> PolicyAdmissionContext \<Rightarrow> (PolicyError, unit) result" where
  "policy_admit policy cx =
     (case List.find (deny_matches cx) (df_emergency_denies policy) of
        Some rule \<Rightarrow> Inl (PE_EmergencyDenied (ed_id rule))
      | None \<Rightarrow> Inr ())"

subsection \<open>Seals\<close>

definition seal_decision_checks :: "ApprovalRequest \<Rightarrow> string \<times> ApprovalDecision \<Rightarrow> (PolicyError, unit) result" where
  "seal_decision_checks r entry =
     (case entry of (actor_id, decision) \<Rightarrow>
        seq_checks
          [fail_if (actor_id \<noteq> ad_actor_id decision) (PE_InvalidSeal ''decision map key does not match actor id''),
           fail_if (ad_decision decision \<noteq> Approve) (PE_InvalidSeal ''approved evidence contains a denial''),
           fail_if (ad_subject_digest decision \<noteq> ar_subject_digest r)
             (PE_InvalidSeal ''decision Capsule digest changed''),
           fail_if (ad_rule_id decision \<noteq> ru_id (ar_rule r)) (PE_InvalidSeal ''decision rule changed''),
           fail_if
             (ad_decided_unix_ms decision < ar_created_unix_ms r \<or> ad_decided_unix_ms decision \<ge> ar_expires_unix_ms r)
             (PE_InvalidSeal ''decision timestamp''),
           validate_reason (ad_reason decision),
           fail_if
             (\<not> bs_mem actor_id (ru_eligible_approvers (ar_rule r)) \<or>
              bs_mem actor_id (ru_forbidden_approvers (ar_rule r)))
             (PE_InvalidSeal ''ineligible decision actor'')])"

definition validate_seal :: "ApprovalRequest \<Rightarrow> (PolicyError, unit) result" where
  "validate_seal r =
     seq_checks
       ([fail_if (ar_kind r \<notin> {AK_WorkflowDefinition, AK_PrivilegedExecution}) (PE_NotCapsuleApproval (ar_kind r)),
         fail_if (ar_status r \<notin> {AS_Approved, AS_Consumed}) (PE_NotSealed (ar_status r)),
         fail_if (ar_status r = AS_Consumed \<and> \<not> ru_one_shot (ar_rule r))
           (PE_InvalidSeal ''only one-shot approval evidence can be consumed''),
         rule_validate (ar_rule r),
         fail_if (ar_id r = [] \<or> has_nul (ar_id r)) (PE_InvalidSeal ''approval id''),
         fail_if (ar_expires_unix_ms r \<le> ar_created_unix_ms r) (PE_InvalidSeal ''expiry must be after creation'')]
        @ map (seal_decision_checks r) (bt_entries (ar_decisions r)) @
        [fail_if (bt_len (ar_decisions r) < unat (ru_required_approvals (ar_rule r)))
           (PE_InvalidSeal ''approval threshold was not satisfied'')])"

subsection \<open>The evidence of a request\<close>

inductive approval_step :: "ApprovalRequest \<Rightarrow> ApprovalRequest \<Rightarrow> bool" where
  decides: "approval_step r (snd (approval_decide decision now r))"
| authorizes: "approval_step r (snd (approval_authorize subject now r))"
| refreshes: "approval_step r (approval_refresh now r)"

inductive_cases approval_stepE: "approval_step r r'"

text \<open>A decision as the rule of the request admits it, under the key of its actor.\<close>

definition decision_counts :: "ApprovalRequest \<Rightarrow> string \<Rightarrow> ApprovalDecision \<Rightarrow> bool" where
  "decision_counts r actor d \<longleftrightarrow>
     ad_actor_id d = actor \<and> ad_subject_digest d = ar_subject_digest r \<and> ad_rule_id d = ru_id (ar_rule r) \<and>
     ar_created_unix_ms r \<le> ad_decided_unix_ms d \<and> ad_decided_unix_ms d < ar_expires_unix_ms r \<and>
     validate_reason (ad_reason d) = Inr () \<and>
     bs_mem actor (ru_eligible_approvers (ar_rule r)) \<and> \<not> bs_mem actor (ru_forbidden_approvers (ar_rule r))"

definition all_approve :: "ApprovalRequest \<Rightarrow> bool" where
  "all_approve r \<longleftrightarrow> (\<forall>actor d. bt_get (ar_decisions r) actor = Some d \<longrightarrow> ad_decision d = Approve)"

definition approval_ok :: "ApprovalRequest \<Rightarrow> bool" where
  "approval_ok r \<longleftrightarrow>
     rule_validate (ar_rule r) = Inr () \<and> ar_id r \<noteq> [] \<and> \<not> has_nul (ar_id r) \<and>
     ar_created_unix_ms r < ar_expires_unix_ms r \<and>
     (\<forall>actor d. bt_get (ar_decisions r) actor = Some d \<longrightarrow> decision_counts r actor d) \<and>
     (ar_status r \<noteq> AS_Denied \<longrightarrow> all_approve r) \<and>
     (ar_status r = AS_Pending \<longrightarrow> bt_len (ar_decisions r) < unat (ru_required_approvals (ar_rule r))) \<and>
     (ar_status r \<in> {AS_Approved, AS_Consumed} \<longrightarrow>
       unat (ru_required_approvals (ar_rule r)) \<le> bt_len (ar_decisions r)) \<and>
     (ar_status r = AS_Consumed \<longrightarrow> ru_one_shot (ar_rule r))"

lemma approvals_all:
  assumes "\<And>actor d. bt_get ds actor = Some d \<Longrightarrow> ad_decision d = Approve"
  shows "approvals_in ds = bt_len ds"
proof -
  have "filter (\<lambda>d. ad_decision d = Approve) (bt_values ds) = bt_values ds"
    using assms by (auto simp: filter_id_conv bt_values_set)
  then show ?thesis
    by (simp add: approvals_in_def bt_values_def bt_len_def)
qed

lemma approval_refresh_cases:
  "approval_refresh now r = r\<lparr>ar_status := AS_Expired\<rparr> \<and> ar_status r \<in> {AS_Pending, AS_Approved} \<or>
   approval_refresh now r = r \<and> (ar_status r \<in> {AS_Pending, AS_Approved} \<longrightarrow> now < ar_expires_unix_ms r)"
  by (auto simp: approval_refresh_def not_le)

lemma approval_refresh_live:
  assumes "ar_status (approval_refresh now r) \<in> {AS_Pending, AS_Approved}"
  shows "approval_refresh now r = r" "now < ar_expires_unix_ms r"
  using assms approval_refresh_cases [of now r] by auto

lemma counts_frame [simp]:
  "decision_counts (ar_status_update f r) = decision_counts r"
  "decision_counts (ar_decisions_update g r) = decision_counts r"
  "all_approve (ar_status_update f r) = all_approve r"
  by (auto simp: fun_eq_iff decision_counts_def all_approve_def)

lemma approval_expired_ok:
  "approval_ok r \<Longrightarrow> ar_status r \<in> {AS_Pending, AS_Approved} \<Longrightarrow> approval_ok (r\<lparr>ar_status := AS_Expired\<rparr>)"
  by (auto simp: approval_ok_def)

lemma approval_refresh_ok: "approval_ok r \<Longrightarrow> approval_ok (approval_refresh now r)"
  using approval_refresh_cases [of now r] approval_expired_ok [of r] by presburger

lemma approval_decide_failure: "approval_decide d now r = (Inl e, r') \<Longrightarrow> r' = approval_refresh now r"
  unfolding approval_decide_def Let_def by (rule failed_call)

definition decided_status :: "ApprovalDecision \<Rightarrow> ApprovalRequest \<Rightarrow> ApprovalStatus" where
  "decided_status d r =
     (if ad_decision d = DenyIt then AS_Denied
      else if approvals_in (bt_insert (ad_actor_id d) d (ar_decisions r)) \<ge> unat (ru_required_approvals (ar_rule r))
      then AS_Approved else AS_Pending)"

lemma approval_decide_success:
  "approval_decide d now r = (Inr s, r') \<longleftrightarrow>
     s = decided_status d r \<and>
     r' = r\<lparr>ar_decisions := bt_insert (ad_actor_id d) d (ar_decisions r), ar_status := s\<rparr> \<and>
     ar_status r = AS_Pending \<and> now < ar_expires_unix_ms r \<and> ad_decided_unix_ms d \<le> now \<and>
     bt_get (ar_decisions r) (ad_actor_id d) = None \<and> decision_counts r (ad_actor_id d) d"
proof (cases "ar_status (approval_refresh now r) = AS_Pending")
  case True
  then have same: "approval_refresh now r = r" "now < ar_expires_unix_ms r"
    using approval_refresh_live [of now r] by simp_all
  have "ad_decided_unix_ms d \<le> now \<Longrightarrow> ad_decided_unix_ms d < ar_expires_unix_ms r"
    using same(2) by simp
  with True show ?thesis
    unfolding approval_decide_def Let_def checked_call same(1)
    by (auto simp: res_simps not_less decision_counts_def decided_status_def same)
next
  case False
  moreover have "\<not> (ar_status r = AS_Pending \<and> now < ar_expires_unix_ms r)"
    using False by (auto simp: approval_refresh_def split: if_splits)
  ultimately show ?thesis
    by (auto simp: approval_decide_def Let_def)
qed

lemma approval_authorize_failure: "approval_authorize d now r = (Inl e, r') \<Longrightarrow> r' = approval_refresh now r"
  unfolding approval_authorize_def Let_def by (rule failed_call)

lemma approval_authorize_success:
  "approval_authorize subject now r = (Inr u, r') \<longleftrightarrow>
     r' = (if ru_one_shot (ar_rule r) then r\<lparr>ar_status := AS_Consumed\<rparr> else r) \<and>
     subject = ar_subject_digest r \<and> ar_status r = AS_Approved \<and> now < ar_expires_unix_ms r"
proof (cases "ar_status (approval_refresh now r) = AS_Approved")
  case True
  then have same: "approval_refresh now r = r" "now < ar_expires_unix_ms r"
    using approval_refresh_live [of now r] by simp_all
  with True show ?thesis
    unfolding approval_authorize_def Let_def checked_call same(1) by (auto simp: res_simps)
next
  case False
  moreover have "\<not> (ar_status r = AS_Approved \<and> now < ar_expires_unix_ms r)"
    using False by (auto simp: approval_refresh_def split: if_splits)
  ultimately show ?thesis
    by (auto simp: approval_authorize_def Let_def checked_call res_simps)
qed

lemma decided_approval:
  assumes "approval_ok r" "ar_status r = AS_Pending" "ad_decision d = Approve"
    "bt_get (ar_decisions r) (ad_actor_id d) = None"
  shows "approvals_in (bt_insert (ad_actor_id d) d (ar_decisions r)) = Suc (bt_len (ar_decisions r))"
proof -
  have "all_approve r"
    using assms(1, 2) by (simp add: approval_ok_def)
  then have "approvals_in (bt_insert (ad_actor_id d) d (ar_decisions r)) = bt_len (bt_insert (ad_actor_id d) d (ar_decisions r))"
    using assms(3) by (intro approvals_all) (auto simp: all_approve_def split: if_splits)
  then show ?thesis
    using assms(4) by (simp add: bt_len_insert)
qed

lemma approval_decide_ok:
  assumes "approval_ok r" "approval_decide d now r = (Inr s, r')"
  shows "approval_ok r'"
proof -
  note facts = assms(2) [unfolded approval_decide_success]
  let ?ds = "bt_insert (ad_actor_id d) d (ar_decisions r)"
  have counts: "bt_get ?ds actor = Some e \<Longrightarrow> decision_counts r actor e" for actor e
    using assms(1) facts by (auto simp: approval_ok_def split: if_splits)
  have approve: "ad_decision d = Approve \<Longrightarrow> all_approve (r\<lparr>ar_decisions := ?ds\<rparr>)"
    using assms(1) facts by (auto simp: approval_ok_def all_approve_def)
  have len: "ad_decision d = Approve \<Longrightarrow> approvals_in ?ds = Suc (bt_len (ar_decisions r))"
      "bt_len ?ds = Suc (bt_len (ar_decisions r))"
    using decided_approval [OF assms(1)] facts by (simp_all add: bt_len_insert)
  have kept: "rule_validate (ar_rule r) = Inr ()" "ar_id r \<noteq> []" "\<not> has_nul (ar_id r)"
      "ar_created_unix_ms r < ar_expires_unix_ms r"
    using assms(1) by (simp_all add: approval_ok_def)
  have r': "r' = r\<lparr>ar_decisions := ?ds, ar_status := decided_status d r\<rparr>"
    using facts by simp
  show ?thesis
    unfolding approval_ok_def r'
    using kept counts approve len by (cases "ad_decision d") (simp_all add: decided_status_def not_le)
qed

lemma approval_authorize_ok:
  assumes "approval_ok r" "approval_authorize subject now r = (Inr u, r')"
  shows "approval_ok r'"
proof -
  note facts = assms(2) [unfolded approval_authorize_success]
  have "ru_one_shot (ar_rule r) \<Longrightarrow> ar_status r = AS_Approved \<Longrightarrow> approval_ok (r\<lparr>ar_status := AS_Consumed\<rparr>)"
    using assms(1) by (simp add: approval_ok_def)
  then show ?thesis
    using facts assms(1) by simp
qed

lemma approval_step_ok:
  assumes "approval_step r r'" "approval_ok r"
  shows "approval_ok r'"
  using assms(1)
proof cases
  case (decides decision now)
  then show ?thesis
    using assms(2) approval_decide_ok [of r decision now] approval_decide_failure [of decision now r] approval_refresh_ok
    by (cases "approval_decide decision now r"; cases "fst (approval_decide decision now r)") auto
next
  case (authorizes subject now)
  then show ?thesis
    using assms(2) approval_authorize_ok [of r subject now] approval_authorize_failure [of subject now r] approval_refresh_ok
    by (cases "approval_authorize subject now r"; cases "fst (approval_authorize subject now r)") auto
next
  case (refreshes now)
  then show ?thesis
    using assms(2) approval_refresh_ok by simp
qed

lemma approval_create_ok:
  assumes "approval_create i kind subject risk created expires rule = Inr r"
  shows "approval_ok r" "ar_status r = AS_Pending" "ar_decisions r = bt_empty"
  using assms by (auto simp: approval_create_def res_simps approval_ok_def all_approve_def rule_validate_def not_le unat_gt_0)

lemma approval_reach_ok: "approval_step\<^sup>*\<^sup>* r r' \<Longrightarrow> approval_ok r \<Longrightarrow> approval_ok r'"
  by (induction rule: rtranclp_induct) (auto intro: approval_step_ok)

lemma approval_settled:
  assumes "approval_step r r'" "ar_status r \<notin> {AS_Pending, AS_Approved}"
  shows "r' = r"
proof -
  have same: "approval_refresh now r = r" for now
    using assms(2) by (simp add: approval_refresh_def)
  from assms(1) show ?thesis
  proof cases
    case (decides decision now)
    then show ?thesis
      using approval_decide_success [of decision now r] approval_decide_failure [of decision now r] assms(2) same
      by (cases "approval_decide decision now r"; cases "fst (approval_decide decision now r)") auto
  next
    case (authorizes subject now)
    then show ?thesis
      using approval_authorize_success [of subject now r] approval_authorize_failure [of subject now r] assms(2) same
      by (cases "approval_authorize subject now r"; cases "fst (approval_authorize subject now r)") auto
  qed (simp add: same)
qed

lemma approval_settled_forever:
  assumes "approval_step\<^sup>*\<^sup>* r r'" "ar_status r \<notin> {AS_Pending, AS_Approved}"
  shows "r' = r"
  using assms by (induction rule: rtranclp_induct) (auto dest: approval_settled)

subsection \<open>What an approval guarantees\<close>

text \<open>Those whose approval of the subject was recorded in time.\<close>

definition approvers :: "ApprovalRequest \<Rightarrow> string set" where
  "approvers r =
     {actor. \<exists>d. bt_get (ar_decisions r) actor = Some d \<and> ad_decision d = Approve \<and> ad_actor_id d = actor \<and>
        ad_subject_digest d = ar_subject_digest r \<and> ar_created_unix_ms r \<le> ad_decided_unix_ms d \<and>
        ad_decided_unix_ms d < ar_expires_unix_ms r}"

definition permitted :: "ApprovalRule \<Rightarrow> string set" where
  "permitted rule = bt_dom (ru_eligible_approvers rule) - bt_dom (ru_forbidden_approvers rule)"

lemma approvers_quorum:
  assumes "approval_ok r" "ar_status r \<in> {AS_Approved, AS_Consumed}"
  shows "approvers r \<subseteq> permitted (ar_rule r)" "unat (ru_required_approvals (ar_rule r)) \<le> card (approvers r)"
proof -
  have counts: "decision_counts r actor d" "ad_decision d = Approve" if "bt_get (ar_decisions r) actor = Some d" for actor d
    using assms that by (auto simp: approval_ok_def all_approve_def)
  have "actor \<in> approvers r \<longleftrightarrow> actor \<in> bt_dom (ar_decisions r)" for actor
    using counts [of actor]
    by (cases "bt_get (ar_decisions r) actor") (simp_all add: approvers_def bt_dom_iff decision_counts_def)
  then have "approvers r = bt_dom (ar_decisions r)"
    by blast
  then show "unat (ru_required_approvals (ar_rule r)) \<le> card (approvers r)"
    using assms by (auto simp: approval_ok_def bt_len_card)
  show "approvers r \<subseteq> permitted (ar_rule r)"
  proof
    fix actor
    assume "actor \<in> approvers r"
    then obtain d where "bt_get (ar_decisions r) actor = Some d"
      by (auto simp: approvers_def)
    from counts(1) [OF this] show "actor \<in> permitted (ar_rule r)"
      by (simp add: permitted_def bs_mem_iff decision_counts_def)
  qed
qed

text \<open>
  A quorum stands behind every authorization. When a request authorizes, after whatever calls,
  it does so for its own subject and before it expires, and at least the required number of
  different people, each eligible and none of them excluded, approved that very subject while the
  request was open, and nobody denied it. A one-shot request authorizes once: after that, no
  sequence of calls makes it authorize again.
\<close>

theorem approval_quorum:
  assumes "approval_create i kind subject risk created expires rule = Inr r0" "approval_step\<^sup>*\<^sup>* r0 r"
    "approval_authorize presented now r = (Inr (), r')"
  shows "presented = ar_subject_digest r \<and> unat now < unat (ar_expires_unix_ms r) \<and>
    approvers r \<subseteq> permitted (ar_rule r) \<and> unat (ru_required_approvals (ar_rule r)) \<le> card (approvers r) \<and>
    \<not> (\<exists>actor d. bt_get (ar_decisions r) actor = Some d \<and> ad_decision d = DenyIt) \<and>
    (ru_one_shot (ar_rule r) \<longrightarrow>
      (\<forall>q presented' now'. approval_step\<^sup>*\<^sup>* r' q \<longrightarrow> (\<exists>e. fst (approval_authorize presented' now' q) = Inl e)))"
proof -
  have ok: "approval_ok r"
    using approval_reach_ok [OF assms(2) approval_create_ok(1) [OF assms(1)]] .
  note facts = assms(3) [unfolded approval_authorize_success]
  have spent: "\<exists>e. fst (approval_authorize presented' now' q) = Inl e"
    if "ru_one_shot (ar_rule r)" "approval_step\<^sup>*\<^sup>* r' q" for q presented' now'
  proof -
    have "ar_status r' = AS_Consumed"
      using facts that(1) by simp
    then have "ar_status q = AS_Consumed"
      using approval_settled_forever [OF that(2)] by simp
    then have "approval_authorize presented' now' q \<noteq> (Inr u, q')" for u q'
      by (simp add: approval_authorize_success)
    then show ?thesis
      by (metis old.sum.exhaust prod.collapse)
  qed
  have "\<not> (\<exists>actor d. bt_get (ar_decisions r) actor = Some d \<and> ad_decision d = DenyIt)"
    using ok facts by (auto simp: approval_ok_def all_approve_def)
  then show ?thesis
    using facts spent approvers_quorum [OF ok] by (auto simp: word_less_nat_alt)
qed

lemma undecided_exists:
  assumes "approval_ok r" "ar_status r = AS_Pending"
  obtains actor where "bs_mem actor (ru_eligible_approvers (ar_rule r))"
    "\<not> bs_mem actor (ru_forbidden_approvers (ar_rule r))" "bt_get (ar_decisions r) actor = None"
proof -
  let ?E = "bt_dom (ru_eligible_approvers (ar_rule r))" and ?F = "bt_dom (ru_forbidden_approvers (ar_rule r))"
  have "unat (ru_required_approvals (ar_rule r)) \<le> card ?E - card ?F" "?F \<subseteq> ?E"
    using assms(1) by (auto simp: approval_ok_def rule_validate_def res_simps bt_len_card bs_subset_iff)
  then have "unat (ru_required_approvals (ar_rule r)) \<le> card (?E - ?F)"
    by (simp add: card_Diff_subset)
  moreover have "card (bt_dom (ar_decisions r)) < unat (ru_required_approvals (ar_rule r))"
    using assms by (simp add: approval_ok_def bt_len_card)
  ultimately have "\<not> ?E - ?F \<subseteq> bt_dom (ar_decisions r)"
    by (metis bt_dom_finite card_mono le_trans not_less)
  then obtain x where "x \<in> ?E" "x \<notin> ?F" "x \<notin> bt_dom (ar_decisions r)"
    by blast
  then show thesis
    by (intro that [of x]) (auto simp: bs_mem_iff bt_dom_iff)
qed

lemma approval_progress:
  assumes "approval_ok r" "ar_status r = AS_Pending"
  shows "\<exists>r'. approval_step\<^sup>*\<^sup>* r r' \<and> ar_status r' = AS_Approved"
  using assms
proof (induction "unat (ru_required_approvals (ar_rule r)) - bt_len (ar_decisions r)" arbitrary: r rule: less_induct)
  case less
  obtain actor where actor: "bs_mem actor (ru_eligible_approvers (ar_rule r))"
    "\<not> bs_mem actor (ru_forbidden_approvers (ar_rule r))" "bt_get (ar_decisions r) actor = None"
    using undecided_exists [OF less.prems] by blast
  define d where "d = \<lparr>ad_actor_id = actor, ad_decision = Approve, ad_reason = ''ok'', ad_rule_id = ru_id (ar_rule r),
    ad_subject_digest = ar_subject_digest r, ad_decided_unix_ms = ar_created_unix_ms r\<rparr>"
  have open_now: "ar_created_unix_ms r < ar_expires_unix_ms r"
    using less.prems(1) by (simp add: approval_ok_def)
  define q where "q = r\<lparr>ar_decisions := bt_insert actor d (ar_decisions r), ar_status := decided_status d r\<rparr>"
  have "validate_reason ''ok'' = Inr ()"
    by (simp add: validate_reason_def res_simps has_nul_def blank1_def blank2_def byte_in_def MAX_APPROVAL_REASON_BYTES_def)
  then have call: "approval_decide d (ar_created_unix_ms r) r = (Inr (decided_status d r), q)"
    unfolding approval_decide_success q_def using actor open_now less.prems(2)
    by (simp add: d_def decision_counts_def)
  then have step: "approval_step r q"
    using decides [of r d "ar_created_unix_ms r"] by simp
  have ok: "approval_ok q"
    by (rule approval_decide_ok [OF less.prems(1) call])
  show ?case
  proof (cases "decided_status d r = AS_Approved")
    case True
    then show ?thesis
      using step by (auto simp: q_def)
  next
    case False
    then have pending: "ar_status q = AS_Pending"
      by (auto simp: q_def decided_status_def d_def)
    have "bt_len (ar_decisions r) < unat (ru_required_approvals (ar_rule r))"
      using less.prems by (simp add: approval_ok_def)
    then have "unat (ru_required_approvals (ar_rule q)) - bt_len (ar_decisions q) <
        unat (ru_required_approvals (ar_rule r)) - bt_len (ar_decisions r)"
      using actor(3) by (simp add: q_def bt_len_insert)
    from less.hyps [OF this ok pending] step show ?thesis
      by (meson converse_rtranclp_into_rtranclp)
  qed
qed

end
