(* ===== verification/Policy_Examples.thy ===== *)
theory Policy_Examples
  imports Break_Glass Approvals
begin
















end
