(* ===== verification/Spec2Isabelle.thy ===== *)
theory Spec2Isabelle
  imports Model_Primitives Lifecycle Exec_Lifecycle Ledger_Examples Scheduler_Examples Expression_Examples
    Policy_Examples
begin

text \<open>
  A model of the execution kernel of runtrue and of the crates it rests on, with the theorems that
  make it correct.

  \<^bold>\<open>The program.\<close> Runtrue runs workflows under explicit authority. A Session Capsule fixes an
  envelope of programs, runtimes, capabilities, resources, placement, outputs and time; a Seal
  approves it; a delegation grant narrows it for a planner; an Execution Capsule describes one
  child. A reservation ledger admits children against the Session's budget, and a workspace
  ledger records which child's output became the next workspace generation. The scheduler hands
  queued jobs to runners as fenced leases. Policy decides what may run at all: versions of policy
  text are reviewed before they are enforced, subjects are approved by a quorum, and an emergency
  request authorizes one action once. Jobs and steps carry conditions in a small expression
  language: the compiler checks them and stores a canonical form, the engine parses that form
  again and decides them in the context of a run.

  \<^bold>\<open>Theories and the code they model.\<close>
  \<^item> \<open>Prelude\<close>: the standard library as the code uses it. \<^verbatim>\<open>Result\<close> is a sum type, \<^verbatim>\<open>?\<close> is \<open>res_bind\<close>,
    a block of early returns is \<open>seq_checks\<close>, and unsigned integers are words with the
    checked, saturating and converting operations of the language.
  \<^item> \<open>BTree\<close>: \<^verbatim>\<open>BTreeMap\<close> and \<^verbatim>\<open>BTreeSet\<close> as strictly sorted association lists, with sums over the
    entries; the locale \<open>keyed_store\<close> is their interface.
  \<^item> \<open>Model_Primitives\<close>: \<^verbatim>\<open>crates/model\<close>: content digests, durations, byte sizes and relative paths.
  \<^item> \<open>Lifecycle\<close>: \<^verbatim>\<open>crates/lifecycle\<close>: the job, run and step state machines, as instances of the
    locales \<open>lifecycle\<close> and \<open>ranked_lifecycle\<close>.
  \<^item> \<open>Exec_Validation\<close>, \<open>Exec_Lifecycle\<close>: \<^verbatim>\<open>error.rs\<close>, \<^verbatim>\<open>validation.rs\<close> and \<^verbatim>\<open>lifecycle.rs\<close> of \<^verbatim>\<open>crates/execution\<close>.
  \<^item> \<open>Contracts\<close>: \<^verbatim>\<open>contracts.rs\<close>; each containment test is an instance of the locale \<open>envelope\<close>.
  \<^item> \<open>Canonical\<close>: \<^verbatim>\<open>canonical.rs\<close>, the canonical JSON form over which digests are taken.
  \<^item> \<open>Program_Runtime\<close>: \<^verbatim>\<open>program.rs\<close> and \<^verbatim>\<open>runtime.rs\<close>.
  \<^item> \<open>Seals\<close>, \<open>Capsule\<close>: \<^verbatim>\<open>seal.rs\<close> and \<^verbatim>\<open>capsule.rs\<close>: an accepted seal carries the terms its
    authority signed and belongs to one subject; a delegated child stays inside the envelope of its
    Session, and a grant ends with its seal, which no later seal can replace.
  \<^item> \<open>Accounting\<close>, \<open>Reservation\<close>: \<^verbatim>\<open>reservation.rs\<close>, the arithmetic of the eight accounted dimensions
    and the ledger operations.
  \<^item> \<open>Reservation_Invariant\<close>, \<open>Reservation_Safety\<close>: the ledger's invariant, that validation decides it,
    that every operation keeps it, and what follows for every run of operations. The locale
    \<open>staged_ledger\<close> states the copy, validate and replace discipline once.
  \<^item> \<open>Workspace\<close>, \<open>Workspace_Safety\<close>: \<^verbatim>\<open>workspace.rs\<close>, and the runs in which both ledgers move together.
  \<^item> \<open>Ledger_Examples\<close>: a concrete Session run (creation, admission, release, publication) on which the
    theorems about the ledgers are applied.
  \<^item> \<open>Scheduler_Model\<close>, \<open>Scheduler\<close>: \<^verbatim>\<open>crates/scheduler\<close>, its records, filters and score, and its
    operations on the tables of runners, jobs and leases.
  \<^item> \<open>Scheduler_Safety\<close>, \<open>Scheduler_Jobs\<close>, \<open>Scheduler_Examples\<close>: the invariant that ties leases to
    jobs, kept by every sequence of calls (locale \<open>growing_machine\<close>), fencing, placement, the fate
    of jobs, what restoring an installation resets, and a concrete run. It takes a runner above its
    slots and a tenant above its quota, which acceptance does not test again.
  \<^item> \<open>Policy_Lifecycle\<close>, \<open>Approvals\<close>, \<open>Break_Glass\<close>: \<^verbatim>\<open>lifecycle.rs\<close>, \<^verbatim>\<open>lib.rs\<close> with \<^verbatim>\<open>seal.rs\<close>, and
    \<^verbatim>\<open>break_glass\<close> of \<^verbatim>\<open>crates/policy\<close>: no version is enforced without independent review, a quorum of
    permitted people stands behind every authorization and a pending request can still reach it, and
    the integrity check of an emergency request accepts just the requests its operations can produce.
    \<open>Policy_Examples\<close> is a concrete emergency.
  \<^item> \<open>Double_Numbers\<close>: the doubles of the expression language: rounding to the binary64 format, reading
    a decimal and printing the shortest one that reads back.
  \<^item> \<open>Expression_Values\<close>, \<open>Expression_Eval\<close>: \<^verbatim>\<open>span.rs\<close>, \<^verbatim>\<open>value.rs\<close>, \<^verbatim>\<open>context.rs\<close>, \<^verbatim>\<open>ast.rs\<close> and
    \<^verbatim>\<open>evaluation.rs\<close> of \<^verbatim>\<open>crates/expression\<close>. The locale \<open>flow_label\<close> proves noninterference once, for
    the secret and for the untrusted label.
  \<^item> \<open>Expression_Lexer\<close>, \<open>Expression_Parser\<close>: \<^verbatim>\<open>lexer.rs\<close> and \<^verbatim>\<open>parser.rs\<close>, with every message and span.
  \<^item> \<open>Expression_Grammar\<close>: the grammar of conditions as an inductive relation, and that the parser is
    sound and complete for it, ends on every input and reports errors inside the source.
  \<^item> \<open>Expression_Canonical\<close>: the canonical form, that parsing it gives the same tree back, that it
    separates trees, and where it exceeds the limits of the parser.
  \<^item> \<open>Conditions\<close>: \<^verbatim>\<open>normalize_expression\<close> and \<^verbatim>\<open>combine_conditions\<close> of \<^verbatim>\<open>crates/compiler\<close>,
    \<^verbatim>\<open>evaluate_condition\<close> and \<^verbatim>\<open>validate_condition_syntax\<close> of \<^verbatim>\<open>crates/engine\<close>: what the engine decides is
    what the author wrote. \<open>Expression_Examples\<close> applies the theorems to concrete conditions.

  \<^bold>\<open>How code becomes definitions.\<close> A method on \<^verbatim>\<open>&self\<close> is a function of the record; a method on
  \<^verbatim>\<open>&mut self\<close> returns its result together with the new record, also when the result is an error.
  Errors are values of the source's error type, in the order in which the source tests for them.
  Digests need serialisation, hashing and hexadecimal encoding, which belong to other packages:
  they are the fields of the parameter records \<open>canon\<close> to \<open>canon_workspace\<close>, and the results hold
  for every choice of them. The signature verifier and the clock are arguments. Recursive definitions terminate.
  Two loops of the parser carry a counter: a round of an operator loop takes a token, so it gets one
  round more than there are tokens, and a call inside parentheses is counted by the nesting limit,
  so \<open>parse_or\<close> gets one level more than that limit; that neither counter runs out is part of
  \<open>errors_located\<close>. A panic of the parser is an outcome too, and excluded by the same theorem.
  Sizes are natural numbers; where the code converts them to
  a fixed width, so does the model. Signed values are integers with their bounds written out. Text is
  a character list; in the expression language, which counts bytes and tells Unicode characters
  apart, it is the list of the scalar values of the text with their encoded lengths. A finite double
  is its rational value.

  \<^bold>\<open>Not modelled.\<close> The store traits have no body. The policy engine that
  \<^verbatim>\<open>crates/policy/src/cedar\<close> and \<^verbatim>\<open>active_bundle\<close> drive is a third-party package. Serialisation is generated by a third-party
  package. Of the compiler and the engine only the handling of conditions is modelled; the rest
  lowers the trees of a third-party YAML reader and drives executors. The other crates are input and
  output (databases, HTTP, processes, virtual machines), wrap third-party cryptography or parsers,
  or build on the kernel without changing it.
\<close>

end
